(* ===== verification/Prelude.thy ===== *)
theory Prelude
  imports Main "HOL-Library.Word"
begin

text \<open>
  What every component of the development shares: the names of the machine integers, the
  result of code that may stop the emulator (the type \<open>res\<close>), the bit fields of the packed
  unions (\<open>include/utils/bitfield.h\<close> and the \<open>PACK(struct {...})\<close> unions of the
  register headers), and the collections of rewrite rules the component proofs use.

  A bit field occupies bits \<open>lo .. lo + w - 1\<close> of the raw word: \<open>bf_get lo w\<close> reads it and
  \<open>bf_set lo w v\<close> writes the low \<open>w\<close> bits of \<open>v\<close> into it.
\<close>

unbundle bit_operations_syntax

named_theorems frame_simps \<open>fields that an operation leaves alone\<close>
named_theorems res_simps \<open>unfolding the result monad\<close>

type_synonym u8 = "8 word"
type_synonym u16 = "16 word"
type_synonym u32 = "32 word"
type_synonym u64 = "64 word"

section \<open>Results: code that may stop the emulator\<close>

text \<open>
  \<open>Utils::abort\<close> and \<open>Utils::unimplemented\<close> do not return (\<open>[[noreturn]]\<close>, they end the
  process), \<open>assert_encoding_is_valid\<close> calls \<open>exit(-1)\<close>, and an index outside an array
  trips an \<open>assert\<close> in a debug build and is undefined behaviour otherwise; a division of an
  integer by zero traps, and a shift by the full width of its operand, the conversion of a
  floating-point value out of the range of the integer and an overflow of signed arithmetic have no
  defined result.
\<close>

datatype halt =
    Aborted | Unimplemented | BadEncoding | OutOfBounds | DivisionTrap | UndefinedShift | UndefinedConversion
  | UndefinedOverflow

type_synonym 'a res = "halt + 'a"

definition bindR :: "'a res \<Rightarrow> ('a \<Rightarrow> 'b res) \<Rightarrow> 'b res" where
  "bindR r f = (case r of Inl e \<Rightarrow> Inl e | Inr x \<Rightarrow> f x)"

abbreviation ok :: "'a \<Rightarrow> 'a res" where
  "ok x \<equiv> Inr x"

lemma bindR_Inl [simp]: "bindR (Inl e) f = Inl e"
  and bindR_Inr [simp]: "bindR (Inr x) f = f x"
  by (simp_all add: bindR_def)

lemma bindR_eq_Inr: "bindR r f = Inr y \<longleftrightarrow> (\<exists>x. r = Inr x \<and> f x = Inr y)"
  by (cases r) simp_all

lemma bindR_eq_Inl: "bindR r f = Inl e \<longleftrightarrow> r = Inl e \<or> (\<exists>x. r = Inr x \<and> f x = Inl e)"
  by (cases r) simp_all

lemma bindR_assoc: "bindR (bindR r f) g = bindR r (\<lambda>x. bindR (f x) g)"
  by (cases r) simp_all

lemma bindR_cong [fundef_cong]:
  "r = r' \<Longrightarrow> (\<And>x. r' = Inr x \<Longrightarrow> f x = f' x) \<Longrightarrow> bindR r f = bindR r' f'"
  by (cases r') simp_all

text \<open>\<open>holds_ok P r\<close>: if the code returns, its result satisfies \<open>P\<close>.\<close>

definition holds_ok :: "('a \<Rightarrow> bool) \<Rightarrow> 'a res \<Rightarrow> bool" where
  "holds_ok P r = (case r of Inl e \<Rightarrow> True | Inr x \<Rightarrow> P x)"

lemma holds_ok_simps [simp]:
  "holds_ok P (Inl e)"
  "holds_ok P (Inr x) \<longleftrightarrow> P x"
  by (simp_all add: holds_ok_def)

lemma holds_ok_iff: "holds_ok P r \<longleftrightarrow> (\<forall>x. r = Inr x \<longrightarrow> P x)"
  by (cases r) simp_all

lemma holds_ok_bindR:
  "holds_ok Q r \<Longrightarrow> (\<And>x. Q x \<Longrightarrow> holds_ok P (f x)) \<Longrightarrow> holds_ok P (bindR r f)"
  by (cases r) simp_all

text \<open>
  \<open>for_loop n f s\<close> is \<open>for (i = 0; i < n; i++) s = f(i, s)\<close>, stopping where an iteration does.
\<close>

fun for_loop :: "nat \<Rightarrow> (nat \<Rightarrow> 's \<Rightarrow> 's res) \<Rightarrow> 's \<Rightarrow> 's res" where
  "for_loop 0 f s = ok s"
| "for_loop (Suc n) f s = bindR (for_loop n f s) (f n)"

lemma for_loop_invariant:
  assumes "I 0 s"
    and "\<And>i s. i < n \<Longrightarrow> I i s \<Longrightarrow> \<exists>s'. f i s = Inr s' \<and> I (Suc i) s'"
  shows "\<exists>s'. for_loop n f s = Inr s' \<and> I n s'"
  using assms
proof (induction n)
  case (Suc n)
  then obtain s' where "for_loop n f s = Inr s'" "I n s'" by force
  with Suc.prems(2) [of n s'] show ?case by simp
qed simp

lemma for_loop_total: "(\<And>i s. \<exists>s'. f i s = Inr s') \<Longrightarrow> \<exists>s'. for_loop n f s = Inr s'"
  using for_loop_invariant [of "\<lambda>_ _. True" s n f] by simp

lemma for_loop_cong:
  "(\<And>i s. i < n \<Longrightarrow> f i s = g i s) \<Longrightarrow> for_loop n f s = for_loop n g s"
  by (induction n) (auto intro: bindR_cong)

lemma for_loop_holds:
  assumes "P s" and "\<And>i s. P s \<Longrightarrow> holds_ok P (f i s)"
  shows "holds_ok P (for_loop n f s)"
  using assms by (induction n) (auto intro: holds_ok_bindR)

section \<open>Bit fields of packed unions\<close>

definition bf_get :: "nat \<Rightarrow> nat \<Rightarrow> 'a::len word \<Rightarrow> 'a word" where
  "bf_get lo w x = take_bit w (drop_bit lo x)"

definition bf_set :: "nat \<Rightarrow> nat \<Rightarrow> 'a word \<Rightarrow> 'a::len word \<Rightarrow> 'a word" where
  "bf_set lo w v x = (x AND NOT (push_bit lo (mask w))) OR push_bit lo (take_bit w v)"

definition put_bit :: "nat \<Rightarrow> bool \<Rightarrow> 'a::len word \<Rightarrow> 'a word" where
  "put_bit i b x = (if b then set_bit i x else unset_bit i x)"

lemma bit_bf_get:
  "bit (bf_get lo w (x :: 'a::len word)) n \<longleftrightarrow> n < w \<and> bit x (lo + n)"
  by (auto simp: bf_get_def bit_take_bit_iff bit_drop_bit_eq add.commute dest: bit_imp_le_length)

lemma bit_bf_set:
  "bit (bf_set lo w v (x :: 'a::len word)) n \<longleftrightarrow>
     n < LENGTH('a) \<and> (if lo \<le> n \<and> n < lo + w then bit v (n - lo) else bit x n)"
  by (auto simp: bf_set_def bit_or_iff bit_and_iff bit_not_iff bit_push_bit_iff bit_mask_iff
      bit_take_bit_iff dest: bit_imp_le_length)

lemma bit_put_bit:
  "bit (put_bit i b (x :: 'a::len word)) n \<longleftrightarrow>
     n < LENGTH('a) \<and> (if n = i then b else bit x n)"
  by (auto simp: put_bit_def bit_set_bit_iff bit_unset_bit_iff dest: bit_imp_le_length)

lemma bf_get_set_same [simp]:
  "lo + w \<le> LENGTH('a) \<Longrightarrow> bf_get lo w (bf_set lo w v (x :: 'a::len word)) = take_bit w v"
  by (rule bit_word_eqI) (auto simp: bit_bf_get bit_bf_set bit_take_bit_iff)

lemma bf_get_set_disjoint [simp]:
  "lo + w \<le> lo' \<or> lo' + w' \<le> lo \<Longrightarrow>
   bf_get lo w (bf_set lo' w' v (x :: 'a::len word)) = bf_get lo w x"
  by (rule bit_word_eqI) (auto simp: bit_bf_get bit_bf_set dest: bit_imp_le_length)

lemma bf_get_put_disjoint [simp]:
  "i < lo \<or> lo + w \<le> i \<Longrightarrow> bf_get lo w (put_bit i b (x :: 'a::len word)) = bf_get lo w x"
  by (rule bit_word_eqI) (auto simp: bit_bf_get bit_put_bit dest: bit_imp_le_length)

lemma bit_bf_set_disjoint [simp]:
  "n < lo \<or> lo + w \<le> n \<Longrightarrow> bit (bf_set lo w v (x :: 'a::len word)) n \<longleftrightarrow> bit x n"
  by (auto simp: bit_bf_set dest: bit_imp_le_length)

lemma put_bit_same [simp]: "bit (put_bit i b (x :: 'a::len word)) i \<longleftrightarrow> i < LENGTH('a) \<and> b"
  by (simp add: bit_put_bit)

lemma put_bit_other [simp]: "n \<noteq> i \<Longrightarrow> bit (put_bit i b (x :: 'a::len word)) n \<longleftrightarrow> bit x n"
  by (auto simp: bit_put_bit dest: bit_imp_le_length)

lemma put_bit_put_bit [simp]: "put_bit i b (put_bit i c (x :: 'a::len word)) = put_bit i b x"
  by (rule bit_word_eqI) (auto simp: bit_put_bit)

lemma put_bit_id: "put_bit i (bit x i) (x :: 'a::len word) = x"
  by (rule bit_word_eqI) (auto simp: bit_put_bit)

lemmas bf_eval = bf_get_def bf_set_def put_bit_def mask_eq_exp_minus_1

lemma u32_less: "unat (a :: u32) < 4294967296"
  using unsigned_less [of a] by simp

lemma u64_less: "unat (a :: u64) < 18446744073709551616"
  using unsigned_less [of a] by simp

lemma unat_up: "unat (ucast (x :: u32) :: u64) = unat x"
  by transfer simp

lemma and_not_mask: "x AND NOT (mask n) = push_bit n (drop_bit n (x :: 'a::len word))"
  by (rule bit_word_eqI)
    (auto simp: bit_and_iff bit_not_iff bit_mask_iff bit_push_bit_iff bit_drop_bit_eq)

lemma unat_and_not_mask: "unat (x AND NOT (mask n) :: 'a::len word) = 2 ^ n * (unat x div 2 ^ n)"
proof -
  have "2 ^ n * (unat x div 2 ^ n) \<le> unat x" by simp
  also have "unat x < 2 ^ LENGTH('a)" by (rule unsigned_less)
  finally have "take_bit LENGTH('a) (2 ^ n * (unat x div 2 ^ n)) = 2 ^ n * (unat x div 2 ^ n)"
    by (simp add: take_bit_eq_mod)
  then show ?thesis
    by (simp only: and_not_mask unsigned_push_bit_eq unsigned_drop_bit_eq)
      (simp add: push_bit_eq_mult drop_bit_eq_div mult.commute take_bit_nat_eq_self)
qed

lemma unat_and_mask: "unat (x AND mask n :: 'a::len word) = unat x mod 2 ^ n"
  by (simp only: unsigned_take_bit_eq flip: take_bit_eq_mask) (simp add: take_bit_eq_mod)

section \<open>Sign extension\<close>

text \<open>C++'s \<open>static_cast<uint64_t>(static_cast<int32_t>(v))\<close> and its relatives.\<close>

definition sext32 :: "u32 \<Rightarrow> u64" where
  "sext32 v = scast v"

definition sext16 :: "u16 \<Rightarrow> u64" where
  "sext16 v = scast v"

definition lo32 :: "u64 \<Rightarrow> u32" where
  "lo32 v = ucast v"

lemma lo32_sext32 [simp]: "lo32 (sext32 v) = v"
  unfolding lo32_def sext32_def
proof (rule bit_word_eqI)
  fix n assume "n < LENGTH(32)"
  then show "bit (ucast (scast v :: u64) :: u32) n = bit v n"
    by (cases "n = 31") (auto simp: bit_ucast_iff bit_signed_iff min_def)
qed

text \<open>Signed comparison reads the top bit.\<close>

lemma sint_neg_iff: "sint (w :: 'a::len word) < 0 \<longleftrightarrow> bit w (LENGTH('a) - 1)"
  by (simp add: sint_uint bit_unsigned_iff)

lemma sless_0_iff: "(w :: 'a::len word) <s 0 \<longleftrightarrow> bit w (LENGTH('a) - 1)"
  by (simp add: word_sless_alt sint_neg_iff)

text \<open>A register value in the canonical form of a 32-bit result: sign-extended.\<close>

definition is_sext32 :: "u64 \<Rightarrow> bool" where
  "is_sext32 v \<longleftrightarrow> sext32 (lo32 v) = v"

lemma is_sext32_sext32 [simp]: "is_sext32 (sext32 v)"
  by (simp add: is_sext32_def)

section \<open>Flipping the low address bits\<close>

lemma xor_double:
  "(2 * m + of_bool b) XOR (2 * k + of_bool c) = 2 * (m XOR k) + of_bool (b \<noteq> c)"
  for m k :: nat
  by (subst xor_rec) simp

lemma xor_quad: "(2 * (2 * m + of_bool a) + of_bool b) XOR (2 * of_bool c + of_bool d)
   = 2 * (2 * m + of_bool (a \<noteq> c)) + (of_bool (b \<noteq> d) :: nat)" for m :: nat
  using xor_double [of m a 0 c] xor_double [of "2 * m + of_bool a" b "of_bool c" d] by simp

lemma nat_flip3:
  fixes q r :: nat
  assumes "r < 4"
  shows "(4 * q + r) XOR 3 = 4 * q + (3 - r)"
proof -
  from assms consider "r = 0" | "r = 1" | "r = 2" | "r = 3" by linarith
  then show ?thesis
    using xor_quad [of q False False True True] xor_quad [of q False True True True]
      xor_quad [of q True False True True] xor_quad [of q True True True True]
    by cases (simp_all add: algebra_simps numeral_eq_Suc)
qed

lemma nat_flip2:
  fixes q r :: nat
  assumes "r < 4"
  shows "(4 * q + r) XOR 2 = 4 * q + (if r < 2 then r + 2 else r - 2)"
proof -
  from assms consider "r = 0" | "r = 1" | "r = 2" | "r = 3" by linarith
  then show ?thesis
    using xor_quad [of q False False True False] xor_quad [of q False True True False]
      xor_quad [of q True False True False] xor_quad [of q True True True False]
    by cases (simp_all add: algebra_simps numeral_eq_Suc)
qed

lemma unat_flip3: "unat ((a::u32) XOR 3) = 4 * (unat a div 4) + (3 - unat a mod 4)"
  using nat_flip3 [of "unat a mod 4" "unat a div 4"] by (simp add: unsigned_xor_eq)

lemma unat_flip2:
  "unat ((a::u32) XOR 2) =
     4 * (unat a div 4) + (if unat a mod 4 < 2 then unat a mod 4 + 2 else unat a mod 4 - 2)"
  using nat_flip2 [of "unat a mod 4" "unat a div 4"] by (simp add: unsigned_xor_eq)

lemma flip3_mod: "(4 * q + (3 - n mod 4)) mod 4 = 3 - n mod (4::nat)"
  by (simp only: mod_mult_self4) simp

lemma unat_flip3_mod: "unat ((a::u32) XOR 3) mod 4 = 3 - unat a mod 4"
  by (simp only: unat_flip3 flip3_mod)

lemma unat_flip3_div [simp]: "unat ((a::u32) XOR 3) div 4 = unat a div 4"
  by (simp add: unat_flip3)

lemma unat_flip2_div [simp]: "unat ((a::u32) XOR 2) div 4 = unat a div 4"
  by (simp add: unat_flip2)

lemma less_mult4_iff: "(x < 4 * k) = (x div 4 < (k::nat))"
  by (simp add: div_less_iff_less_mult mult.commute)

lemma unat_flip3_less:
  assumes "n mod 4 = 0"
  shows "unat ((a::u32) XOR 3) < n \<longleftrightarrow> unat a < n"
proof -
  obtain k where "n = 4 * k" using assms by (auto simp: mod_eq_0_iff_dvd elim: dvdE)
  then show ?thesis by (simp add: less_mult4_iff)
qed

lemma xor_cancel_left: "c XOR (c XOR a) = (a :: 'a::len word)"
  by (simp flip: xor.assoc)

lemma xor_cancel: "(a XOR c = b XOR c) = (a = (b :: 'a::len word))"
  by (metis xor.commute xor_cancel_left)

end
