(* ===== verification/Decode.thy ===== *)
theory Decode
  imports Prelude
begin

text \<open>
  The instruction word (\<open>instruction_t\<close>, \<open>include/cpu/instruction.h\<close>) and \<open>decode\<close>
  (\<open>src/cpu/cached_interp.cpp\<close>), which maps it to a handler. A handler is a function pointer in
  the source; here it is a value naming the function, grouped by the kind of work it does, and
  \<open>Cached_Interp\<close> gives each name its meaning.
\<close>

section \<open>Fields of an instruction\<close>

definition inst_op :: "u32 \<Rightarrow> u32" where
  "inst_op inst = bf_get 26 6 inst"

definition i_imm :: "u32 \<Rightarrow> u16" where
  "i_imm inst = ucast (bf_get 0 16 inst)"

definition i_rt :: "u32 \<Rightarrow> u32" where
  "i_rt inst = bf_get 16 5 inst"

definition i_rs :: "u32 \<Rightarrow> u32" where
  "i_rs inst = bf_get 21 5 inst"

definition j_target :: "u32 \<Rightarrow> u32" where
  "j_target inst = bf_get 0 26 inst"

definition r_funct :: "u32 \<Rightarrow> u32" where
  "r_funct inst = bf_get 0 6 inst"

definition r_sa :: "u32 \<Rightarrow> u32" where
  "r_sa inst = bf_get 6 5 inst"

definition r_rd :: "u32 \<Rightarrow> u32" where
  "r_rd inst = bf_get 11 5 inst"

definition r_rt :: "u32 \<Rightarrow> u32" where
  "r_rt inst = bf_get 16 5 inst"

definition r_rs :: "u32 \<Rightarrow> u32" where
  "r_rs inst = bf_get 21 5 inst"

definition cop_last11 :: "u32 \<Rightarrow> u32" where
  "cop_last11 inst = bf_get 0 11 inst"

definition cop_rd :: "u32 \<Rightarrow> u32" where
  "cop_rd inst = bf_get 11 5 inst"

definition cop_rt :: "u32 \<Rightarrow> u32" where
  "cop_rt inst = bf_get 16 5 inst"

definition cop_sub :: "u32 \<Rightarrow> u32" where
  "cop_sub inst = bf_get 21 5 inst"

definition fi_offset :: "u32 \<Rightarrow> u16" where
  "fi_offset inst = ucast (bf_get 0 16 inst)"

definition fi_base :: "u32 \<Rightarrow> u32" where
  "fi_base inst = bf_get 21 5 inst"

definition fr_funct :: "u32 \<Rightarrow> u32" where
  "fr_funct inst = bf_get 0 6 inst"

lemmas inst_fields = inst_op_def i_imm_def i_rt_def i_rs_def j_target_def r_funct_def r_sa_def
  r_rd_def r_rt_def r_rs_def cop_last11_def cop_rd_def cop_rt_def cop_sub_def fi_offset_def
  fi_base_def fr_funct_def

section \<open>Handlers\<close>

datatype alu_op =
    Op_add | Op_addu | Op_dadd | Op_daddu | Op_sub | Op_subu | Op_dsub | Op_dsubu
  | Op_mult | Op_multu | Op_dmult | Op_dmultu | Op_div | Op_divu | Op_ddiv | Op_ddivu
  | Op_sll | Op_srl | Op_sra | Op_srav | Op_sllv | Op_srlv | Op_slt | Op_sltu | Op_slti | Op_sltiu
  | Op_and | Op_or | Op_xor | Op_nor | Op_mfhi | Op_mflo | Op_mthi | Op_mtlo
  | Op_dsll | Op_dsrl | Op_dsra | Op_dsll32 | Op_dsrl32 | Op_dsra32 | Op_sync | Op_lui
  | Op_addi | Op_addiu | Op_daddi | Op_daddiu | Op_andi | Op_ori | Op_xori | Op_cache

datatype branch_op =
    Op_jr | Op_jalr | Op_j | Op_jal | Op_bltz | Op_bltzl | Op_bgez | Op_bgezl | Op_bltzal | Op_bgezal
  | Op_beq | Op_beql | Op_bne | Op_bnel | Op_blez | Op_blezl | Op_bgtz | Op_bgtzl

datatype trap_op =
    Op_syscall | Op_break | Op_tge | Op_tgeu | Op_tlt | Op_tltu | Op_teq | Op_tne | Op_eret

datatype mem_op =
    Op_lb | Op_lbu | Op_lh | Op_lhu | Op_lw | Op_lwu | Op_lwl | Op_lwr | Op_ld | Op_ldl | Op_ldr
  | Op_ll | Op_lld | Op_sb | Op_sh | Op_swl | Op_sw | Op_swr | Op_sd | Op_sdl | Op_sdr | Op_sc | Op_scd

datatype cop0_op =
    Op_mfc0 | Op_mtc0 | Op_dmfc0 | Op_dmtc0 | Op_tlbwi | Op_tlbwr | Op_tlbp | Op_tlbr

datatype fpu_op =
    Op_lwc1 | Op_ldc1 | Op_swc1 | Op_sdc1 | Op_mfc1 | Op_dmfc1 | Op_cfc1 | Op_mtc1 | Op_dmtc1
  | Op_ctc1 | Op_bc1 | Op_cop1_arith

datatype handler =
    Alu alu_op | Branch branch_op | Trap trap_op | Mem mem_op | Cop0 cop0_op | Fpu fpu_op

section \<open>Decoding\<close>

text \<open>A \<open>switch\<close> whose cases return a handler and whose default aborts is a table.\<close>

definition switch_on :: "(u32 \<times> handler) list \<Rightarrow> u32 \<Rightarrow> handler res" where
  "switch_on cases k = (case map_of cases k of None \<Rightarrow> Inl Aborted | Some h \<Rightarrow> Inr h)"

definition special_cases :: "(u32 \<times> handler) list" where
  "special_cases =
    [(0b100000, Alu Op_add), (0b100001, Alu Op_addu), (0b101100, Alu Op_dadd),
     (0b101101, Alu Op_daddu), (0b100010, Alu Op_sub), (0b100011, Alu Op_subu),
     (0b101110, Alu Op_dsub), (0b101111, Alu Op_dsubu), (0b011000, Alu Op_mult),
     (0b011001, Alu Op_multu), (0b011100, Alu Op_dmult), (0b011101, Alu Op_dmultu),
     (0b011010, Alu Op_div), (0b011011, Alu Op_divu), (0b011110, Alu Op_ddiv),
     (0b011111, Alu Op_ddivu), (0b000000, Alu Op_sll), (0b000010, Alu Op_srl),
     (0b000011, Alu Op_sra), (0b000111, Alu Op_srav), (0b000100, Alu Op_sllv),
     (0b000110, Alu Op_srlv), (0b101010, Alu Op_slt), (0b101011, Alu Op_sltu),
     (0b100100, Alu Op_and), (0b100101, Alu Op_or), (0b100110, Alu Op_xor),
     (0b100111, Alu Op_nor), (0b001000, Branch Op_jr), (0b001001, Branch Op_jalr),
     (0b001100, Trap Op_syscall), (0b001101, Trap Op_break), (0b010000, Alu Op_mfhi),
     (0b010010, Alu Op_mflo), (0b010001, Alu Op_mthi), (0b010011, Alu Op_mtlo),
     (0b110000, Trap Op_tge), (0b110001, Trap Op_tgeu), (0b110010, Trap Op_tlt),
     (0b110011, Trap Op_tltu), (0b110100, Trap Op_teq), (0b110110, Trap Op_tne),
     (0b111000, Alu Op_dsll), (0b111010, Alu Op_dsrl), (0b111011, Alu Op_dsra),
     (0b111100, Alu Op_dsll32), (0b111110, Alu Op_dsrl32), (0b111111, Alu Op_dsra32),
     (0b001111, Alu Op_sync)]"

definition regimm_cases :: "(u32 \<times> handler) list" where
  "regimm_cases =
    [(0b00000, Branch Op_bltz), (0b00010, Branch Op_bltzl), (0b00001, Branch Op_bgez),
     (0b00011, Branch Op_bgezl), (0b10000, Branch Op_bltzal), (0b10001, Branch Op_bgezal)]"

definition cp0_sub_cases :: "(u32 \<times> handler) list" where
  "cp0_sub_cases =
    [(0b00000, Cop0 Op_mfc0), (0b00100, Cop0 Op_mtc0), (0b00001, Cop0 Op_dmfc0),
     (0b00101, Cop0 Op_dmtc0)]"

definition cp0_funct_cases :: "(u32 \<times> handler) list" where
  "cp0_funct_cases =
    [(0b000010, Cop0 Op_tlbwi), (0b000110, Cop0 Op_tlbwr), (0b001000, Cop0 Op_tlbp),
     (0b000001, Cop0 Op_tlbr), (0b011000, Trap Op_eret)]"

definition cp1_cases :: "(u32 \<times> handler) list" where
  "cp1_cases =
    [(0b00000, Fpu Op_mfc1), (0b00001, Fpu Op_dmfc1), (0b00010, Fpu Op_cfc1),
     (0b00100, Fpu Op_mtc1), (0b00101, Fpu Op_dmtc1), (0b00110, Fpu Op_ctc1),
     (0b01000, Fpu Op_bc1), (0b10000, Fpu Op_cop1_arith), (0b10001, Fpu Op_cop1_arith),
     (0b10100, Fpu Op_cop1_arith), (0b10101, Fpu Op_cop1_arith)]"

definition opcode_cases :: "(u32 \<times> handler) list" where
  "opcode_cases =
    [(0b000010, Branch Op_j), (0b000011, Branch Op_jal), (0b100000, Mem Op_lb),
     (0b100100, Mem Op_lbu), (0b100001, Mem Op_lh), (0b100101, Mem Op_lhu),
     (0b100011, Mem Op_lw), (0b100111, Mem Op_lwu), (0b100010, Mem Op_lwl),
     (0b100110, Mem Op_lwr), (0b001111, Alu Op_lui), (0b110111, Mem Op_ld),
     (0b011010, Mem Op_ldl), (0b011011, Mem Op_ldr), (0b110000, Mem Op_ll),
     (0b110100, Mem Op_lld), (0b101000, Mem Op_sb), (0b101001, Mem Op_sh),
     (0b101010, Mem Op_swl), (0b101011, Mem Op_sw), (0b101110, Mem Op_swr),
     (0b111111, Mem Op_sd), (0b101100, Mem Op_sdl), (0b101101, Mem Op_sdr),
     (0b111000, Mem Op_sc), (0b111100, Mem Op_scd), (0b001000, Alu Op_addi),
     (0b001001, Alu Op_addiu), (0b011000, Alu Op_daddi), (0b011001, Alu Op_daddiu),
     (0b001100, Alu Op_andi), (0b001101, Alu Op_ori), (0b001110, Alu Op_xori),
     (0b000100, Branch Op_beq), (0b010100, Branch Op_beql), (0b000101, Branch Op_bne),
     (0b010101, Branch Op_bnel), (0b000110, Branch Op_blez), (0b010110, Branch Op_blezl),
     (0b000111, Branch Op_bgtz), (0b010111, Branch Op_bgtzl), (0b101111, Alu Op_cache),
     (0b001010, Alu Op_slti), (0b001011, Alu Op_sltiu), (0b110001, Fpu Op_lwc1),
     (0b110101, Fpu Op_ldc1), (0b111001, Fpu Op_swc1), (0b111101, Fpu Op_sdc1)]"

abbreviation (input) "OPCODE_SPECIAL \<equiv> 0b000000 :: u32"
abbreviation (input) "OPCODE_REGIMM \<equiv> 0b000001 :: u32"
abbreviation (input) "OPCODE_CP0 \<equiv> 0b010000 :: u32"
abbreviation (input) "OPCODE_CP1 \<equiv> 0b010001 :: u32"

definition decode :: "u32 \<Rightarrow> handler res" where
  "decode inst =
     (let op = inst_op inst
      in if op = OPCODE_SPECIAL then switch_on special_cases (r_funct inst)
         else if op = OPCODE_REGIMM then switch_on regimm_cases (i_rt inst)
         else if op = OPCODE_CP0 then
           (if cop_last11 inst = 0 then switch_on cp0_sub_cases (cop_sub inst)
            else switch_on cp0_funct_cases (fr_funct inst))
         else if op = OPCODE_CP1 then switch_on cp1_cases (r_rs inst)
         else switch_on opcode_cases op)"

lemmas decode_tables = special_cases_def regimm_cases_def cp0_sub_cases_def cp0_funct_cases_def
  cp1_cases_def opcode_cases_def

text \<open>No case of a \<open>switch\<close> shadows another, and no top-level case is one of the escapes.\<close>

lemma decode_cases_distinct:
  "distinct (map fst special_cases)" "distinct (map fst regimm_cases)"
  "distinct (map fst cp0_sub_cases)" "distinct (map fst cp0_funct_cases)"
  "distinct (map fst cp1_cases)" "distinct (map fst opcode_cases)"
  by (simp_all add: decode_tables)

lemma switch_on_iff:
  "distinct (map fst t) \<Longrightarrow> switch_on t k = Inr h \<longleftrightarrow> (k, h) \<in> set t"
  by (drule map_of_eq_Some_iff [of t k h]) (auto simp del: map_of_eq_Some_iff simp: switch_on_def split: option.split)

section \<open>The encodings of the architecture\<close>

text \<open>
  The instruction encodings of the VR4300 manual, written down independently of the tables of
  the decoder: for every handler the fixed bits of its encoding and the mask of its operand
  fields.
\<close>

definition enc_special :: "u32 \<Rightarrow> u32 \<times> u32" where
  "enc_special f = (f, 0x03FFFFC0)"

definition enc_regimm :: "u32 \<Rightarrow> u32 \<times> u32" where
  "enc_regimm rt = (0x04000000 OR push_bit 16 rt, 0x03E0FFFF)"

definition enc_op :: "u32 \<Rightarrow> u32 \<times> u32" where
  "enc_op c = (push_bit 26 c, 0x03FFFFFF)"

definition enc_cp0_sub :: "u32 \<Rightarrow> u32 \<times> u32" where
  "enc_cp0_sub c = (0x40000000 OR push_bit 21 c, 0x001FF800)"

definition enc_cp0_funct :: "u32 \<Rightarrow> u32 \<times> u32" where
  "enc_cp0_funct f = (0x42000000 OR f, 0x01FFFFC0)"

definition enc_cp1 :: "u32 \<Rightarrow> u32 \<times> u32" where
  "enc_cp1 c = (0x44000000 OR push_bit 21 c, 0x001FFFFF)"

fun encoding :: "handler \<Rightarrow> u32 \<times> u32" where
  "encoding (Alu Op_add) = enc_special 0x20"
| "encoding (Alu Op_addu) = enc_special 0x21"
| "encoding (Alu Op_sub) = enc_special 0x22"
| "encoding (Alu Op_subu) = enc_special 0x23"
| "encoding (Alu Op_dadd) = enc_special 0x2C"
| "encoding (Alu Op_daddu) = enc_special 0x2D"
| "encoding (Alu Op_dsub) = enc_special 0x2E"
| "encoding (Alu Op_dsubu) = enc_special 0x2F"
| "encoding (Alu Op_mult) = enc_special 0x18"
| "encoding (Alu Op_multu) = enc_special 0x19"
| "encoding (Alu Op_div) = enc_special 0x1A"
| "encoding (Alu Op_divu) = enc_special 0x1B"
| "encoding (Alu Op_dmult) = enc_special 0x1C"
| "encoding (Alu Op_dmultu) = enc_special 0x1D"
| "encoding (Alu Op_ddiv) = enc_special 0x1E"
| "encoding (Alu Op_ddivu) = enc_special 0x1F"
| "encoding (Alu Op_sll) = enc_special 0x00"
| "encoding (Alu Op_srl) = enc_special 0x02"
| "encoding (Alu Op_sra) = enc_special 0x03"
| "encoding (Alu Op_sllv) = enc_special 0x04"
| "encoding (Alu Op_srlv) = enc_special 0x06"
| "encoding (Alu Op_srav) = enc_special 0x07"
| "encoding (Alu Op_slt) = enc_special 0x2A"
| "encoding (Alu Op_sltu) = enc_special 0x2B"
| "encoding (Alu Op_and) = enc_special 0x24"
| "encoding (Alu Op_or) = enc_special 0x25"
| "encoding (Alu Op_xor) = enc_special 0x26"
| "encoding (Alu Op_nor) = enc_special 0x27"
| "encoding (Alu Op_mfhi) = enc_special 0x10"
| "encoding (Alu Op_mthi) = enc_special 0x11"
| "encoding (Alu Op_mflo) = enc_special 0x12"
| "encoding (Alu Op_mtlo) = enc_special 0x13"
| "encoding (Alu Op_dsll) = enc_special 0x38"
| "encoding (Alu Op_dsrl) = enc_special 0x3A"
| "encoding (Alu Op_dsra) = enc_special 0x3B"
| "encoding (Alu Op_dsll32) = enc_special 0x3C"
| "encoding (Alu Op_dsrl32) = enc_special 0x3E"
| "encoding (Alu Op_dsra32) = enc_special 0x3F"
| "encoding (Alu Op_sync) = enc_special 0x0F"
| "encoding (Alu Op_addi) = enc_op 0x08"
| "encoding (Alu Op_addiu) = enc_op 0x09"
| "encoding (Alu Op_slti) = enc_op 0x0A"
| "encoding (Alu Op_sltiu) = enc_op 0x0B"
| "encoding (Alu Op_andi) = enc_op 0x0C"
| "encoding (Alu Op_ori) = enc_op 0x0D"
| "encoding (Alu Op_xori) = enc_op 0x0E"
| "encoding (Alu Op_lui) = enc_op 0x0F"
| "encoding (Alu Op_daddi) = enc_op 0x18"
| "encoding (Alu Op_daddiu) = enc_op 0x19"
| "encoding (Alu Op_cache) = enc_op 0x2F"
| "encoding (Branch Op_jr) = enc_special 0x08"
| "encoding (Branch Op_jalr) = enc_special 0x09"
| "encoding (Branch Op_bltz) = enc_regimm 0x00"
| "encoding (Branch Op_bgez) = enc_regimm 0x01"
| "encoding (Branch Op_bltzl) = enc_regimm 0x02"
| "encoding (Branch Op_bgezl) = enc_regimm 0x03"
| "encoding (Branch Op_bltzal) = enc_regimm 0x10"
| "encoding (Branch Op_bgezal) = enc_regimm 0x11"
| "encoding (Branch Op_j) = enc_op 0x02"
| "encoding (Branch Op_jal) = enc_op 0x03"
| "encoding (Branch Op_beq) = enc_op 0x04"
| "encoding (Branch Op_bne) = enc_op 0x05"
| "encoding (Branch Op_blez) = enc_op 0x06"
| "encoding (Branch Op_bgtz) = enc_op 0x07"
| "encoding (Branch Op_beql) = enc_op 0x14"
| "encoding (Branch Op_bnel) = enc_op 0x15"
| "encoding (Branch Op_blezl) = enc_op 0x16"
| "encoding (Branch Op_bgtzl) = enc_op 0x17"
| "encoding (Trap Op_syscall) = enc_special 0x0C"
| "encoding (Trap Op_break) = enc_special 0x0D"
| "encoding (Trap Op_tge) = enc_special 0x30"
| "encoding (Trap Op_tgeu) = enc_special 0x31"
| "encoding (Trap Op_tlt) = enc_special 0x32"
| "encoding (Trap Op_tltu) = enc_special 0x33"
| "encoding (Trap Op_teq) = enc_special 0x34"
| "encoding (Trap Op_tne) = enc_special 0x36"
| "encoding (Trap Op_eret) = enc_cp0_funct 0x18"
| "encoding (Mem Op_lb) = enc_op 0x20"
| "encoding (Mem Op_lh) = enc_op 0x21"
| "encoding (Mem Op_lwl) = enc_op 0x22"
| "encoding (Mem Op_lw) = enc_op 0x23"
| "encoding (Mem Op_lbu) = enc_op 0x24"
| "encoding (Mem Op_lhu) = enc_op 0x25"
| "encoding (Mem Op_lwr) = enc_op 0x26"
| "encoding (Mem Op_lwu) = enc_op 0x27"
| "encoding (Mem Op_sb) = enc_op 0x28"
| "encoding (Mem Op_sh) = enc_op 0x29"
| "encoding (Mem Op_swl) = enc_op 0x2A"
| "encoding (Mem Op_sw) = enc_op 0x2B"
| "encoding (Mem Op_sdl) = enc_op 0x2C"
| "encoding (Mem Op_sdr) = enc_op 0x2D"
| "encoding (Mem Op_swr) = enc_op 0x2E"
| "encoding (Mem Op_ldl) = enc_op 0x1A"
| "encoding (Mem Op_ldr) = enc_op 0x1B"
| "encoding (Mem Op_ll) = enc_op 0x30"
| "encoding (Mem Op_lld) = enc_op 0x34"
| "encoding (Mem Op_ld) = enc_op 0x37"
| "encoding (Mem Op_sc) = enc_op 0x38"
| "encoding (Mem Op_scd) = enc_op 0x3C"
| "encoding (Mem Op_sd) = enc_op 0x3F"
| "encoding (Cop0 Op_mfc0) = enc_cp0_sub 0x00"
| "encoding (Cop0 Op_dmfc0) = enc_cp0_sub 0x01"
| "encoding (Cop0 Op_mtc0) = enc_cp0_sub 0x04"
| "encoding (Cop0 Op_dmtc0) = enc_cp0_sub 0x05"
| "encoding (Cop0 Op_tlbr) = enc_cp0_funct 0x01"
| "encoding (Cop0 Op_tlbwi) = enc_cp0_funct 0x02"
| "encoding (Cop0 Op_tlbwr) = enc_cp0_funct 0x06"
| "encoding (Cop0 Op_tlbp) = enc_cp0_funct 0x08"
| "encoding (Fpu Op_lwc1) = enc_op 0x31"
| "encoding (Fpu Op_ldc1) = enc_op 0x35"
| "encoding (Fpu Op_swc1) = enc_op 0x39"
| "encoding (Fpu Op_sdc1) = enc_op 0x3D"
| "encoding (Fpu Op_mfc1) = enc_cp1 0x00"
| "encoding (Fpu Op_dmfc1) = enc_cp1 0x01"
| "encoding (Fpu Op_cfc1) = enc_cp1 0x02"
| "encoding (Fpu Op_mtc1) = enc_cp1 0x04"
| "encoding (Fpu Op_dmtc1) = enc_cp1 0x05"
| "encoding (Fpu Op_ctc1) = enc_cp1 0x06"
| "encoding (Fpu Op_bc1) = enc_cp1 0x08"
| "encoding (Fpu Op_cop1_arith) = enc_cp1 0x10"

lemma bf_get_or: "bf_get lo n (a OR b) = bf_get lo n a OR bf_get lo n (b :: 'a::len word)"
  and bf_get_and: "bf_get lo n (a AND b) = bf_get lo n a AND bf_get lo n (b :: 'a::len word)"
  by (rule bit_word_eqI; auto simp: bit_bf_get bit_or_iff bit_and_iff)+

lemma bf_get_merge:
  "bf_get lo n m = 0 \<Longrightarrow> bf_get lo n ((w AND m) OR c) = bf_get lo n (c :: u32)"
  by (simp add: bf_get_or bf_get_and)

lemmas enc_defs = enc_special_def enc_regimm_def enc_op_def enc_cp0_sub_def enc_cp0_funct_def
  enc_cp1_def


abbreviation (input) "enc_word e w \<equiv> (w AND snd e) OR fst (e :: u32 \<times> u32)"

lemma bf_get_take: "k \<le> lo \<Longrightarrow> bf_get lo n (take_bit k (x :: u32)) = 0"
  and bf_get_push_above: "lo + n \<le> j \<Longrightarrow> bf_get lo n (push_bit j (x :: u32)) = 0"
  and bf_get_push_below: "j + k \<le> lo \<Longrightarrow> bf_get lo n (push_bit j (take_bit k (x :: u32))) = 0"
  and bf_get_push: "lo + n \<le> 32 \<Longrightarrow> bf_get lo n (push_bit lo (x :: u32)) = take_bit n x"
  and bf_get_low: "bf_get 0 n (x :: u32) = take_bit n x"
  by (rule bit_word_eqI; auto simp: bit_bf_get bit_take_bit_iff bit_push_bit_iff dest: bit_imp_le_length)+

lemmas enc_field = bf_get_or bf_get_and bf_get_take bf_get_push_above bf_get_push_below bf_get_push

lemma decode_enc_special:
  assumes "take_bit 6 f = f"
  shows "decode (enc_word (enc_special f) w) = switch_on special_cases f"
proof -
  have "inst_op (enc_word (enc_special f) w) = 0"
    using bf_get_take [of 6 26 6 f] assms by (simp add: inst_fields enc_defs bf_get_or bf_get_and bf_eval)
  moreover have "r_funct (enc_word (enc_special f) w) = f"
    using assms by (simp add: inst_fields enc_defs bf_get_or bf_get_and bf_get_low)
  ultimately show ?thesis by (simp add: decode_def)
qed

lemma decode_enc_regimm:
  assumes "take_bit 5 c = c"
  shows "decode (enc_word (enc_regimm c) w) = switch_on regimm_cases c"
proof -
  have "inst_op (enc_word (enc_regimm c) w) = 1"
    using bf_get_push_below [of 16 5 26 6 c] assms by (simp add: inst_fields enc_defs bf_get_or bf_get_and) (simp add: bf_eval)
  moreover have "i_rt (enc_word (enc_regimm c) w) = c"
    using assms by (simp add: inst_fields enc_defs bf_get_or bf_get_and bf_get_push) (simp add: bf_eval)
  ultimately show ?thesis by (simp add: decode_def)
qed

lemma decode_enc_op:
  assumes "take_bit 6 c = c" and "c \<notin> {0, 1, 16, 17}"
  shows "decode (enc_word (enc_op c) w) = switch_on opcode_cases c"
proof -
  have "inst_op (enc_word (enc_op c) w) = c"
    using assms(1) by (simp add: inst_fields enc_defs bf_get_or bf_get_and bf_get_push) (simp add: bf_eval)
  then show ?thesis using assms(2) by (simp add: decode_def)
qed

lemma decode_enc_cp0_sub:
  assumes "take_bit 5 c = c"
  shows "decode (enc_word (enc_cp0_sub c) w) = switch_on cp0_sub_cases c"
proof -
  have "inst_op (enc_word (enc_cp0_sub c) w) = 16"
    using bf_get_push_below [of 21 5 26 6 c] assms by (simp add: inst_fields enc_defs bf_get_or bf_get_and) (simp add: bf_eval)
  moreover have "cop_last11 (enc_word (enc_cp0_sub c) w) = 0"
    by (simp add: inst_fields enc_defs bf_get_or bf_get_and bf_get_push_above) (simp add: bf_eval)
  moreover have "cop_sub (enc_word (enc_cp0_sub c) w) = c"
    using assms by (simp add: inst_fields enc_defs bf_get_or bf_get_and bf_get_push) (simp add: bf_eval)
  ultimately show ?thesis by (simp add: decode_def)
qed

lemma decode_enc_cp0_funct:
  assumes "take_bit 6 c = c" and "c \<noteq> 0"
  shows "decode (enc_word (enc_cp0_funct c) w) = switch_on cp0_funct_cases c"
proof -
  have "inst_op (enc_word (enc_cp0_funct c) w) = 16"
    using bf_get_take [of 6 26 6 c] assms(1) by (simp add: inst_fields enc_defs bf_get_or bf_get_and) (simp add: bf_eval)
  moreover have funct: "fr_funct (enc_word (enc_cp0_funct c) w) = c"
    using assms(1) by (simp add: inst_fields enc_defs bf_get_or bf_get_and bf_get_low)
  moreover have "fr_funct x = take_bit 6 (cop_last11 x)" for x
    by (rule bit_word_eqI) (auto simp: inst_fields bit_bf_get bit_take_bit_iff)
  then have "cop_last11 (enc_word (enc_cp0_funct c) w) \<noteq> 0"
    using funct assms(2) by (metis take_bit_of_0)
  ultimately show ?thesis by (simp add: decode_def)
qed

lemma decode_enc_cp1:
  assumes "take_bit 5 c = c"
  shows "decode (enc_word (enc_cp1 c) w) = switch_on cp1_cases c"
proof -
  have "inst_op (enc_word (enc_cp1 c) w) = 17"
    using bf_get_push_below [of 21 5 26 6 c] assms by (simp add: inst_fields enc_defs bf_get_or bf_get_and) (simp add: bf_eval)
  moreover have "r_rs (enc_word (enc_cp1 c) w) = c"
    using assms by (simp add: inst_fields enc_defs bf_get_or bf_get_and bf_get_push) (simp add: bf_eval)
  ultimately show ?thesis by (simp add: decode_def)
qed

lemmas decode_enc = decode_enc_special decode_enc_regimm decode_enc_op decode_enc_cp0_sub
  decode_enc_cp0_funct decode_enc_cp1

text \<open>The arithmetic of the FPU has one encoding for every format: S, D, W and L.\<close>

definition encodings :: "handler \<Rightarrow> (u32 \<times> u32) list" where
  "encodings h =
     (if h = Fpu Op_cop1_arith then [enc_cp1 0x10, enc_cp1 0x11, enc_cp1 0x14, enc_cp1 0x15]
      else [encoding h])"

text \<open>The variable 64-bit shifts, the traps on immediates and the likely branches that link are
  instructions of the VR4300 the decoder has no case for.\<close>

lemma decode_missing:
  "list_all (\<lambda>c. decode (enc_word (enc_special c) w) = Inl Aborted) [0x14, 0x16, 0x17]"
  "list_all (\<lambda>c. decode (enc_word (enc_regimm c) w) = Inl Aborted)
     [0x08, 0x09, 0x0A, 0x0B, 0x0C, 0x0E, 0x12, 0x13]"
  by (simp_all add: decode_enc, simp_all add: switch_on_def decode_tables)

text \<open>C18: whatever its operand fields hold, every encoding of every handler (the arithmetic of the
  FPU has one for each of its four formats, every other handler has one) is decoded to that handler.\<close>

theorem decode_encoding:
  "list_all (\<lambda>e. decode ((w AND snd e) OR fst e) = Inr h) (encodings h)"
proof (cases h)
  case (Alu x)
  then show ?thesis
    by (cases x) (simp_all add: encodings_def decode_enc, simp_all add: switch_on_def decode_tables)
next
  case (Branch x)
  then show ?thesis
    by (cases x) (simp_all add: encodings_def decode_enc, simp_all add: switch_on_def decode_tables)
next
  case (Trap x)
  then show ?thesis
    by (cases x) (simp_all add: encodings_def decode_enc, simp_all add: switch_on_def decode_tables)
next
  case (Mem x)
  then show ?thesis
    by (cases x) (simp_all add: encodings_def decode_enc, simp_all add: switch_on_def decode_tables)
next
  case (Cop0 x)
  then show ?thesis
    by (cases x) (simp_all add: encodings_def decode_enc, simp_all add: switch_on_def decode_tables)
next
  case (Fpu x)
  then show ?thesis
    by (cases x) (simp_all add: encodings_def decode_enc, simp_all add: switch_on_def decode_tables)
qed

end
