(* ===== verification/Interrupts.thy ===== *)
theory Interrupts
  imports Prelude
begin

text \<open>
  The COP0 register file as data (\<open>include/cpu/cop0.h\<close>), the MIPS interface
  (\<open>src/mmio/mi.cpp\<close>) and \<open>check_interrupt\<close> (\<open>src/n64_system/interrupt.cpp\<close>), which drives bit
  IP2 of the Cause register from the pending and the enabled interrupts of the MI.

  The globals of the program (\<open>g_cpu()\<close>, \<open>g_mi()\<close>, \<open>g_scheduler()\<close>, ...) are the fields of one
  record that each theory extends by its own component, so an operation is typed by the part
  of the machine it can reach.
\<close>

section \<open>COP0 registers\<close>

record cop0_regs =
  c0_index :: u32
  c0_random :: u32
  c0_entry_lo0 :: u32
  c0_entry_lo1 :: u32
  c0_context :: u64
  c0_page_mask :: u32
  c0_wired :: u32
  c0_bad_vaddr :: u64
  c0_count :: u64
  c0_entry_hi :: u64
  c0_compare :: u32
  c0_status :: u32
  c0_cause :: u32
  c0_epc :: u64
  c0_prid :: u32
  c0_config :: u32
  c0_lladdr :: u32
  c0_watch_lo :: u32
  c0_watch_hi :: u32
  c0_xcontext :: u64
  c0_parity_error :: u32
  c0_cache_error :: u32
  c0_tag_lo :: u32
  c0_tag_hi :: u32
  c0_error_epc :: u64
  llbit :: bool

text \<open>Bit positions of \<open>cop0_status_t\<close> and \<open>cop0_cause_t\<close>.\<close>

abbreviation (input) "ST_IE \<equiv> 0 :: nat"
abbreviation (input) "ST_EXL \<equiv> 1 :: nat"
abbreviation (input) "ST_ERL \<equiv> 2 :: nat"
abbreviation (input) "ST_UX \<equiv> 5 :: nat"
abbreviation (input) "ST_SX \<equiv> 6 :: nat"
abbreviation (input) "ST_KX \<equiv> 7 :: nat"
abbreviation (input) "ST_BEV \<equiv> 22 :: nat"
abbreviation (input) "ST_FR \<equiv> 26 :: nat"
abbreviation (input) "ST_CU0 \<equiv> 28 :: nat"
abbreviation (input) "ST_CU1 \<equiv> 29 :: nat"
abbreviation (input) "CA_IP0 \<equiv> 8 :: nat"
abbreviation (input) "CA_IP1 \<equiv> 9 :: nat"
abbreviation (input) "CA_IP2 \<equiv> 10 :: nat"
abbreviation (input) "CA_IP7 \<equiv> 15 :: nat"
abbreviation (input) "CA_BD \<equiv> 31 :: nat"

section \<open>MIPS interface registers\<close>

record mi_regs =
  mi_mode :: u32
  mi_intr :: u32
  mi_intr_mask :: u32

abbreviation (input) "INTR_SP \<equiv> 0 :: nat"
abbreviation (input) "INTR_SI \<equiv> 1 :: nat"
abbreviation (input) "INTR_AI \<equiv> 2 :: nat"
abbreviation (input) "INTR_VI \<equiv> 3 :: nat"
abbreviation (input) "INTR_PI \<equiv> 4 :: nat"
abbreviation (input) "INTR_DP \<equiv> 5 :: nat"

record irq_state =
  cop0 :: cop0_regs
  mi :: mi_regs

definition set_cause :: "u32 \<Rightarrow> 'a irq_state_scheme \<Rightarrow> 'a irq_state_scheme" where
  "set_cause v s = s\<lparr>cop0 := (cop0 s)\<lparr>c0_cause := v\<rparr>\<rparr>"

definition set_mi_intr :: "nat \<Rightarrow> bool \<Rightarrow> 'a irq_state_scheme \<Rightarrow> 'a irq_state_scheme" where
  "set_mi_intr i b s = s\<lparr>mi := (mi s)\<lparr>mi_intr := put_bit i b (mi_intr (mi s))\<rparr>\<rparr>"

section \<open>\<open>check_interrupt\<close>\<close>

definition check_interrupt :: "'a irq_state_scheme \<Rightarrow> 'a irq_state_scheme" where
  "check_interrupt s =
     (if mi_intr (mi s) AND mi_intr_mask (mi s) \<noteq> 0
      then set_cause (put_bit CA_IP2 True (c0_cause (cop0 s))) s
      else set_cause (put_bit CA_IP2 False (c0_cause (cop0 s))) s)"

text \<open>The pattern of every device: change its bit of MI\_INTR, then \<open>check_interrupt\<close>.\<close>

definition raise_intr :: "nat \<Rightarrow> 'a irq_state_scheme \<Rightarrow> 'a irq_state_scheme" where
  "raise_intr i s = check_interrupt (set_mi_intr i True s)"

definition lower_intr :: "nat \<Rightarrow> 'a irq_state_scheme \<Rightarrow> 'a irq_state_scheme" where
  "lower_intr i s = check_interrupt (set_mi_intr i False s)"

section \<open>MI register access\<close>

definition mi_read_paddr32 :: "u32 \<Rightarrow> 'a irq_state_scheme \<Rightarrow> u32 res" where
  "mi_read_paddr32 paddr s =
     (if paddr = 0x04300000 then ok (mi_mode (mi s))
      else if paddr = 0x04300004 then ok 0x02020102
      else if paddr = 0x04300008 then ok (mi_intr (mi s))
      else if paddr = 0x0430000c then ok (mi_intr_mask (mi s))
      else Inl Aborted)"

definition set_mi_mode :: "u32 \<Rightarrow> 'a irq_state_scheme \<Rightarrow> 'a irq_state_scheme" where
  "set_mi_mode v s = s\<lparr>mi := (mi s)\<lparr>mi_mode := v\<rparr>\<rparr>"

definition mi_write_mode :: "u32 \<Rightarrow> 'a irq_state_scheme \<Rightarrow> 'a irq_state_scheme" where
  "mi_write_mode v s =
     (let m0 = (mi_mode (mi s) AND NOT 0x7f) OR (v AND 0x7f);
          m1 = (if v AND 0x0080 \<noteq> 0 then m0 AND NOT 0x0080 else m0);
          m2 = (if v AND 0x0100 \<noteq> 0 then m1 OR 0x0080 else m1);
          m3 = (if v AND 0x0200 \<noteq> 0 then m2 AND NOT 0x0100 else m2);
          m4 = (if v AND 0x0400 \<noteq> 0 then m3 OR 0x0100 else m3);
          s1 = set_mi_mode m4 s;
          s2 = (if v AND 0x0800 \<noteq> 0 then lower_intr INTR_DP s1 else s1);
          m5 = (if v AND 0x1000 \<noteq> 0 then m4 AND NOT 0x0200 else m4);
          m6 = (if v AND 0x2000 \<noteq> 0 then m5 OR 0x0200 else m5)
      in set_mi_mode m6 s2)"

text \<open>
  The mask register: for each source a clear bit and then a set bit, twelve conditional
  assignments in the source's order.
\<close>

definition mask_step :: "u32 \<Rightarrow> nat \<Rightarrow> u32 \<Rightarrow> u32" where
  "mask_step v i m =
     (let m1 = (if bit v (2 * i) then put_bit i False m else m)
      in if bit v (2 * i + 1) then put_bit i True m1 else m1)"

definition mi_write_mask :: "u32 \<Rightarrow> 'a irq_state_scheme \<Rightarrow> 'a irq_state_scheme" where
  "mi_write_mask v s =
     (let m = mask_step v INTR_DP (mask_step v INTR_PI (mask_step v INTR_VI
              (mask_step v INTR_AI (mask_step v INTR_SI (mask_step v INTR_SP (mi_intr_mask (mi s)))))))
      in check_interrupt (s\<lparr>mi := (mi s)\<lparr>mi_intr_mask := m\<rparr>\<rparr>))"

definition mi_write_paddr32 :: "u32 \<Rightarrow> u32 \<Rightarrow> 'a irq_state_scheme \<Rightarrow> 'a irq_state_scheme res" where
  "mi_write_paddr32 paddr v s =
     (if paddr = 0x04300004 then ok s
      else if paddr = 0x04300000 then ok (mi_write_mode v s)
      else if paddr = 0x0430000c then ok (mi_write_mask v s)
      else Inl Aborted)"

section \<open>The interrupt line\<close>

text \<open>The invariant of the machine: IP2 is exactly "some enabled MI interrupt is pending".\<close>

definition pending :: "'a irq_state_scheme \<Rightarrow> nat \<Rightarrow> bool" where
  "pending s i \<longleftrightarrow> bit (mi_intr (mi s)) i"

definition enabled :: "'a irq_state_scheme \<Rightarrow> nat \<Rightarrow> bool" where
  "enabled s i \<longleftrightarrow> bit (mi_intr_mask (mi s)) i"

definition irq_line :: "'a irq_state_scheme \<Rightarrow> bool" where
  "irq_line s \<longleftrightarrow> bit (c0_cause (cop0 s)) CA_IP2"

definition irq_line_ok :: "'a irq_state_scheme \<Rightarrow> bool" where
  "irq_line_ok s \<longleftrightarrow> (irq_line s \<longleftrightarrow> (\<exists>i. pending s i \<and> enabled s i))"

lemma masked_nonzero: "(a AND b \<noteq> 0) \<longleftrightarrow> (\<exists>i. bit a i \<and> bit (b :: 'a::len word) i)"
  by (auto simp: bit_eq_iff bit_and_iff dest: bit_imp_le_length)

lemma check_interrupt_simps [simp]:
  "mi (check_interrupt s) = mi s"
  "irq_line (check_interrupt s) \<longleftrightarrow> (\<exists>i. pending s i \<and> enabled s i)"
  "n \<noteq> CA_IP2 \<Longrightarrow> bit (c0_cause (cop0 (check_interrupt s))) n \<longleftrightarrow> bit (c0_cause (cop0 s)) n"
  by (auto simp: check_interrupt_def set_cause_def irq_line_def pending_def enabled_def
      masked_nonzero)

lemma pending_check [simp]: "pending (check_interrupt s) i \<longleftrightarrow> pending s i"
  and enabled_check [simp]: "enabled (check_interrupt s) i \<longleftrightarrow> enabled s i"
  by (simp_all add: pending_def enabled_def)

lemma irq_line_ok_check [simp, intro]: "irq_line_ok (check_interrupt s)"
  by (simp add: irq_line_ok_def)

lemma pending_set [simp]:
  "i < 32 \<Longrightarrow> pending (set_mi_intr i b s) j \<longleftrightarrow> (if j = i then b else pending s j)"
  by (simp add: pending_def set_mi_intr_def)

lemma enabled_set [simp]: "enabled (set_mi_intr i b s) j \<longleftrightarrow> enabled s j"
  by (simp add: enabled_def set_mi_intr_def)

lemma irq_line_ok_raise [simp, intro]: "irq_line_ok (raise_intr i s)"
  and irq_line_ok_lower [simp, intro]: "irq_line_ok (lower_intr i s)"
  by (simp_all add: raise_intr_def lower_intr_def)

text \<open>The operations leave the rest of the machine alone.\<close>

lemma irq_more [frame_simps]:
  "irq_state.more (check_interrupt s) = irq_state.more s"
  "irq_state.more (set_mi_intr i b s) = irq_state.more s"
  "irq_state.more (raise_intr i s) = irq_state.more s"
  "irq_state.more (lower_intr i s) = irq_state.more s"
  by (simp_all add: check_interrupt_def set_cause_def set_mi_intr_def raise_intr_def lower_intr_def)

section \<open>The contract of the interrupt controller\<close>

text \<open>What a device relies on when it raises or acknowledges its interrupt.\<close>

locale irq_controller =
  fixes raise :: "nat \<Rightarrow> 's \<Rightarrow> 's"
    and lower :: "nat \<Rightarrow> 's \<Rightarrow> 's"
    and pend :: "'s \<Rightarrow> nat \<Rightarrow> bool"
    and enab :: "'s \<Rightarrow> nat \<Rightarrow> bool"
    and line :: "'s \<Rightarrow> bool"
  assumes pend_raise: "i < 32 \<Longrightarrow> pend (raise i s) j \<longleftrightarrow> j = i \<or> pend s j"
    and pend_lower: "i < 32 \<Longrightarrow> pend (lower i s) j \<longleftrightarrow> j \<noteq> i \<and> pend s j"
    and enab_raise: "enab (raise i s) j \<longleftrightarrow> enab s j"
    and enab_lower: "enab (lower i s) j \<longleftrightarrow> enab s j"
    and line_raise: "line (raise i s) \<longleftrightarrow> (\<exists>j. pend (raise i s) j \<and> enab (raise i s) j)"
    and line_lower: "line (lower i s) \<longleftrightarrow> (\<exists>j. pend (lower i s) j \<and> enab (lower i s) j)"
begin

lemma raise_asserts: "i < 32 \<Longrightarrow> enab s i \<Longrightarrow> line (raise i s)"
  by (auto simp: line_raise pend_raise enab_raise)

lemma raise_masked:
  "i < 32 \<Longrightarrow> \<not> enab s i \<Longrightarrow> line (raise i s) \<longleftrightarrow> (\<exists>j. pend s j \<and> enab s j)"
  by (auto simp: line_raise pend_raise enab_raise)

lemma lower_keeps_others:
  "i < 32 \<Longrightarrow> line (lower i s) \<longleftrightarrow> (\<exists>j. j \<noteq> i \<and> pend s j \<and> enab s j)"
  by (auto simp: line_lower pend_lower enab_lower)

lemma lower_raise: "i < 32 \<Longrightarrow> line (lower i (raise i s)) \<longleftrightarrow> line (lower i s)"
  by (auto simp: line_lower pend_lower enab_lower pend_raise enab_raise)

end

interpretation mi_ctl: irq_controller raise_intr lower_intr pending enabled irq_line
  by unfold_locales (auto simp: raise_intr_def lower_intr_def)

section \<open>MI writes\<close>

lemma irq_line_ok_set_mode [simp]: "irq_line_ok (set_mi_mode v s) \<longleftrightarrow> irq_line_ok s"
  by (simp add: irq_line_ok_def set_mi_mode_def irq_line_def pending_def enabled_def)

lemma irq_line_ok_mi_write:
  "irq_line_ok s \<Longrightarrow> holds_ok irq_line_ok (mi_write_paddr32 paddr v s)"
  by (simp add: mi_write_paddr32_def mi_write_mode_def mi_write_mask_def Let_def)

lemma bit_mask_step:
  "i < 32 \<Longrightarrow> bit (mask_step v i m) j \<longleftrightarrow>
     (if j = i then bit v (2 * i + 1) \<or> \<not> bit v (2 * i) \<and> bit m i else bit m j)"
  by (auto simp: mask_step_def Let_def)

lemma enabled_mi_write_mask:
  "enabled (mi_write_mask v s) i \<longleftrightarrow>
     (if i \<le> INTR_DP then bit v (2 * i + 1) \<or> \<not> bit v (2 * i) \<and> enabled s i else enabled s i)"
proof -
  have "enabled (mi_write_mask v s) i \<longleftrightarrow>
    bit (mask_step v 5 (mask_step v 4 (mask_step v 3 (mask_step v 2
      (mask_step v 1 (mask_step v 0 (mi_intr_mask (mi s)))))))) i"
    by (simp add: mi_write_mask_def Let_def enabled_def check_interrupt_simps(1))
  moreover have "i \<le> 5 \<longleftrightarrow> i = 0 \<or> i = 1 \<or> i = 2 \<or> i = 3 \<or> i = 4 \<or> i = 5" by linarith
  ultimately show ?thesis by (auto simp: bit_mask_step enabled_def)
qed

lemma pending_mi_write_mask [simp]: "pending (mi_write_mask v s) i \<longleftrightarrow> pending s i"
  by (simp add: mi_write_mask_def Let_def) (simp add: pending_def)

end
