(* ===== verification/Scheduler.thy ===== *)
theory Scheduler
  imports Interrupts "HOL-Library.Multiset"
begin

text \<open>
  The event scheduler (\<open>src/n64_system/scheduler.cpp\<close>): one-shot timers in a priority queue and
  two named events, performed by \<open>tick\<close> once the machine's time reaches them. A
  \<open>std::function<void()>\<close> is defunctionalised: \<open>callback\<close> lists the functions the program
  schedules, and the operations that perform one take their meaning as an argument.
\<close>

section \<open>State\<close>

datatype callback =
    On_ai_dma_complete
  | On_pi_dma_write_completed
  | On_pi_dma_read_completed
  | On_sp_event

record named_event =
  ne_enabled :: bool
  ne_at :: u64
  ne_cb :: "callback option"

text \<open>\<open>NamedEventId\<close>: the array index of \<open>named_\<close>; \<open>Count\<close> is 2.\<close>

abbreviation (input) "NE_Sp \<equiv> 0 :: nat"
abbreviation (input) "NE_SpDma \<equiv> 1 :: nat"
abbreviation (input) "NE_Count \<equiv> 2 :: nat"

type_synonym scheduled_event = "u64 \<times> callback"

record sched_regs =
  sc_queue :: "scheduled_event list"
  sc_named :: "nat \<Rightarrow> named_event"
  sc_time :: u64

record sched_state = irq_state +
  sched :: sched_regs

definition UINT64_MAX :: u64 where
  "UINT64_MAX = - 1"

section \<open>The priority queue\<close>

text \<open>
  \<open>std::priority_queue\<close> with \<open>ScheduledEventEarlier\<close> promises that \<open>top()\<close> is an event with the
  least time; which of several events with the same time comes first is up to the library.
  The model keeps a sorted list in which equal times stay in insertion order. The facts
  the scheduler's lemmas use are those of the locale \<open>timer_queue\<close>, the promise itself.
\<close>

fun q_push :: "scheduled_event \<Rightarrow> scheduled_event list \<Rightarrow> scheduled_event list" where
  "q_push e [] = [e]"
| "q_push e (x # q) = (if fst e < fst x then e # x # q else x # q_push e q)"

definition q_top :: "scheduled_event list \<Rightarrow> scheduled_event" where
  "q_top q = hd q"

definition q_pop :: "scheduled_event list \<Rightarrow> scheduled_event list" where
  "q_pop q = tl q"

definition q_ok :: "scheduled_event list \<Rightarrow> bool" where
  "q_ok q \<longleftrightarrow> sorted (map fst q)"

locale timer_queue =
  fixes empty :: 'q
    and is_empty :: "'q \<Rightarrow> bool"
    and push :: "'t::linorder \<times> 'c \<Rightarrow> 'q \<Rightarrow> 'q"
    and top :: "'q \<Rightarrow> 't \<times> 'c"
    and pop :: "'q \<Rightarrow> 'q"
    and contents :: "'q \<Rightarrow> ('t \<times> 'c) multiset"
    and invar :: "'q \<Rightarrow> bool"
  assumes invar_empty: "invar empty"
    and contents_empty: "contents empty = {#}"
    and is_empty: "is_empty q \<longleftrightarrow> contents q = {#}"
    and invar_push: "invar q \<Longrightarrow> invar (push e q)"
    and contents_push: "contents (push e q) = add_mset e (contents q)"
    and top_in: "invar q \<Longrightarrow> \<not> is_empty q \<Longrightarrow> top q \<in># contents q"
    and top_least: "invar q \<Longrightarrow> e \<in># contents q \<Longrightarrow> fst (top q) \<le> fst e"
    and invar_pop: "invar q \<Longrightarrow> invar (pop q)"
    and contents_pop: "invar q \<Longrightarrow> \<not> is_empty q \<Longrightarrow> contents (pop q) = contents q - {# top q #}"
begin

lemma top_later_iff:
  "invar q \<Longrightarrow> \<not> is_empty q \<Longrightarrow> t < fst (top q) \<longleftrightarrow> (\<forall>e \<in># contents q. t < fst e)"
  using top_in top_least by (metis order_less_le_trans)

lemma contents_top_pop:
  "invar q \<Longrightarrow> \<not> is_empty q \<Longrightarrow> contents q = add_mset (top q) (contents (pop q))"
  by (simp add: contents_pop top_in)

lemma push_not_empty: "\<not> is_empty (push e q)"
  by (simp add: is_empty contents_push)

lemma top_push: "invar q \<Longrightarrow> fst (top (push e q)) \<le> fst e"
  by (simp add: invar_push top_least contents_push)

end

lemma mset_q_push: "mset (q_push e q) = add_mset e (mset q)"
  by (induction q) auto

lemma q_ok_push: "q_ok q \<Longrightarrow> q_ok (q_push e q)"
proof (induction q)
  case (Cons x q)
  have "set (q_push e q) = insert e (set q)" by (metis mset_q_push set_mset_add_mset_insert set_mset_mset)
  with Cons show ?case by (auto simp: q_ok_def)
qed (simp add: q_ok_def)

interpretation tq: timer_queue "[]" "\<lambda>q. q = []" q_push q_top q_pop mset q_ok
proof unfold_locales
  show "q_ok (q_push e q)" if "q_ok q" for e q using that by (rule q_ok_push)
  show "q_top q \<in># mset q" if "q_ok q" "q \<noteq> []" for q using that by (simp add: q_top_def)
  show "fst (q_top q) \<le> fst e" if "q_ok q" "e \<in># mset q" for q e
    using that by (cases q) (auto simp: q_top_def q_ok_def)
  show "q_ok (q_pop q)" if "q_ok q" for q using that by (cases q) (auto simp: q_pop_def q_ok_def)
  show "mset (q_pop q) = mset q - {# q_top q #}" if "q_ok q" "q \<noteq> []" for q
    using that by (cases q) (auto simp: q_pop_def q_top_def)
qed (simp_all add: q_ok_def mset_q_push)

section \<open>Operations\<close>

definition sched_init :: "'a sched_state_scheme \<Rightarrow> 'a sched_state_scheme" where
  "sched_init s = s\<lparr>sched := \<lparr>sc_queue = [],
     sc_named = (\<lambda>_. \<lparr>ne_enabled = False, ne_at = 0, ne_cb = None\<rparr>), sc_time = 0\<rparr>\<rparr>"

definition set_timer :: "u64 \<Rightarrow> callback \<Rightarrow> 'a sched_state_scheme \<Rightarrow> 'a sched_state_scheme" where
  "set_timer cycles cb s = s\<lparr>sched := (sched s)\<lparr>sc_queue :=
     q_push (sc_time (sched s) + cycles, cb) (sc_queue (sched s))\<rparr>\<rparr>"

definition set_named :: "nat \<Rightarrow> named_event \<Rightarrow> 'a sched_state_scheme \<Rightarrow> 'a sched_state_scheme" where
  "set_named i e s = s\<lparr>sched := (sched s)\<lparr>sc_named := (sc_named (sched s))(i := e)\<rparr>\<rparr>"

definition schedule_named ::
  "nat \<Rightarrow> u64 \<Rightarrow> callback \<Rightarrow> 'a sched_state_scheme \<Rightarrow> 'a sched_state_scheme" where
  "schedule_named i cycles cb s =
     set_named i \<lparr>ne_enabled = True, ne_at = sc_time (sched s) + cycles, ne_cb = Some cb\<rparr> s"

definition cancel_named :: "nat \<Rightarrow> 'a sched_state_scheme \<Rightarrow> 'a sched_state_scheme" where
  "cancel_named i s = set_named i \<lparr>ne_enabled = False, ne_at = 0, ne_cb = None\<rparr> s"

text \<open>The loop that looks for the earliest named event, over indices \<open>0 .. n - 1\<close>.\<close>

fun best_named :: "nat \<Rightarrow> (nat \<Rightarrow> named_event) \<Rightarrow> u64 \<times> nat option" where
  "best_named 0 ne = (UINT64_MAX, None)"
| "best_named (Suc n) ne =
     (let (best, bid) = best_named n ne
      in if ne_enabled (ne n) \<and> ne_at (ne n) < best then (ne_at (ne n), Some n) else (best, bid))"

definition dispatch_one_due ::
  "(callback \<Rightarrow> 'a sched_state_scheme \<Rightarrow> 'a sched_state_scheme res) \<Rightarrow>
   'a sched_state_scheme \<Rightarrow> (bool \<times> 'a sched_state_scheme) res" where
  "dispatch_one_due perform s =
     (let sc = sched s;
          (best, best_id) = best_named NE_Count (sc_named sc);
          have_q = (sc_queue sc \<noteq> []);
          q_at = (if have_q then fst (q_top (sc_queue sc)) else UINT64_MAX)
      in if have_q \<and> q_at \<le> best then
           (if q_at > sc_time sc then ok (False, s)
            else bindR (perform (snd (q_top (sc_queue sc)))
                          (s\<lparr>sched := sc\<lparr>sc_queue := q_pop (sc_queue sc)\<rparr>\<rparr>))
                   (\<lambda>s'. ok (True, s')))
         else case best_id of
           None \<Rightarrow> ok (False, s)
         | Some i \<Rightarrow>
             (if best > sc_time sc then ok (False, s)
              else let e = sc_named sc i;
                       s1 = set_named i (e\<lparr>ne_enabled := False, ne_cb := None\<rparr>) s
                   in case ne_cb e of
                        None \<Rightarrow> ok (True, s1)
                      | Some cb \<Rightarrow> bindR (perform cb s1) (\<lambda>s'. ok (True, s'))))"

text \<open>\<open>while (dispatch_one_due()) {}\<close>; \<open>None\<close> is a loop that does not end.\<close>

partial_function (option) run_due ::
  "(callback \<Rightarrow> 'a sched_state_scheme \<Rightarrow> 'a sched_state_scheme res) \<Rightarrow>
   'a sched_state_scheme \<Rightarrow> 'a sched_state_scheme res option" where
  "run_due perform s =
     (case dispatch_one_due perform s of
        Inl e \<Rightarrow> Some (Inl e)
      | Inr (again, s') \<Rightarrow> if again then run_due perform s' else Some (Inr s'))"

definition tick ::
  "(callback \<Rightarrow> 'a sched_state_scheme \<Rightarrow> 'a sched_state_scheme res) \<Rightarrow> u64 \<Rightarrow>
   'a sched_state_scheme \<Rightarrow> 'a sched_state_scheme res option" where
  "tick perform cycles s =
     (let now = sc_time (sched s) + cycles;
          s1 = s\<lparr>sched := (sched s)\<lparr>sc_time := now\<rparr>\<rparr>
      in if now > 0x0000FFFFFFFFFFFF then Some (Inl Unimplemented) else run_due perform s1)"

text \<open>\<open>advance_after_cpu\<close> (\<open>src/n64_system/machine_advance.cpp\<close>).\<close>

definition advance_after_cpu ::
  "(callback \<Rightarrow> 'a sched_state_scheme \<Rightarrow> 'a sched_state_scheme res) \<Rightarrow> int \<Rightarrow>
   'a sched_state_scheme \<Rightarrow> 'a sched_state_scheme res option" where
  "advance_after_cpu perform cpu_cycles s =
     (if cpu_cycles < 0 then Some (Inr s) else tick perform (word_of_int cpu_cycles) s)"

definition remaining :: "u64 \<Rightarrow> u64 \<Rightarrow> u64" where
  "remaining at now = (if at \<le> now then 0 else at - now)"

fun next_named :: "nat \<Rightarrow> sched_regs \<Rightarrow> u64 \<Rightarrow> u64" where
  "next_named 0 sc next = next"
| "next_named (Suc n) sc next =
     (let next' = next_named n sc next; e = sc_named sc n
      in if \<not> ne_enabled e then next'
         else let rem = remaining (ne_at e) (sc_time sc)
              in if rem < next' then rem else next')"

definition cycles_until_next_event :: "'a sched_state_scheme \<Rightarrow> u64" where
  "cycles_until_next_event s =
     (let sc = sched s;
          next = (if sc_queue sc \<noteq> [] then remaining (fst (q_top (sc_queue sc))) (sc_time sc)
                  else UINT64_MAX)
      in next_named NE_Count sc next)"

section \<open>The scheduler as a bag of events\<close>

text \<open>
  What the two data structures stand for: a bag of pending events, each with its time and
  where it came from.
\<close>

datatype event_src = Timer callback | Named nat

definition named_part :: "sched_regs \<Rightarrow> nat \<Rightarrow> (u64 \<times> event_src) multiset" where
  "named_part sc i = (if ne_enabled (sc_named sc i) then {# (ne_at (sc_named sc i), Named i) #} else {#})"

definition events :: "'a sched_state_scheme \<Rightarrow> (u64 \<times> event_src) multiset" where
  "events s = image_mset (\<lambda>(t, c). (t, Timer c)) (mset (sc_queue (sched s)))
              + named_part (sched s) NE_Sp + named_part (sched s) NE_SpDma"

definition now :: "'a sched_state_scheme \<Rightarrow> u64" where
  "now s = sc_time (sched s)"

fun src_cb :: "'a sched_state_scheme \<Rightarrow> event_src \<Rightarrow> callback option" where
  "src_cb s (Timer c) = Some c"
| "src_cb s (Named i) = ne_cb (sc_named (sched s) i)"

definition sched_ok :: "'a sched_state_scheme \<Rightarrow> bool" where
  "sched_ok s \<longleftrightarrow> q_ok (sc_queue (sched s)) \<and> now s \<le> 0x0000FFFFFFFFFFFF"

definition due :: "'a sched_state_scheme \<Rightarrow> (u64 \<times> event_src) multiset" where
  "due s = filter_mset (\<lambda>e. fst e \<le> now s) (events s)"

definition named_times :: "nat \<Rightarrow> sched_regs \<Rightarrow> u64 set" where
  "named_times n sc = {ne_at (sc_named sc i) | i. i < n \<and> ne_enabled (sc_named sc i)}"

lemma best_named_spec:
  "best_named n ne = (best, bid) \<Longrightarrow>
     (\<forall>i<n. ne_enabled (ne i) \<longrightarrow> best \<le> ne_at (ne i)) \<and>
     (case bid of None \<Rightarrow> best = UINT64_MAX
      | Some i \<Rightarrow> i < n \<and> ne_enabled (ne i) \<and> ne_at (ne i) = best)"
proof (induction n arbitrary: best bid)
  case (Suc n)
  obtain b i0 where b: "best_named n ne = (b, i0)" by force
  note IH = Suc.IH [OF b]
  show ?case
  proof (cases "ne_enabled (ne n) \<and> ne_at (ne n) < b")
    case True
    with Suc.prems b have "best = ne_at (ne n)" "bid = Some n" by auto
    with True IH show ?thesis by (auto simp: less_Suc_eq)
  next
    case False
    with Suc.prems b have "best = b" "bid = i0" by auto
    with False IH show ?thesis by (auto simp: less_Suc_eq not_less split: option.splits)
  qed
qed simp

lemma events_times:
  "(\<forall>e \<in># events s. t \<le> fst e) \<longleftrightarrow>
     (\<forall>x \<in> set (sc_queue (sched s)). t \<le> fst x) \<and>
     (\<forall>i<2. ne_enabled (sc_named (sched s) i) \<longrightarrow> t \<le> ne_at (sc_named (sched s) i))"
  by (auto simp: events_def named_part_def less_2_cases_iff split: if_splits)

lemma events_pop:
  assumes "sc_queue (sched s) \<noteq> []" and "q_ok (sc_queue (sched s))"
  shows "events s = add_mset (fst (q_top (sc_queue (sched s))), Timer (snd (q_top (sc_queue (sched s)))))
    (events (s\<lparr>sched := (sched s)\<lparr>sc_queue := q_pop (sc_queue (sched s))\<rparr>\<rparr>))"
  using tq.contents_top_pop [OF assms(2)] assms(1)
  by (simp add: events_def named_part_def split_beta)

lemma events_unname:
  assumes "i < 2" and "ne_enabled (sc_named (sched s) i)" and "\<not> ne_enabled e"
  shows "events s = add_mset (ne_at (sc_named (sched s) i), Named i) (events (set_named i e s))"
  using assms by (auto simp: events_def named_part_def set_named_def less_2_cases_iff)

lemma now_pop [simp]: "now (s\<lparr>sched := (sched s)\<lparr>sc_queue := q\<rparr>\<rparr>) = now s"
  by (simp add: now_def)

lemma set_named_simps [simp]:
  "now (set_named i e s) = now s"
  "sched_ok (set_named i e s) = sched_ok s"
  "sc_queue (sched (set_named i e s)) = sc_queue (sched s)"
  "sc_named (sched (set_named i e s)) = (sc_named (sched s))(i := e)"
  "cop0 (set_named i e s) = cop0 s"
  "mi (set_named i e s) = mi s"
  "sched_state.more (set_named i e s) = sched_state.more s"
  by (simp_all add: now_def set_named_def sched_ok_def)

definition dispatches ::
  "(callback \<Rightarrow> 'a sched_state_scheme \<Rightarrow> 'a sched_state_scheme res) \<Rightarrow>
   'a sched_state_scheme \<Rightarrow> u64 \<times> event_src \<Rightarrow> 'a sched_state_scheme \<Rightarrow> bool" where
  "dispatches perform s e s1 \<longleftrightarrow>
     e \<in># events s \<and> fst e \<le> now s \<and> (\<forall>e' \<in># events s. fst e \<le> fst e') \<and>
     events s = add_mset e (events s1) \<and> now s1 = now s \<and> (sched_ok s \<longrightarrow> sched_ok s1) \<and>
     cop0 s1 = cop0 s \<and> mi s1 = mi s \<and> sched_state.more s1 = sched_state.more s \<and>
     dispatch_one_due perform s =
       (case src_cb s (snd e) of None \<Rightarrow> Inr (True, s1)
        | Some cb \<Rightarrow> bindR (perform cb s1) (\<lambda>s'. Inr (True, s')))"

lemma small_time: "t \<le> 0x0000FFFFFFFFFFFF \<Longrightarrow> t < UINT64_MAX"
proof -
  assume "t \<le> 0x0000FFFFFFFFFFFF"
  also have "(0x0000FFFFFFFFFFFF :: u64) < UINT64_MAX" by (simp add: UINT64_MAX_def)
  finally show ?thesis .
qed

lemma due_empty_iff: "due s = {#} \<longleftrightarrow> (\<forall>e \<in># events s. now s < fst e)"
proof -
  have "due s = {#} \<longleftrightarrow> set_mset (due s) = {}" by simp
  then show ?thesis by (auto simp: due_def not_le)
qed

text \<open>
  One call of \<open>dispatch_one_due\<close> on the bag: nothing is due and nothing happens, or a least
  event, which is due, is taken out and its function runs.
\<close>

lemma dispatch_cases:
  assumes ok: "sched_ok s"
  shows "(due s = {#} \<and> dispatch_one_due perform s = Inr (False, s)) \<or>
    (\<exists>e s1. dispatches perform s e s1)"
proof -
  let ?sc = "sched s"
  let ?q = "sc_queue ?sc"
  obtain best bid where b: "best_named 2 (sc_named ?sc) = (best, bid)" by force
  note bs = best_named_spec [OF b]
  have qok: "q_ok ?q" and small: "sc_time ?sc < UINT64_MAX"
    using ok small_time by (auto simp: sched_ok_def now_def)
  show ?thesis
  proof (cases "?q \<noteq> [] \<and> fst (q_top ?q) \<le> best")
    case True
    then have q: "?q \<noteq> []" and le: "fst (q_top ?q) \<le> best" by auto
    have least: "\<forall>e' \<in># events s. fst (q_top ?q) \<le> fst e'"
      unfolding events_times using tq.top_least [OF qok] bs le
      by (auto simp flip: set_mset_mset intro: order_trans)
    show ?thesis
    proof (cases "sc_time ?sc < fst (q_top ?q)")
      case True
      then have "due s = {#}" using least
        by (auto simp: due_empty_iff now_def)
      with True b q le show ?thesis by (simp add: dispatch_one_due_def Let_def)
    next
      case False
      let ?s1 = "s\<lparr>sched := ?sc\<lparr>sc_queue := q_pop ?q\<rparr>\<rparr>"
      let ?e = "(fst (q_top ?q), Timer (snd (q_top ?q)))"
      have "dispatches perform s ?e ?s1"
        using False b q le least events_pop [OF q qok] tq.invar_pop [OF qok] ok
        by (auto simp: dispatches_def dispatch_one_due_def Let_def now_def sched_ok_def)
      then show ?thesis by blast
    qed
  next
    case False
    then have qlater: "?q = [] \<or> best < fst (q_top ?q)" by auto
    have least: "\<forall>e' \<in># events s. best \<le> fst e'"
      unfolding events_times using bs qlater tq.top_least [OF qok]
      by (auto simp flip: set_mset_mset dest: order.strict_implies_order intro: order_trans)
    show ?thesis
    proof (cases bid)
      case None
      with bs have "best = UINT64_MAX" by simp
      with least small have "due s = {#}"
        by (auto simp: due_empty_iff now_def)
      with None b qlater False show ?thesis by (auto simp: dispatch_one_due_def Let_def)
    next
      case (Some i)
      with bs have i: "i < 2" "ne_enabled (sc_named ?sc i)" "ne_at (sc_named ?sc i) = best" by auto
      show ?thesis
      proof (cases "sc_time ?sc < best")
        case True
        then have "due s = {#}" using least
          by (auto simp: due_empty_iff now_def)
        with True Some b qlater False show ?thesis by (auto simp: dispatch_one_due_def Let_def)
      next
        case False
        let ?s1 = "set_named i ((sc_named ?sc i)\<lparr>ne_enabled := False, ne_cb := None\<rparr>) s"
        have "events s = add_mset (best, Named i) (events ?s1)"
          using events_unname [OF i(1,2)] i(3) by simp
        moreover have "dispatch_one_due perform s =
            (case ne_cb (sc_named ?sc i) of None \<Rightarrow> Inr (True, ?s1)
             | Some cb \<Rightarrow> bindR (perform cb ?s1) (\<lambda>s'. Inr (True, s')))"
          using False Some b qlater \<open>\<not> (?q \<noteq> [] \<and> _)\<close>
          by (auto simp: dispatch_one_due_def Let_def)
        ultimately have "dispatches perform s (best, Named i) ?s1"
          using False least
          by (simp add: dispatches_def now_def [of s] not_less)
        then show ?thesis by blast
      qed
    qed
  qed
qed

lemma dispatch_again:
  assumes "sched_ok s" and "dispatch_one_due perform s = Inr (True, s')"
  obtains e s1 where "dispatches perform s e s1"
    and "case src_cb s (snd e) of None \<Rightarrow> s' = s1 | Some cb \<Rightarrow> perform cb s1 = Inr s'"
proof -
  from dispatch_cases [OF assms(1), of perform] assms(2) obtain e s1 where d: "dispatches perform s e s1"
    by auto
  then have "Inr (True, s') = (case src_cb s (snd e) of None \<Rightarrow> Inr (True, s1)
      | Some cb \<Rightarrow> bindR (perform cb s1) (\<lambda>s'. Inr (True, s')))"
    using assms(2) by (simp add: dispatches_def)
  then show thesis
    using that [OF d] by (cases "src_cb s (snd e)"; cases "perform (the (src_cb s (snd e))) s1") auto
qed

lemma dispatch_stop:
  assumes "sched_ok s" and "dispatch_one_due perform s = Inr (False, s')"
  shows "s' = s \<and> due s = {#}"
proof -
  have "\<not> dispatches perform s e s1" for e s1
    using assms(2) by (cases "src_cb s (snd e)"; cases "perform (the (src_cb s (snd e))) s1")
      (simp_all add: dispatches_def)
  with dispatch_cases [OF assms(1), of perform] assms(2) show ?thesis by auto
qed

section \<open>The contract between the scheduler and the devices\<close>

text \<open>
  \<open>tick\<close> loops until no event is due. It ends because the functions the devices schedule do
  not move the clock and put new events only into the future.
\<close>

locale event_handlers =
  fixes perform :: "callback \<Rightarrow> 'a sched_state_scheme \<Rightarrow> 'a sched_state_scheme res"
    and good :: "'a sched_state_scheme \<Rightarrow> bool"
  assumes good_sched: "good s \<Longrightarrow> sched_ok s"
    and good_take: "good s \<Longrightarrow> dispatches perform s e s1 \<Longrightarrow> good s1"
    and good_perform: "good s \<Longrightarrow> dispatches perform s e s1 \<Longrightarrow> src_cb s (snd e) = Some cb \<Longrightarrow>
      perform cb s1 = Inr s' \<Longrightarrow> good s'"
    and now_perform: "good s \<Longrightarrow> dispatches perform s e s1 \<Longrightarrow> src_cb s (snd e) = Some cb \<Longrightarrow>
      perform cb s1 = Inr s' \<Longrightarrow> now s' = now s1"
    and due_perform: "good s \<Longrightarrow> dispatches perform s e s1 \<Longrightarrow> src_cb s (snd e) = Some cb \<Longrightarrow>
      perform cb s1 = Inr s' \<Longrightarrow> due s' \<subseteq># due s1"
begin

lemma dispatch_step:
  assumes g: "good s" and d: "dispatch_one_due perform s = Inr (True, s')"
  shows "good s' \<and> now s' = now s \<and> size (due s') < size (due s)"
proof -
  from g have "sched_ok s" by (rule good_sched)
  from dispatch_again [OF this d] obtain e s1 where e: "dispatches perform s e s1"
    and c: "case src_cb s (snd e) of None \<Rightarrow> s' = s1 | Some cb \<Rightarrow> perform cb s1 = Inr s'" by blast
  from e have le: "fst e \<le> now s" and ev: "events s = add_mset e (events s1)"
    and n1: "now s1 = now s" by (auto simp: dispatches_def)
  from ev le n1 have "due s = add_mset e (due s1)" by (simp add: due_def)
  then have lt: "size (due s1) < size (due s)" by simp
  show ?thesis
  proof (cases "src_cb s (snd e)")
    case None
    with c lt n1 good_take [OF g e] show ?thesis by simp
  next
    case (Some cb)
    with c have p: "perform cb s1 = Inr s'" by simp
    note good_perform [OF g e Some p]
    moreover have "now s' = now s" using now_perform [OF g e Some p] n1 by simp
    moreover have "size (due s') \<le> size (due s1)"
      using due_perform [OF g e Some p] by (rule size_mset_mono)
    ultimately show ?thesis using lt by simp
  qed
qed

lemma run_due_returns:
  assumes "good s"
  shows "\<exists>r. run_due perform s = Some r \<and>
    holds_ok (\<lambda>s'. good s' \<and> now s' = now s \<and> due s' = {#}) r"
  using assms
proof (induction "size (due s)" arbitrary: s rule: less_induct)
  case less
  show ?case
  proof (cases "dispatch_one_due perform s")
    case (Inl e)
    then show ?thesis by (subst run_due.simps) simp
  next
    case (Inr p)
    obtain b s' where p: "p = (b, s')" by (cases p)
    show ?thesis
    proof (cases b)
      case True
      with Inr p have d: "dispatch_one_due perform s = Inr (True, s')" by simp
      note st = dispatch_step [OF less.prems d]
      then obtain r where "run_due perform s' = Some r"
          "holds_ok (\<lambda>s''. good s'' \<and> now s'' = now s' \<and> due s'' = {#}) r"
        using less.hyps [of s'] by blast
      with st d show ?thesis by (subst run_due.simps) simp
    next
      case False
      with Inr p have d: "dispatch_one_due perform s = Inr (False, s')" by simp
      with dispatch_stop [OF good_sched [OF less.prems] d] less.prems
      show ?thesis by (subst run_due.simps) simp
    qed
  qed
qed

end

section \<open>How long until the next event\<close>

lemma remaining_iff: "remaining at t \<le> d \<longleftrightarrow> at \<le> t \<or> at - t \<le> d"
  by (auto simp: remaining_def)

lemma remaining_mono: "a \<le> b \<Longrightarrow> remaining a t \<le> remaining b t"
  by (auto simp: remaining_def word_le_nat_alt unat_sub)

lemma next_named_le:
  "next_named n sc m \<le> m \<and>
   (\<forall>i<n. ne_enabled (sc_named sc i) \<longrightarrow> next_named n sc m \<le> remaining (ne_at (sc_named sc i)) (sc_time sc))"
proof (induction n)
  case (Suc n)
  then show ?case by (auto simp: Let_def less_Suc_eq not_less intro: order_trans dest: order.strict_implies_order)
qed simp

lemma next_named_attained:
  "next_named n sc m = m \<or>
   (\<exists>i<n. ne_enabled (sc_named sc i) \<and> next_named n sc m = remaining (ne_at (sc_named sc i)) (sc_time sc))"
  by (induction n) (auto simp: Let_def less_Suc_eq)

lemma cycles_until_le:
  assumes "q_ok (sc_queue (sched s))" and "e \<in># events s"
  shows "cycles_until_next_event s \<le> remaining (fst e) (now s)"
proof -
  let ?sc = "sched s"
  define m where "m = (if sc_queue ?sc \<noteq> [] then remaining (fst (q_top (sc_queue ?sc))) (sc_time ?sc)
                       else UINT64_MAX)"
  have c: "cycles_until_next_event s = next_named 2 ?sc m"
    by (simp add: cycles_until_next_event_def m_def Let_def)
  have "(\<exists>x. x \<in># mset (sc_queue ?sc) \<and> fst e = fst x) \<or>
      (\<exists>i<2. ne_enabled (sc_named ?sc i) \<and> fst e = ne_at (sc_named ?sc i))"
    using assms(2) by (auto simp: events_def named_part_def less_2_cases_iff split: if_splits)
  then consider (q) x where "x \<in># mset (sc_queue ?sc)" "fst e = fst x"
    | (n) i where "i < 2" "ne_enabled (sc_named ?sc i)" "fst e = ne_at (sc_named ?sc i)" by blast
  then show ?thesis
  proof cases
    case q
    then have ne: "sc_queue ?sc \<noteq> []" by auto
    have "fst (q_top (sc_queue ?sc)) \<le> fst e" using tq.top_least [OF assms(1) q(1)] q(2) by simp
    then have "m \<le> remaining (fst e) (now s)" using ne
      by (simp add: m_def now_def remaining_mono)
    with c next_named_le [of 2 ?sc m] show ?thesis by (auto intro: order_trans)
  next
    case n
    with c next_named_le [of 2 ?sc m] show ?thesis by (simp add: now_def)
  qed
qed

end
