(* ===== verification/Decode_Cache.thy ===== *)
theory Decode_Cache
  imports Decode Scheduler
begin

text \<open>
  The decode cache of the interpreter (\<open>DecodeCache\<close> in \<open>src/cpu/cached_interp.cpp\<close>) and the
  hook through which the rest of the program invalidates it (\<open>src/utils/invalidate_hook.cpp\<close>).
  The lemmas show that it implements a partial map from physical word addresses to decoded
  instructions: \<open>cached\<close>.
\<close>

section \<open>State\<close>

record cached_word =
  cw_word :: u32
  cw_handler :: "handler option"

definition empty_word :: cached_word where
  "empty_word = \<lparr>cw_word = 0, cw_handler = None\<rparr>"

text \<open>A page of 1024 entries, indexed by the word in the page.\<close>

type_synonym decode_page = "u32 \<Rightarrow> cached_word"

definition empty_page :: decode_page where
  "empty_page = (\<lambda>_. empty_word)"

text \<open>
  Pages are allocated once and freed only by \<open>clear\<close>, so the pointer \<open>last_hit_page_\<close> is the
  index of the page it points to.
\<close>

record decode_cache =
  rdram_pages :: "u32 \<Rightarrow> decode_page option"
  other_pages :: "u32 \<Rightarrow> decode_page option"
  last_hit_page :: "u32 option"
  last_hit_paddr :: u32

datatype code_hook = No_hook | Interp_hook

record code_state = sched_state +
  hook :: code_hook
  dcache :: decode_cache

definition RDRAM_PAGES :: u32 where
  "RDRAM_PAGES = 0x800"

definition page_of :: "u32 \<Rightarrow> u32" where
  "page_of paddr = drop_bit 12 paddr"

definition word_of :: "u32 \<Rightarrow> u32" where
  "word_of paddr = drop_bit 2 (paddr AND 0xFFF)"

section \<open>Operations\<close>

definition dc_clear :: "decode_cache \<Rightarrow> decode_cache" where
  "dc_clear c = \<lparr>rdram_pages = (\<lambda>_. None), other_pages = (\<lambda>_. None),
     last_hit_page = None, last_hit_paddr = 0xFFFFFFFF\<rparr>"

definition find_page :: "u32 \<Rightarrow> decode_cache \<Rightarrow> decode_page option" where
  "find_page idx c = (if idx < RDRAM_PAGES then rdram_pages c idx else other_pages c idx)"

definition put_page :: "u32 \<Rightarrow> decode_page \<Rightarrow> decode_cache \<Rightarrow> decode_cache" where
  "put_page idx page c =
     (if idx < RDRAM_PAGES then c\<lparr>rdram_pages := (rdram_pages c)(idx := Some page)\<rparr>
      else c\<lparr>other_pages := (other_pages c)(idx := Some page)\<rparr>)"

definition get_or_create_page :: "u32 \<Rightarrow> decode_cache \<Rightarrow> decode_cache" where
  "get_or_create_page idx c =
     (case find_page idx c of None \<Rightarrow> put_page idx empty_page c | Some _ \<Rightarrow> c)"

definition dc_invalidate_page :: "u32 \<Rightarrow> decode_cache \<Rightarrow> decode_cache" where
  "dc_invalidate_page paddr c =
     (let idx = page_of paddr
      in case find_page idx c of
           None \<Rightarrow> c
         | Some page \<Rightarrow>
             (let c1 = (if last_hit_page c = Some idx then c\<lparr>last_hit_page := None\<rparr> else c)
              in put_page idx empty_page c1))"

text \<open>The 64-bit loop variable \<open>p\<close> never wraps (\<open>end\<close> has 32 bits), so it is a natural number.\<close>

function invalidate_pages :: "nat \<Rightarrow> nat \<Rightarrow> decode_cache \<Rightarrow> decode_cache" where
  "invalidate_pages p e c =
     (if p \<le> e then invalidate_pages (p + 0x1000) e (dc_invalidate_page (word_of_nat p) c) else c)"
  by pat_completeness auto
termination by (relation "measure (\<lambda>(p, e, c). Suc e - p)") auto

declare invalidate_pages.simps [simp del]

definition dc_invalidate_range :: "u32 \<Rightarrow> u32 \<Rightarrow> decode_cache \<Rightarrow> decode_cache" where
  "dc_invalidate_range paddr len c =
     (if len = 0 then c
      else let start = paddr AND NOT 0xFFF;
               end64 = unat paddr + unat len - 1;
               e = (if end64 > 0xFFFFFFFF then 0xFFFFFFFF else end64)
           in invalidate_pages (unat start) e c)"

text \<open>\<open>entry\<close> followed by the two stores of its caller.\<close>

definition dc_fill :: "u32 \<Rightarrow> u32 \<Rightarrow> handler \<Rightarrow> decode_cache \<Rightarrow> decode_cache" where
  "dc_fill paddr w h c =
     (let idx = page_of paddr;
          c1 = get_or_create_page idx c;
          c2 = c1\<lparr>last_hit_page := Some idx, last_hit_paddr := paddr\<rparr>
      in case find_page idx c2 of
           None \<Rightarrow> c2
         | Some page \<Rightarrow>
             put_page idx (page(word_of paddr := \<lparr>cw_word = w, cw_handler = Some h\<rparr>)) c2)"

definition try_hit :: "u32 \<Rightarrow> decode_cache \<Rightarrow> (u32 \<times> handler) option \<times> decode_cache" where
  "try_hit paddr c =
     (let word = word_of paddr;
          fast = (case last_hit_page c of
                    None \<Rightarrow> None
                  | Some idx \<Rightarrow>
                      (if last_hit_paddr c = paddr then
                         case find_page idx c of
                           None \<Rightarrow> None
                         | Some page \<Rightarrow>
                             map_option (\<lambda>h. (cw_word (page word), h)) (cw_handler (page word))
                       else None))
      in case fast of
           Some e \<Rightarrow> (Some e, c)
         | None \<Rightarrow>
             (case find_page (page_of paddr) c of
                None \<Rightarrow> (None, c)
              | Some page \<Rightarrow>
                  (case cw_handler (page word) of
                     None \<Rightarrow> (None, c)
                   | Some h \<Rightarrow> (Some (cw_word (page word), h),
                               c\<lparr>last_hit_page := Some (page_of paddr), last_hit_paddr := paddr\<rparr>))))"

definition map_dcache ::
  "(decode_cache \<Rightarrow> decode_cache) \<Rightarrow> 'a code_state_scheme \<Rightarrow> 'a code_state_scheme" where
  "map_dcache f s = s\<lparr>dcache := f (dcache s)\<rparr>"

text \<open>\<open>CachedInterp::reset\<close> installs the hook; \<open>maybe_invalidate_code\<close> calls it.\<close>

definition cached_interp_reset :: "'a code_state_scheme \<Rightarrow> 'a code_state_scheme" where
  "cached_interp_reset s = (map_dcache dc_clear s)\<lparr>hook := Interp_hook\<rparr>"

definition maybe_invalidate_code :: "u32 \<Rightarrow> u32 \<Rightarrow> 'a code_state_scheme \<Rightarrow> 'a code_state_scheme" where
  "maybe_invalidate_code paddr len s =
     (case hook s of
        No_hook \<Rightarrow> s
      | Interp_hook \<Rightarrow> map_dcache (dc_invalidate_range paddr len) s)"

section \<open>The partial map the cache stands for\<close>

definition cached :: "decode_cache \<Rightarrow> u32 \<Rightarrow> (u32 \<times> handler) option" where
  "cached c paddr =
     (case find_page (page_of paddr) c of
        None \<Rightarrow> None
      | Some page \<Rightarrow> map_option (\<lambda>h. (cw_word (page (word_of paddr)), h))
                      (cw_handler (page (word_of paddr))))"

definition cache_ok :: "decode_cache \<Rightarrow> bool" where
  "cache_ok c \<longleftrightarrow> (\<forall>idx. last_hit_page c = Some idx \<longrightarrow> idx = page_of (last_hit_paddr c))"

lemma find_put_page [simp]:
  "find_page i (put_page j page c) = (if i = j then Some page else find_page i c)"
  by (simp add: find_page_def put_page_def)

lemma put_page_last [simp]:
  "last_hit_page (put_page j page c) = last_hit_page c"
  "last_hit_paddr (put_page j page c) = last_hit_paddr c"
  by (simp_all add: put_page_def)

lemma find_page_last [simp]:
  "find_page i (c\<lparr>last_hit_page := x\<rparr>) = find_page i c"
  "find_page i (c\<lparr>last_hit_paddr := y\<rparr>) = find_page i c"
  "find_page i (c\<lparr>last_hit_page := x, last_hit_paddr := y\<rparr>) = find_page i c"
  by (simp_all add: find_page_def)

lemma cached_clear [simp]: "cached (dc_clear c) a = None" "cache_ok (dc_clear c)"
  by (simp_all add: cached_def cache_ok_def dc_clear_def find_page_def)

lemma cached_invalidate_page:
  "cached (dc_invalidate_page p c) a = (if page_of a = page_of p then None else cached c a)"
  by (auto simp: cached_def dc_invalidate_page_def Let_def empty_page_def empty_word_def
      split: option.splits)

lemma cache_ok_invalidate_page: "cache_ok c \<Longrightarrow> cache_ok (dc_invalidate_page p c)"
  by (auto simp: cache_ok_def dc_invalidate_page_def Let_def split: option.splits)

lemma cached_fill:
  "cached (dc_fill p w h c) a =
     (if page_of a = page_of p \<and> word_of a = word_of p then Some (w, h) else cached c a)"
  by (auto simp: cached_def dc_fill_def get_or_create_page_def Let_def empty_page_def
      empty_word_def split: option.splits)

lemma cache_ok_fill: "cache_ok (dc_fill p w h c)"
  by (auto simp: cache_ok_def dc_fill_def get_or_create_page_def Let_def split: option.splits)

lemma try_hit_cached:
  assumes "cache_ok c"
  shows "fst (try_hit p c) = cached c p" and "cached (snd (try_hit p c)) a = cached c a"
    and "cache_ok (snd (try_hit p c))"
  using assms
  by (auto simp: try_hit_def cached_def cache_ok_def Let_def split: option.splits)

lemma page_of_iff: "page_of a = page_of b \<longleftrightarrow> unat a div 4096 = unat b div 4096"
  by (simp add: page_of_def word_unat_eq_iff unsigned_drop_bit_eq drop_bit_eq_div unat_div_distrib)

lemma cached_invalidate_pages:
  assumes "p mod 4096 = 0" and "e < 2 ^ 32"
  shows "cached (invalidate_pages p e c) a =
    (if p div 4096 \<le> unat a div 4096 \<and> unat a div 4096 \<le> e div 4096 \<and> p \<le> e then None else cached c a)"
  using assms
proof (induction p e c rule: invalidate_pages.induct)
  case (1 p e c)
  show ?case
  proof (cases "p \<le> e")
    case True
    then have small: "unat (word_of_nat p :: u32) = p" using 1(3) by (simp add: unat_of_nat take_bit_eq_mod)
    have m: "(p + 4096) mod 4096 = 0" using 1(2) by simp
    have step: "invalidate_pages p e c = invalidate_pages (p + 4096) e (dc_invalidate_page (word_of_nat p) c)"
      using True by (subst invalidate_pages.simps) simp
    obtain k where k: "p = 4096 * k" using 1(2) by (auto simp: mod_eq_0_iff_dvd elim: dvdE)
    then have "p + 4096 \<le> e \<longleftrightarrow> Suc k \<le> e div 4096" and "k \<le> e div 4096"
      using True by (auto simp: less_eq_div_iff_mult_less_eq)
    moreover have "p div 4096 = k" "(p + 4096) div 4096 = Suc k" using k by simp_all
    ultimately show ?thesis
      unfolding step 1(1) [OF True m 1(3)] cached_invalidate_page page_of_iff small
      using True by auto
  next
    case False
    then show ?thesis by (subst invalidate_pages.simps) simp
  qed
qed

lemma unat_page_start: "unat (p AND - 4096 :: u32) = 4096 * (unat p div 4096)"
  using unat_and_not_mask [of p 12] by (simp add: mask_eq_exp_minus_1)

lemma cached_invalidate_range:
  "cached (dc_invalidate_range p n c) a =
     (if n \<noteq> 0 \<and> unat p div 4096 \<le> unat a div 4096
         \<and> unat a div 4096 \<le> (unat p + unat n - 1) div 4096 then None else cached c a)"
proof (cases "n = 0")
  case False
  let ?last = "unat p + unat n - 1"
  let ?e = "if ?last > 0xFFFFFFFF then 0xFFFFFFFF else ?last"
  have n: "0 < unat n" using False by (simp add: unat_gt_0)
  have small: "unat a div 4096 \<le> 0xFFFFF"
    using u32_less [of a] by linarith
  have "unat a div 4096 \<le> ?e div 4096 \<longleftrightarrow> unat a div 4096 \<le> ?last div 4096"
    using small by (auto dest: div_le_mono [of 4294967295 _ 4096])
  moreover have "4096 * (unat p div 4096) \<le> ?e"
    using n u32_less [of p] by auto
  moreover have "?e < 2 ^ 32" by simp
  ultimately show ?thesis
    using False cached_invalidate_pages [of "4096 * (unat p div 4096)" ?e c a]
    by (cases "?last > 0xFFFFFFFF") (simp_all add: dc_invalidate_range_def Let_def unat_page_start)
qed (simp add: dc_invalidate_range_def)

lemma cache_ok_invalidate_range: "cache_ok c \<Longrightarrow> cache_ok (dc_invalidate_range p n c)"
proof -
  have "cache_ok c \<Longrightarrow> cache_ok (invalidate_pages q e c)" for q e c
    by (induction q e c rule: invalidate_pages.induct)
      (subst invalidate_pages.simps, auto intro: cache_ok_invalidate_page)
  then show "cache_ok c \<Longrightarrow> ?thesis" by (simp add: dc_invalidate_range_def Let_def)
qed

text \<open>In particular every byte of the range is gone, also where the range ends inside a page.\<close>

lemma invalidated:
  assumes "unat p \<le> unat a" and "unat a < unat p + unat n"
  shows "cached (dc_invalidate_range p n c) a = None"
proof -
  have "unat a \<le> unat p + unat n - 1" using assms(2) by simp
  then show ?thesis using assms
    by (auto simp: cached_invalidate_range div_le_mono)
qed

lemma invalidate_subset:
  "cached (dc_invalidate_range p n c) a = Some e \<Longrightarrow> cached c a = Some e"
  by (simp add: cached_invalidate_range split: if_splits)

end
