(* ===== verification/Byte_Array.thy ===== *)
theory Byte_Array
  imports Prelude
begin

text \<open>
  The byte arrays of the machine (\<open>src/utils/byte_array.cpp\<close>): RDRAM, ROM and RSP IMEM hold
  every 32-bit word in the byte order of the (little-endian) host, RSP DMEM, cartridge SRAM
  and PIF RAM hold the big-endian bytes of the console. An accessor of the first kind reaches
  a byte or a half-word by flipping the low address bits, so that the console still sees
  big-endian memory: \<open>n64_byte\<close> is that view, and the lemmas relate the accessors to it.
\<close>

section \<open>Arrays\<close>

record bytes =
  bytes_len :: nat
  bytes_at :: "nat \<Rightarrow> u8"

definition bytes_fill :: "nat \<Rightarrow> u8 \<Rightarrow> bytes" where
  "bytes_fill n b = \<lparr>bytes_len = n, bytes_at = (\<lambda>_. b)\<rparr>"

definition bytes_set :: "nat \<Rightarrow> u8 \<Rightarrow> bytes \<Rightarrow> bytes" where
  "bytes_set i b mem = mem\<lparr>bytes_at := (bytes_at mem)(i := b)\<rparr>"

lemma bytes_set_simps [simp]:
  "bytes_len (bytes_set i b mem) = bytes_len mem"
  "bytes_at (bytes_set i b mem) = (bytes_at mem)(i := b)"
  by (simp_all add: bytes_set_def)

section \<open>Words and their bytes\<close>

text \<open>\<open>le16\<close> and \<open>le32\<close> are a \<open>memcpy\<close> between an integer and memory on a little-endian host.\<close>

definition byte_of :: "nat \<Rightarrow> 'a::len word \<Rightarrow> u8" where
  "byte_of k w = ucast (drop_bit (8 * k) w)"

definition le16 :: "u8 \<Rightarrow> u8 \<Rightarrow> u16" where
  "le16 b0 b1 = ucast b0 OR push_bit 8 (ucast b1)"

definition le32 :: "u8 \<Rightarrow> u8 \<Rightarrow> u8 \<Rightarrow> u8 \<Rightarrow> u32" where
  "le32 b0 b1 b2 b3 =
     ucast b0 OR push_bit 8 (ucast b1) OR push_bit 16 (ucast b2) OR push_bit 24 (ucast b3)"

lemma bit_byte_of: "bit (byte_of k (w :: 'a::len word)) n \<longleftrightarrow> n < 8 \<and> bit w (8 * k + n)"
  by (auto simp: byte_of_def bit_ucast_iff bit_drop_bit_eq dest: bit_imp_le_length)

lemma bit_le16: "bit (le16 b0 b1) n \<longleftrightarrow> (if n < 8 then bit b0 n else bit b1 (n - 8))"
  by (auto simp: le16_def bit_or_iff bit_push_bit_iff bit_ucast_iff dest: bit_imp_le_length)

lemma bit_le32:
  "bit (le32 b0 b1 b2 b3) n \<longleftrightarrow>
     (if n < 8 then bit b0 n else if n < 16 then bit b1 (n - 8)
      else if n < 24 then bit b2 (n - 16) else bit b3 (n - 24))"
  by (auto simp: le32_def bit_or_iff bit_push_bit_iff bit_ucast_iff dest: bit_imp_le_length)

lemma le16_bytes [simp]: "le16 (byte_of 0 v) (byte_of (Suc 0) v) = v"
  by (rule bit_word_eqI) (auto simp: bit_le16 bit_byte_of)

lemma le32_bytes [simp]: "le32 (byte_of 0 v) (byte_of (Suc 0) v) (byte_of 2 v) (byte_of 3 v) = v"
  by (rule bit_word_eqI) (auto simp: bit_le32 bit_byte_of)

lemma byte_of_le32 [simp]:
  "byte_of 0 (le32 b0 b1 b2 b3) = b0" "byte_of (Suc 0) (le32 b0 b1 b2 b3) = b1"
  "byte_of 2 (le32 b0 b1 b2 b3) = b2" "byte_of 3 (le32 b0 b1 b2 b3) = b3"
  by (rule bit_word_eqI; auto simp: bit_le32 bit_byte_of)+

lemma byte_of_le16 [simp]:
  "byte_of 0 (le16 b0 b1) = b0" "byte_of (Suc 0) (le16 b0 b1) = b1"
  by (rule bit_word_eqI; auto simp: bit_le16 bit_byte_of)+

section \<open>Host-endian accessors\<close>

text \<open>
  Every caller passes a 32-bit offset; the sums \<open>offset + 4\<close> in the source are 64-bit, so they
  do not wrap and \<open>unat off + 4\<close> is their value. A failed \<open>assert\<close> is \<open>OutOfBounds\<close>.
\<close>

definition byte_address :: "u32 \<Rightarrow> u32" where
  "byte_address addr = addr XOR 3"

definition half_address :: "u32 \<Rightarrow> u32" where
  "half_address addr = addr XOR 2"

definition le32_at :: "bytes \<Rightarrow> nat \<Rightarrow> u32" where
  "le32_at mem i = le32 (bytes_at mem i) (bytes_at mem (i + 1))
                        (bytes_at mem (i + 2)) (bytes_at mem (i + 3))"

definition le32_put :: "nat \<Rightarrow> u32 \<Rightarrow> bytes \<Rightarrow> bytes" where
  "le32_put i v mem = bytes_set (i + 3) (byte_of 3 v) (bytes_set (i + 2) (byte_of 2 v)
                      (bytes_set (i + 1) (byte_of 1 v) (bytes_set i (byte_of 0 v) mem)))"

definition read_from_byte_array64 :: "bytes \<Rightarrow> u32 \<Rightarrow> u64 res" where
  "read_from_byte_array64 mem off =
     (if unat off + 8 \<le> bytes_len mem
      then let hi = le32_at mem (unat off); lo = le32_at mem (unat off + 4)
           in ok (push_bit 32 (ucast hi) OR ucast lo)
      else Inl OutOfBounds)"

definition read_from_byte_array32 :: "bytes \<Rightarrow> u32 \<Rightarrow> u32 res" where
  "read_from_byte_array32 mem off =
     (if unat off + 4 \<le> bytes_len mem then ok (le32_at mem (unat off)) else Inl OutOfBounds)"

definition read_from_byte_array16 :: "bytes \<Rightarrow> u32 \<Rightarrow> u16 res" where
  "read_from_byte_array16 mem off =
     (let idx = unat (half_address off)
      in if idx + 2 \<le> bytes_len mem then ok (le16 (bytes_at mem idx) (bytes_at mem (idx + 1)))
         else Inl OutOfBounds)"

definition read_from_byte_array8 :: "bytes \<Rightarrow> u32 \<Rightarrow> u8 res" where
  "read_from_byte_array8 mem off =
     (let idx = unat (byte_address off)
      in if idx + 1 \<le> bytes_len mem then ok (bytes_at mem idx) else Inl OutOfBounds)"

definition write_to_byte_array64 :: "u32 \<Rightarrow> u64 \<Rightarrow> bytes \<Rightarrow> bytes res" where
  "write_to_byte_array64 off v mem =
     (if unat off + 8 \<le> bytes_len mem
      then let hi = ucast (drop_bit 32 v) :: u32; lo = ucast v :: u32
           in ok (le32_put (unat off + 4) lo (le32_put (unat off) hi mem))
      else Inl OutOfBounds)"

definition write_to_byte_array32 :: "u32 \<Rightarrow> u32 \<Rightarrow> bytes \<Rightarrow> bytes res" where
  "write_to_byte_array32 off v mem =
     (if unat off + 4 \<le> bytes_len mem then ok (le32_put (unat off) v mem) else Inl OutOfBounds)"

definition write_to_byte_array16 :: "u32 \<Rightarrow> u16 \<Rightarrow> bytes \<Rightarrow> bytes res" where
  "write_to_byte_array16 off v mem =
     (let idx = unat (half_address off)
      in if idx + 2 \<le> bytes_len mem
         then ok (bytes_set (idx + 1) (byte_of 1 v) (bytes_set idx (byte_of 0 v) mem))
         else Inl OutOfBounds)"

definition write_to_byte_array8 :: "u32 \<Rightarrow> u8 \<Rightarrow> bytes \<Rightarrow> bytes res" where
  "write_to_byte_array8 off v mem =
     (let idx = unat (byte_address off)
      in if idx + 1 \<le> bytes_len mem then ok (bytes_set idx v mem) else Inl OutOfBounds)"

section \<open>Big-endian accessors\<close>

definition be32_at :: "bytes \<Rightarrow> nat \<Rightarrow> u32" where
  "be32_at mem i = push_bit 24 (ucast (bytes_at mem i)) OR push_bit 16 (ucast (bytes_at mem (i + 1)))
                   OR push_bit 8 (ucast (bytes_at mem (i + 2))) OR ucast (bytes_at mem (i + 3))"

definition be32_put :: "nat \<Rightarrow> u32 \<Rightarrow> bytes \<Rightarrow> bytes" where
  "be32_put i v mem = bytes_set (i + 3) (byte_of 0 v) (bytes_set (i + 2) (byte_of 1 v)
                      (bytes_set (i + 1) (byte_of 2 v) (bytes_set i (byte_of 3 v) mem)))"

definition read_from_byte_array32_be :: "bytes \<Rightarrow> u32 \<Rightarrow> u32 res" where
  "read_from_byte_array32_be mem off =
     (if unat off + 4 \<le> bytes_len mem then ok (be32_at mem (unat off)) else Inl OutOfBounds)"

definition read_from_byte_array16_be :: "bytes \<Rightarrow> u32 \<Rightarrow> u16 res" where
  "read_from_byte_array16_be mem off =
     (if unat off + 2 \<le> bytes_len mem
      then ok (push_bit 8 (ucast (bytes_at mem (unat off))) OR ucast (bytes_at mem (unat off + 1)))
      else Inl OutOfBounds)"

definition write_to_byte_array32_be :: "u32 \<Rightarrow> u32 \<Rightarrow> bytes \<Rightarrow> bytes res" where
  "write_to_byte_array32_be off v mem =
     (if unat off + 4 \<le> bytes_len mem then ok (be32_put (unat off) v mem) else Inl OutOfBounds)"

definition write_to_byte_array16_be :: "u32 \<Rightarrow> u16 \<Rightarrow> bytes \<Rightarrow> bytes res" where
  "write_to_byte_array16_be off v mem =
     (if unat off + 2 \<le> bytes_len mem
      then ok (bytes_set (unat off + 1) (byte_of 0 v) (bytes_set (unat off) (byte_of 1 v) mem))
      else Inl OutOfBounds)"

definition write_to_byte_array64_be :: "u32 \<Rightarrow> u64 \<Rightarrow> bytes \<Rightarrow> bytes res" where
  "write_to_byte_array64_be off v mem =
     (if unat off + 8 \<le> bytes_len mem
      then bindR (write_to_byte_array32_be off (ucast (drop_bit 32 v)) mem)
             (write_to_byte_array32_be (off + 4) (ucast v))
      else Inl OutOfBounds)"

section \<open>ROM byte order\<close>

text \<open>\<open>byteswap_to_host\<close>: the loop over the words of the image, from offset \<open>i\<close> on.\<close>

definition bswap32 :: "u32 \<Rightarrow> u32" where
  "bswap32 w = push_bit 24 (w AND 0x000000FF) OR push_bit 8 (w AND 0x0000FF00)
               OR drop_bit 8 (w AND 0x00FF0000) OR drop_bit 24 (w AND 0xFF000000)"

function byteswap_from :: "nat \<Rightarrow> bytes \<Rightarrow> bytes" where
  "byteswap_from i mem =
     (if i + 4 \<le> bytes_len mem
      then byteswap_from (i + 4) (le32_put i (bswap32 (le32_at mem i)) mem)
      else mem)"
  by pat_completeness auto
termination
  by (relation "measure (\<lambda>(i, mem). bytes_len mem - i)") (auto simp: le32_put_def)

declare byteswap_from.simps [simp del]

definition byteswap_to_host :: "bytes \<Rightarrow> bytes" where
  "byteswap_to_host mem = byteswap_from 0 mem"

section \<open>The interface of a typed accessor\<close>

text \<open>
  What every pair of accessors promises: a read depends on the cells of its address only, a
  write is read back, and a write changes nothing outside its cells.
\<close>

locale word_store =
  fixes rd :: "bytes \<Rightarrow> u32 \<Rightarrow> 'w::len word res"
    and wr :: "u32 \<Rightarrow> 'w word \<Rightarrow> bytes \<Rightarrow> bytes res"
    and cells :: "u32 \<Rightarrow> nat set"
  assumes rd_local: "bytes_len m = bytes_len m' \<Longrightarrow>
      (\<And>i. i \<in> cells a \<Longrightarrow> bytes_at m i = bytes_at m' i) \<Longrightarrow> rd m a = rd m' a"
    and wr_rd: "wr a v m = Inr m' \<Longrightarrow> rd m' a = Inr v"
    and wr_frame: "wr a v m = Inr m' \<Longrightarrow> i \<notin> cells a \<Longrightarrow> bytes_at m' i = bytes_at m i"
    and wr_len: "wr a v m = Inr m' \<Longrightarrow> bytes_len m' = bytes_len m"
    and wr_total: "(\<exists>m'. wr a v m = Inr m') \<longleftrightarrow> (\<exists>v. rd m a = Inr v)"
begin

lemma rd_wr_disjoint:
  assumes "wr a v m = Inr m'" and "cells a \<inter> cells b = {}"
  shows "rd m' b = rd m b"
proof (rule rd_local)
  show "bytes_len m' = bytes_len m" using assms(1) by (rule wr_len)
  fix i assume "i \<in> cells b"
  then have "i \<notin> cells a" using assms(2) by blast
  with assms(1) show "bytes_at m' i = bytes_at m i" by (rule wr_frame)
qed

lemma wr_again: "wr a v m = Inr m' \<Longrightarrow> \<exists>m''. wr a v' m' = Inr m''"
  using wr_rd wr_total by blast

end

definition cells4 :: "nat \<Rightarrow> nat set" where
  "cells4 i = {i, i + 1, i + 2, i + 3}"

lemma le32_put_simps [simp]:
  "bytes_len (le32_put i v mem) = bytes_len mem"
  "bytes_at (le32_put i v mem) =
     (bytes_at mem)(i := byte_of 0 v, i + 1 := byte_of 1 v, i + 2 := byte_of 2 v, i + 3 := byte_of 3 v)"
  by (simp_all add: le32_put_def)

lemma be32_put_simps [simp]:
  "bytes_len (be32_put i v mem) = bytes_len mem"
  "bytes_at (be32_put i v mem) =
     (bytes_at mem)(i := byte_of 3 v, i + 1 := byte_of 2 v, i + 2 := byte_of 1 v, i + 3 := byte_of 0 v)"
  by (simp_all add: be32_put_def)

lemma le32_at_put [simp]: "le32_at (le32_put i v mem) i = v"
  by (simp add: le32_at_def)

lemma le32_at_put_other [simp]:
  "i + 4 \<le> j \<or> j + 4 \<le> i \<Longrightarrow> le32_at (le32_put i v mem) j = le32_at mem j"
  by (auto simp: le32_at_def)

lemma be32_at_eq: "be32_at mem i = le32 (bytes_at mem (i + 3)) (bytes_at mem (i + 2))
                                        (bytes_at mem (i + 1)) (bytes_at mem i)"
  by (simp add: be32_at_def le32_def ac_simps)

lemma be32_at_put [simp]: "be32_at (be32_put i v mem) i = v"
  by (simp add: be32_at_eq)

lemma be32_at_put_other [simp]:
  "i + 4 \<le> j \<or> j + 4 \<le> i \<Longrightarrow> be32_at (be32_put i v mem) j = be32_at mem j"
  by (auto simp: be32_at_def)

lemma le32_at_local:
  "(\<And>k. k \<in> cells4 i \<Longrightarrow> bytes_at m k = bytes_at m' k) \<Longrightarrow> le32_at m i = le32_at m' i"
  by (simp add: le32_at_def cells4_def)

lemma be32_at_local:
  "(\<And>k. k \<in> cells4 i \<Longrightarrow> bytes_at m k = bytes_at m' k) \<Longrightarrow> be32_at m i = be32_at m' i"
  by (simp add: be32_at_def cells4_def)

lemma u64_halves [simp]:
  "push_bit 32 (ucast (ucast (drop_bit 32 v) :: u32)) OR ucast (ucast v :: u32) = (v :: u64)"
  by (rule bit_word_eqI)
    (auto simp: bit_or_iff bit_push_bit_iff bit_ucast_iff bit_drop_bit_eq)

lemma be16_bytes [simp]: "push_bit 8 (ucast (byte_of (Suc 0) v)) OR ucast (byte_of 0 v) = (v :: u16)"
  by (rule bit_word_eqI) (auto simp: bit_or_iff bit_push_bit_iff bit_ucast_iff bit_byte_of)

interpretation host8: word_store read_from_byte_array8 write_to_byte_array8
    "\<lambda>a. {unat (byte_address a)}"
  by unfold_locales (auto simp: read_from_byte_array8_def write_to_byte_array8_def Let_def
      split: if_splits)

interpretation host16: word_store read_from_byte_array16 write_to_byte_array16
    "\<lambda>a. {unat (half_address a), unat (half_address a) + 1}"
  by unfold_locales (auto simp: read_from_byte_array16_def write_to_byte_array16_def Let_def
      split: if_splits)

interpretation host32: word_store read_from_byte_array32 write_to_byte_array32
    "\<lambda>a. cells4 (unat a)"
  by unfold_locales (auto simp: read_from_byte_array32_def write_to_byte_array32_def cells4_def
      intro: le32_at_local split: if_splits)

interpretation host64: word_store read_from_byte_array64 write_to_byte_array64
    "\<lambda>a. cells4 (unat a) \<union> cells4 (unat a + 4)"
  by unfold_locales (auto simp: read_from_byte_array64_def write_to_byte_array64_def Let_def
      cells4_def le32_at_def split: if_splits)

interpretation be32: word_store read_from_byte_array32_be write_to_byte_array32_be
    "\<lambda>a. cells4 (unat a)"
  by unfold_locales (auto simp: read_from_byte_array32_be_def write_to_byte_array32_be_def
      cells4_def intro: be32_at_local split: if_splits)

interpretation be16: word_store read_from_byte_array16_be write_to_byte_array16_be
    "\<lambda>a. {unat a, unat a + 1}"
  by unfold_locales (auto simp: read_from_byte_array16_be_def write_to_byte_array16_be_def
      split: if_splits)

section \<open>The console's view: big-endian memory\<close>

definition n64_byte :: "bytes \<Rightarrow> u32 \<Rightarrow> u8" where
  "n64_byte mem a = bytes_at mem (unat (byte_address a))"

definition word_sized :: "bytes \<Rightarrow> bool" where
  "word_sized mem \<longleftrightarrow> bytes_len mem mod 4 = 0"

definition in_range :: "bytes \<Rightarrow> u32 \<Rightarrow> bool" where
  "in_range mem a \<longleftrightarrow> word_sized mem \<and> unat a < bytes_len mem"

definition aligned4 :: "u32 \<Rightarrow> bool" where
  "aligned4 a \<longleftrightarrow> unat a mod 4 = 0"

lemma byte_address_inj [simp]: "byte_address a = byte_address b \<longleftrightarrow> a = b"
  by (simp add: byte_address_def xor_cancel)

lemma unat_byte_address_inj [simp]:
  "unat (byte_address a) = unat (byte_address b) \<longleftrightarrow> a = b"
  by (metis byte_address_inj word_unat_eq_iff)

lemma byte_address_less:
  "word_sized mem \<Longrightarrow> unat (byte_address a) < bytes_len mem \<longleftrightarrow> unat a < bytes_len mem"
  by (simp add: word_sized_def byte_address_def unat_flip3_less)

lemma read8_in_range [simp]: "in_range mem a \<Longrightarrow> read_from_byte_array8 mem a = Inr (n64_byte mem a)"
  by (simp add: read_from_byte_array8_def in_range_def n64_byte_def byte_address_less Suc_le_eq)

lemma write8_in_range:
  "in_range mem a \<Longrightarrow>
     write_to_byte_array8 a v mem = Inr (bytes_set (unat (byte_address a)) v mem)"
  by (simp add: write_to_byte_array8_def in_range_def byte_address_less Suc_le_eq)

lemma n64_byte_set [simp]:
  "n64_byte (bytes_set (unat (byte_address a)) v mem) b = (if b = a then v else n64_byte mem b)"
  by (simp add: n64_byte_def)

text \<open>The four console bytes of an aligned word.\<close>

lemma unat_add_aligned4:
  assumes "aligned4 a" and "k < 4"
  shows "unat (a + word_of_nat k) = unat a + k"
proof -
  have "unat a < 2 ^ 32" using unsigned_less [of a] by simp
  with assms have "unat a + k < 2 ^ 32" unfolding aligned4_def by (simp, presburger)
  then show ?thesis by (simp add: unat_word_ariths unat_of_nat take_bit_eq_mod)
qed

lemma unat_byte_address_add:
  assumes "aligned4 a" and "k < 4"
  shows "unat (byte_address (a + word_of_nat k)) = unat a + (3 - k)"
proof -
  obtain q where "unat a = 4 * q" using assms(1) by (auto simp: aligned4_def mod_eq_0_iff_dvd elim: dvdE)
  with assms show ?thesis by (simp add: byte_address_def unat_flip3 unat_add_aligned4)
qed

lemma unat_byte_address_aligned:
  assumes "aligned4 a"
  shows "unat (byte_address a) = unat a + 3"
    and "unat (byte_address (a + 1)) = unat a + 2"
    and "unat (byte_address (a + 2)) = unat a + 1"
    and "unat (byte_address (a + 3)) = unat a"
  using unat_byte_address_add [OF assms, of 0] unat_byte_address_add [OF assms, of 1]
    unat_byte_address_add [OF assms, of 2] unat_byte_address_add [OF assms, of 3]
  by simp_all

definition be_word :: "u8 \<Rightarrow> u8 \<Rightarrow> u8 \<Rightarrow> u8 \<Rightarrow> u32" where
  "be_word b0 b1 b2 b3 = le32 b3 b2 b1 b0"

lemma read32_n64_bytes:
  assumes "aligned4 a" and "in_range mem a"
  shows "read_from_byte_array32 mem a =
    Inr (be_word (n64_byte mem a) (n64_byte mem (a + 1)) (n64_byte mem (a + 2)) (n64_byte mem (a + 3)))"
proof -
  have "unat a + 4 \<le> bytes_len mem"
    using assms unfolding in_range_def word_sized_def aligned4_def by presburger
  then show ?thesis
    using unat_byte_address_aligned [OF assms(1)]
    by (simp add: read_from_byte_array32_def be_word_def n64_byte_def le32_at_def)
qed

lemma byteswap_len [simp]: "bytes_len (byteswap_from i mem) = bytes_len mem"
  by (induction i mem rule: byteswap_from.induct)
    (subst byteswap_from.simps, simp)

lemma bswap32_masks:
  "(0x000000FF :: u32) = mask 8" "(0x0000FF00 :: u32) = push_bit 8 (mask 8)"
  "(0x00FF0000 :: u32) = push_bit 16 (mask 8)" "(0xFF000000 :: u32) = push_bit 24 (mask 8)"
  by (simp_all add: mask_eq_exp_minus_1)

lemma bswap32_bytes:
  assumes "k < 4"
  shows "byte_of k (bswap32 w) = byte_of (3 - k) w"
proof -
  from assms consider "k = 0" | "k = 1" | "k = 2" | "k = 3" by linarith
  then show ?thesis
    by cases (rule bit_word_eqI; simp only: bswap32_def bswap32_masks;
      auto simp: bit_byte_of bit_or_iff bit_push_bit_iff bit_drop_bit_eq bit_and_iff bit_mask_iff)+
qed

lemma byteswap_from_below:
  "j < i \<Longrightarrow> bytes_at (byteswap_from i mem) j = bytes_at mem j"
  by (induction i mem rule: byteswap_from.induct) (subst byteswap_from.simps, simp)

lemma le32_put_bswap:
  assumes "k < 4"
  shows "bytes_at (le32_put i (bswap32 (le32_at mem i)) mem) (i + k) = bytes_at mem (i + (3 - k))"
proof -
  from assms consider "k = 0" | "k = 1" | "k = 2" | "k = 3" by linarith
  then show ?thesis
    using bswap32_bytes [of k "le32_at mem i"] by cases (simp_all add: le32_at_def)
qed

lemma byteswap_from_at:
  assumes "4 * p \<le> j" and "i = 4 * p"
  shows "bytes_at (byteswap_from i mem) j =
    (if 4 * (j div 4) + 4 \<le> bytes_len mem then bytes_at mem (4 * (j div 4) + (3 - j mod 4))
     else bytes_at mem j)"
  using assms
proof (induction i mem arbitrary: p rule: byteswap_from.induct)
  case (1 i mem)
  let ?mem' = "le32_put i (bswap32 (le32_at mem i)) mem"
  show ?case
  proof (cases "i + 4 \<le> bytes_len mem")
    case in_mem: True
    then have step: "byteswap_from i mem = byteswap_from (i + 4) ?mem'"
      by (subst byteswap_from.simps) simp
    show ?thesis
    proof (cases "j < i + 4")
      case True
      then obtain k where k: "j = i + k" "k < 4" using 1(2,3) by (metis add_less_cancel_left le_Suc_ex)
      then have "j div 4 = p" "j mod 4 = k" using 1(3) by simp_all
      with k step in_mem 1(3) le32_put_bswap [of k i mem] show ?thesis
        by (simp only: byteswap_from_below) simp
    next
      case False
      then have "i + 4 \<le> 4 * (j div 4)" using 1(3) by presburger
      then have "bytes_at ?mem' (4 * (j div 4) + r) = bytes_at mem (4 * (j div 4) + r)" for r by simp
      moreover have "bytes_at ?mem' j = bytes_at mem j" using False by simp
      moreover have "4 * Suc p \<le> j" "i + 4 = 4 * Suc p" using False 1(3) by simp_all
      ultimately show ?thesis using 1(1) [OF in_mem, of "Suc p"] step
        by (simp only: le32_put_simps)
    qed
  next
    case False
    then have "\<not> 4 * (j div 4) + 4 \<le> bytes_len mem" using 1(2,3) by presburger
    with False show ?thesis by (subst byteswap_from.simps) simp
  qed
qed

text \<open>After the conversion the console's byte \<open>a\<close> is byte \<open>a\<close> of the image file.\<close>

lemma n64_byte_byteswap:
  assumes "in_range mem a"
  shows "n64_byte (byteswap_to_host mem) a = bytes_at mem (unat a)"
proof -
  let ?j = "unat (byte_address a)"
  have "?j div 4 = unat a div 4" and "?j mod 4 = 3 - unat a mod 4"
    by (simp_all add: byte_address_def unat_flip3_mod)
  moreover have "4 * (unat a div 4) + 4 \<le> bytes_len mem"
    using assms unfolding in_range_def word_sized_def by presburger
  moreover have "unat a mod 4 < 4" by simp
  then have "4 * (unat a div 4) + (3 - (3 - unat a mod 4)) = unat a" by simp
  ultimately show ?thesis
    by (simp add: n64_byte_def byteswap_to_host_def byteswap_from_at [of 0])
qed

section \<open>The interface of a store of bytes, and copy loops over it\<close>

text \<open>
  The DMA loops of the interfaces and the boot code write one byte per iteration. They rely on
  this contract, which RDRAM (behind the address flip) and the plain big-endian arrays meet.
\<close>

locale cell_store =
  fixes get :: "'m \<Rightarrow> u32 \<Rightarrow> u8"
    and put :: "u32 \<Rightarrow> u8 \<Rightarrow> 'm \<Rightarrow> 'm res"
    and inside :: "'m \<Rightarrow> u32 \<Rightarrow> bool"
  assumes put_inside: "inside m a \<Longrightarrow> \<exists>m'. put a v m = Inr m'"
    and get_put: "put a v m = Inr m' \<Longrightarrow> inside m a \<Longrightarrow> get m' b = (if b = a then v else get m b)"
    and inside_put: "put a v m = Inr m' \<Longrightarrow> inside m' b = inside m b"
    and put_outside: "\<not> inside m a \<Longrightarrow> put a v m = Inl OutOfBounds"
begin

lemma copy_loop:
  assumes "\<And>i. i < n \<Longrightarrow> inside m (dst i)" and "inj_on dst {..<n}"
  shows "\<exists>m'. for_loop n (\<lambda>i. put (dst i) (src i)) m = Inr m' \<and>
    (\<forall>i<n. get m' (dst i) = src i) \<and> (\<forall>b. b \<notin> dst ` {..<n} \<longrightarrow> get m' b = get m b) \<and>
    (\<forall>b. inside m' b = inside m b)"
  using assms
proof (induction n)
  case (Suc n)
  have "inj_on dst {..<n}" using Suc.prems(2) by (auto intro: inj_on_subset)
  then obtain m1 where m1: "for_loop n (\<lambda>i. put (dst i) (src i)) m = Inr m1"
      "\<forall>i<n. get m1 (dst i) = src i" "\<forall>b. b \<notin> dst ` {..<n} \<longrightarrow> get m1 b = get m b"
      "\<forall>b. inside m1 b = inside m b"
    using Suc.IH Suc.prems(1) by auto
  then have "inside m1 (dst n)" using Suc.prems(1) by simp
  then obtain m2 where m2: "put (dst n) (src n) m1 = Inr m2" using put_inside by blast
  note g = get_put [OF m2 \<open>inside m1 (dst n)\<close>]
  have "dst i \<noteq> dst n" if "i < n" for i
    using Suc.prems(2) that by (auto simp: inj_on_def)
  with m1 m2 g show ?case
    by (auto simp: less_Suc_eq lessThan_Suc inside_put [OF m2])
qed simp

lemma copy_loop_outside:
  assumes "i < n" and "\<not> inside m (dst i)"
  shows "\<exists>e. for_loop n (\<lambda>i. put (dst i) (src i)) m = Inl e"
proof (rule ccontr)
  assume "\<not> ?thesis"
  then obtain m' where "for_loop n (\<lambda>i. put (dst i) (src i)) m = Inr m'"
    by (cases "for_loop n (\<lambda>i. put (dst i) (src i)) m") auto
  then show False using assms
  proof (induction n arbitrary: m')
    case (Suc n)
    then obtain m1 where m1: "for_loop n (\<lambda>i. put (dst i) (src i)) m = Inr m1"
        "put (dst n) (src n) m1 = Inr m'" by (auto simp: bindR_eq_Inr)
    show False
    proof (cases "i < n")
      case True
      with Suc.IH m1(1) Suc.prems(3) show False by blast
    next
      case False
      then have "i = n" using Suc.prems(2) by simp
      moreover have "inside m1 b = inside m b" for b
        using m1(1)
      proof (induction n arbitrary: m1)
        case (Suc k)
        then show ?case by (auto simp: bindR_eq_Inr inside_put)
      qed simp
      ultimately show False using m1(2) put_outside [of m1 "dst n"] Suc.prems(3) by simp
    qed
  qed simp
qed

end

text \<open>RDRAM, ROM and IMEM through the flipped byte accessor; SRAM, PIF RAM and DMEM directly.\<close>

definition put_plain :: "u32 \<Rightarrow> u8 \<Rightarrow> bytes \<Rightarrow> bytes res" where
  "put_plain a v mem = (if unat a < bytes_len mem then ok (bytes_set (unat a) v mem) else Inl OutOfBounds)"

definition get_plain :: "bytes \<Rightarrow> u32 \<Rightarrow> u8 res" where
  "get_plain mem a = (if unat a < bytes_len mem then ok (bytes_at mem (unat a)) else Inl OutOfBounds)"

interpretation host_cells: cell_store n64_byte write_to_byte_array8
    "\<lambda>m a. unat (byte_address a) < bytes_len m"
  by unfold_locales (auto simp: write_to_byte_array8_def Let_def Suc_le_eq split: if_splits)

interpretation plain_cells: cell_store "\<lambda>m a. bytes_at m (unat a)" put_plain
    "\<lambda>m a. unat a < bytes_len m"
  by unfold_locales (auto simp: put_plain_def word_unat_eq_iff split: if_splits)

end
