(* ===== verification/Rom.thy ===== *)
theory Rom
  imports Byte_Array
begin

text \<open>
  The cartridge (\<open>src/memory/rom.cpp\<close>): loading and identifying an image. File input is not
  modelled: the contents of the file are an argument. \<open>Utils::abort\<close> does not return, so the
  error paths of \<open>load_file\<close> are results.
\<close>

section \<open>CRC-32\<close>

definition crc_bit :: "u32 \<Rightarrow> u32" where
  "crc_bit rem = (if rem AND 1 \<noteq> 0 then drop_bit 1 rem XOR 0xedb88320 else drop_bit 1 rem)"

definition crc32_table :: "u32 \<Rightarrow> u32" where
  "crc32_table i = (crc_bit ^^ 8) i"

definition crc32_step :: "u32 \<Rightarrow> u8 \<Rightarrow> u32" where
  "crc32_step crc octet = drop_bit 8 crc XOR crc32_table ((crc AND 0xff) XOR ucast octet)"

definition crc32 :: "u32 \<Rightarrow> u8 list \<Rightarrow> u32" where
  "crc32 crc buffer = NOT (foldl crc32_step (NOT crc) buffer)"

section \<open>The cartridge\<close>

datatype cic_type =
    CIC_UNKNOWN | CIC_NUS_6101 | CIC_NUS_7102 | CIC_NUS_6102_7101 | CIC_NUS_6103_7103
  | CIC_NUS_6105_7105 | CIC_NUS_6106_7106

datatype save_type = Save_None | Sram256k

datatype rom_type = Z64 | N64 | V64 | Rom_unknown

text \<open>\<open>rom_header_t\<close> is the copy of the first 64 bytes of the image, before the byte swap.\<close>

record rom_state =
  rom_data :: bytes
  rom_header :: "u8 list"
  rom_cic :: cic_type
  rom_save_type :: save_type

definition ROM_SIZE :: nat where
  "ROM_SIZE = 0xF0000000"

definition checksum_to_cic :: "u32 \<Rightarrow> cic_type" where
  "checksum_to_cic checksum =
     (if checksum = 0xEC8B1325 then CIC_NUS_7102
      else if checksum = 0x1DEB51A9 then CIC_NUS_6101
      else if checksum = 0xC08E5BD6 then CIC_NUS_6102_7101
      else if checksum = 0x03B8376A then CIC_NUS_6103_7103
      else if checksum = 0xCF7F41DC then CIC_NUS_6105_7105
      else if checksum = 0xD1059C6A then CIC_NUS_6106_7106
      else CIC_UNKNOWN)"

definition rom_type_of :: "u8 list \<Rightarrow> rom_type" where
  "rom_type_of header =
     (let v = be_word (header ! 0) (header ! 1) (header ! 2) (header ! 3)
      in if v = 0x80371240 then Z64 else if v = 0x40123780 then N64
         else if v = 0x37804012 then V64 else Rom_unknown)"

definition detect_save_type :: "bytes \<Rightarrow> save_type" where
  "detect_save_type rom =
     (if bytes_len rom > 0x3F \<and> bytes_at rom 0x3B = 0x4E \<and> bytes_at rom 0x3C = 0x4B
         \<and> bytes_at rom 0x3D = 0x34 \<and> bytes_at rom 0x3E = 0x4A \<and> bytes_at rom 0x3F < 2
      then Sram256k else Save_None)"

definition cic_seed :: "cic_type \<Rightarrow> u32" where
  "cic_seed c = (case c of
      CIC_UNKNOWN \<Rightarrow> 0x0
    | CIC_NUS_6101 \<Rightarrow> 0x00043F3F
    | CIC_NUS_7102 \<Rightarrow> 0x00043F3F
    | CIC_NUS_6102_7101 \<Rightarrow> 0x00003F3F
    | CIC_NUS_6103_7103 \<Rightarrow> 0x0000783F
    | CIC_NUS_6105_7105 \<Rightarrow> 0x0000913F
    | CIC_NUS_6106_7106 \<Rightarrow> 0x0000853F)"

definition bytes_slice :: "bytes \<Rightarrow> nat \<Rightarrow> nat \<Rightarrow> u8 list" where
  "bytes_slice mem off n = map (\<lambda>i. bytes_at mem (off + i)) [0..<n]"

text \<open>\<open>file.read\<close> puts the file at the start of the image array.\<close>

definition bytes_load :: "u8 list \<Rightarrow> bytes \<Rightarrow> bytes" where
  "bytes_load content mem =
     mem\<lparr>bytes_at := (\<lambda>i. if i < length content then content ! i else bytes_at mem i)\<rparr>"

text \<open>\<open>byteswap_to_host\<close> runs on the span of the file, not on the whole array.\<close>

definition byteswap_prefix :: "nat \<Rightarrow> bytes \<Rightarrow> bytes" where
  "byteswap_prefix n mem =
     mem\<lparr>bytes_at := bytes_at (byteswap_to_host (mem\<lparr>bytes_len := n\<rparr>))\<rparr>"

text \<open>\<open>None\<close>: the file could not be opened.\<close>

definition rom_load_file :: "u8 list option \<Rightarrow> rom_state \<Rightarrow> rom_state res" where
  "rom_load_file file r =
     (case file of
        None \<Rightarrow> Inl Aborted
      | Some content \<Rightarrow>
          (let file_size = length content
           in if file_size > bytes_len (rom_data r) then Inl OutOfBounds
              else let rom = bytes_load content (rom_data r)
              in if file_size < 0x40 then Inl Aborted
              else if file_size > ROM_SIZE then Inl Aborted
              else let header = bytes_slice rom 0 0x40
              in if rom_type_of header \<noteq> Z64 then Inl Aborted
              else ok (r\<lparr>rom_data := byteswap_prefix file_size rom,
                        rom_header := header,
                        rom_cic := checksum_to_cic (crc32 0 (bytes_slice rom 0x40 0x9C0)),
                        rom_save_type := detect_save_type rom\<rparr>)))"

definition rom_init :: rom_state where
  "rom_init = \<lparr>rom_data = bytes_fill ROM_SIZE 0, rom_header = replicate 0x40 0,
     rom_cic = CIC_UNKNOWN, rom_save_type = Save_None\<rparr>"

definition get_cic_seed :: "rom_state \<Rightarrow> u32" where
  "get_cic_seed r = cic_seed (rom_cic r)"

definition read_offset8 :: "rom_state \<Rightarrow> u32 \<Rightarrow> u8 res" where
  "read_offset8 r off = read_from_byte_array8 (rom_data r) off"

definition read_offset16 :: "rom_state \<Rightarrow> u32 \<Rightarrow> u16 res" where
  "read_offset16 r off = read_from_byte_array16 (rom_data r) off"

definition read_offset32 :: "rom_state \<Rightarrow> u32 \<Rightarrow> u32 res" where
  "read_offset32 r off = read_from_byte_array32 (rom_data r) off"

text \<open>\<open>image_name\<close>: 20 characters at offset 0x20 of the header.\<close>

definition get_image_name :: "rom_state \<Rightarrow> string" where
  "get_image_name r =
     (let name = map (\<lambda>i. char_of (unat (rom_header r ! (0x20 + i)))) [0..<20];
          name' = rev (dropWhile (\<lambda>c. c \<in> {CHR 0x00, CHR '' '', CHR 0x09}) (rev name))
      in dropWhile (\<lambda>c. c \<in> {CHR '' '', CHR 0x09}) name')"

section \<open>The table-driven CRC is the bitwise one\<close>

lemma crc_bit_xor: "crc_bit (a XOR b) = crc_bit a XOR crc_bit b"
proof -
  have low: "x AND 1 \<noteq> 0 \<longleftrightarrow> bit x 0" for x :: u32
    by (simp add: and_one_eq odd_iff_mod_2_eq_one bit_0)
  show ?thesis
    by (rule bit_word_eqI) (auto simp: crc_bit_def low bit_xor_iff bit_drop_bit_eq)
qed

lemma crc_bits_xor: "(crc_bit ^^ n) (a XOR b) = (crc_bit ^^ n) a XOR (crc_bit ^^ n) b"
  by (induction n) (simp_all add: crc_bit_xor)

lemma crc_bits_shift: "take_bit n a = 0 \<Longrightarrow> (crc_bit ^^ n) a = drop_bit n a"
proof (induction n)
  case (Suc n)
  have "take_bit n a = take_bit n (take_bit (Suc n) a)" by (simp add: min_def)
  then have "take_bit n a = 0" using Suc.prems by simp
  with Suc.IH have "(crc_bit ^^ Suc n) a = crc_bit (drop_bit n a)" by simp
  moreover have "crc_bit (drop_bit n a) = drop_bit (Suc n) a"
  proof -
  have "\<not> bit a n"
    using arg_cong [OF Suc.prems, of "\<lambda>x. bit x n"] by (simp add: bit_take_bit_iff)
  then have "drop_bit n a AND 1 = 0"
    by (simp add: and_one_eq bit_iff_odd_drop_bit flip: even_iff_mod_2_eq_zero)
  then show ?thesis by (simp add: crc_bit_def)
  qed
  ultimately show ?case by simp
qed simp

definition crc32_bitwise :: "u32 \<Rightarrow> u8 list \<Rightarrow> u32" where
  "crc32_bitwise crc buffer =
     NOT (foldl (\<lambda>c octet. (crc_bit ^^ 8) (c XOR ucast octet)) (NOT crc) buffer)"

lemma crc32_step_bitwise: "crc32_step crc octet = (crc_bit ^^ 8) (crc XOR ucast octet)"
proof -
  let ?o = "ucast octet :: u32"
  let ?hi = "push_bit 8 (drop_bit 8 crc)"
  let ?lo = "(crc AND 0xff) XOR ?o"
  have mask: "(0xff :: u32) = mask 8" by (simp add: mask_eq_exp_minus_1)
  have "crc XOR ?o = ?hi XOR ?lo"
    unfolding mask
    by (rule bit_word_eqI)
      (auto simp: bit_xor_iff bit_and_iff bit_mask_iff bit_push_bit_iff bit_drop_bit_eq)
  moreover have "take_bit 8 ?hi = 0"
    by (rule bit_word_eqI) (auto simp: bit_take_bit_iff bit_push_bit_iff)
  then have "(crc_bit ^^ 8) ?hi = drop_bit 8 ?hi" by (rule crc_bits_shift)
  moreover have "drop_bit 8 ?hi = drop_bit 8 crc"
  proof (rule bit_word_eqI)
    fix n :: nat assume "n < LENGTH(32)"
    show "bit (drop_bit 8 ?hi) n = bit (drop_bit 8 crc) n"
      using bit_imp_le_length [of crc "8 + n"] by (auto simp: bit_push_bit_iff bit_drop_bit_eq)
  qed
  ultimately show ?thesis
    by (simp add: crc_bits_xor crc32_step_def crc32_table_def)
qed

text \<open>C22: the table-driven CRC-32 computes, for every buffer and initial value, the bit-at-a-time
  CRC of polynomial 0xedb88320.\<close>

theorem crc32_is_bitwise: "crc32 crc buffer = crc32_bitwise crc buffer"
  by (simp add: crc32_def crc32_bitwise_def crc32_step_bitwise [abs_def])

end
