(* ===== verification/Memory.thy ===== *)
theory Memory
  imports Decode_Cache Rom
begin

text \<open>
  RDRAM, the cartridge save RAM and the RDRAM interface (\<open>src/memory/memory.cpp\<close>,
  \<open>src/memory/ri.cpp\<close>). Files are arguments and results: the contents of the save file, if it
  exists, is an argument of \<open>load_rom\<close>, and \<open>persist_sram\<close> returns the path and the bytes it
  writes. A path is the list of its components.
\<close>

section \<open>State\<close>

record ri_regs =
  ri_mode :: u32
  ri_config :: u32
  ri_current_load :: u32
  ri_select :: u32
  ri_refresh :: u32

record mem_regs =
  rdram :: bytes
  sram :: bytes
  data_dir :: string
  sram_path :: "string list"
  ri :: ri_regs
  rom :: rom_state

record mem_state = code_state +
  mem :: mem_regs

abbreviation (input) "RDRAM_SIZE \<equiv> 0x00800000 :: u32"
abbreviation (input) "RDRAM_SIZE_MASK \<equiv> 0x007FFFFF :: u32"
abbreviation (input) "SRAM_SIZE \<equiv> 0x8000 :: nat"

definition map_rdram ::
  "(bytes \<Rightarrow> bytes res) \<Rightarrow> 'a mem_state_scheme \<Rightarrow> 'a mem_state_scheme res" where
  "map_rdram f s = bindR (f (rdram (mem s))) (\<lambda>m. ok (s\<lparr>mem := (mem s)\<lparr>rdram := m\<rparr>\<rparr>))"

definition map_sram ::
  "(bytes \<Rightarrow> bytes res) \<Rightarrow> 'a mem_state_scheme \<Rightarrow> 'a mem_state_scheme res" where
  "map_sram f s = bindR (f (sram (mem s))) (\<lambda>m. ok (s\<lparr>mem := (mem s)\<lparr>sram := m\<rparr>\<rparr>))"

section \<open>RDRAM interface\<close>

definition ri_reset :: "ri_regs \<Rightarrow> ri_regs" where
  "ri_reset r = r\<lparr>ri_mode := 0xE, ri_config := 0x20, ri_select := 0x14, ri_refresh := 0x63634\<rparr>"

definition ri_read_paddr32 :: "u32 \<Rightarrow> ri_regs \<Rightarrow> u32 res" where
  "ri_read_paddr32 paddr r =
     (if paddr = 0x04700000 then ok (ri_mode r)
      else if paddr = 0x04700004 then ok (ri_config r)
      else if paddr = 0x04700008 then ok (ri_current_load r)
      else if paddr = 0x0470000C then ok (ri_select r)
      else if paddr = 0x04700010 then ok (ri_refresh r)
      else Inl Aborted)"

definition ri_write_paddr32 :: "u32 \<Rightarrow> u32 \<Rightarrow> ri_regs \<Rightarrow> ri_regs res" where
  "ri_write_paddr32 paddr v r =
     (if paddr = 0x04700000 then ok (r\<lparr>ri_mode := v\<rparr>)
      else if paddr = 0x04700004 then ok (r\<lparr>ri_config := v\<rparr>)
      else if paddr = 0x04700008 then ok (r\<lparr>ri_current_load := v\<rparr>)
      else if paddr = 0x0470000C then ok (r\<lparr>ri_select := v\<rparr>)
      else if paddr = 0x04700010 then ok (r\<lparr>ri_refresh := v\<rparr>)
      else Inl Aborted)"

definition memory_reset :: "'a mem_state_scheme \<Rightarrow> 'a mem_state_scheme" where
  "memory_reset s = s\<lparr>mem := (mem s)\<lparr>ri := ri_reset (ri (mem s))\<rparr>\<rparr>"

section \<open>Save files\<close>

definition unsafe_char :: "char \<Rightarrow> bool" where
  "unsafe_char c \<longleftrightarrow> (of_char c :: nat) < 0x20 \<or> c \<in> {CHR ''/'', CHR 0x5C, CHR '':'', CHR ''*'',
     CHR ''?'', CHR 0x22, CHR ''<'', CHR ''>'', CHR ''|''}"

definition trim_char :: "char \<Rightarrow> bool" where
  "trim_char c \<longleftrightarrow> c \<in> {CHR '' '', CHR ''.'', CHR ''_''}"

definition sanitize_game_folder_name :: "string \<Rightarrow> string" where
  "sanitize_game_folder_name name =
     (let n1 = map (\<lambda>c. if unsafe_char c then CHR ''_'' else c) name;
          n2 = rev (dropWhile trim_char (rev n1));
          n3 = dropWhile trim_char n2
      in if n3 = [] then ''unknown'' else n3)"

definition set_data_dir :: "string \<Rightarrow> 'a mem_state_scheme \<Rightarrow> 'a mem_state_scheme" where
  "set_data_dir dir s = s\<lparr>mem := (mem s)\<lparr>data_dir := (if dir = [] then ''.'' else dir)\<rparr>\<rparr>"

definition cart_save_path :: "string \<Rightarrow> 'a mem_state_scheme \<Rightarrow> string list" where
  "cart_save_path filename s =
     [data_dir (mem s), ''save'', sanitize_game_folder_name (get_image_name (rom (mem s))), filename]"

definition allocate_sram :: "'a mem_state_scheme \<Rightarrow> 'a mem_state_scheme" where
  "allocate_sram s = s\<lparr>mem := (mem s)\<lparr>sram :=
     (if rom_save_type (rom (mem s)) = Sram256k then bytes_fill SRAM_SIZE 0xFF else bytes_fill 0 0)\<rparr>\<rparr>"

text \<open>\<open>load_sram_file\<close>: the bytes of the file, and 0xFF behind its end.\<close>

definition load_sram_file :: "u8 list option \<Rightarrow> 'a mem_state_scheme \<Rightarrow> 'a mem_state_scheme" where
  "load_sram_file file s =
     (let m = sram (mem s)
      in if bytes_len m = 0 \<or> sram_path (mem s) = [] then s
         else case file of
                None \<Rightarrow> s
              | Some content \<Rightarrow>
                  s\<lparr>mem := (mem s)\<lparr>sram := m\<lparr>bytes_at := (\<lambda>i.
                      if i < length content \<and> i < bytes_len m then content ! i
                      else if i < bytes_len m then 0xFF else bytes_at m i)\<rparr>\<rparr>\<rparr>)"

definition load_rom ::
  "u8 list option \<Rightarrow> u8 list option \<Rightarrow> 'a mem_state_scheme \<Rightarrow> 'a mem_state_scheme res" where
  "load_rom rom_file sram_file s =
     bindR (rom_load_file rom_file (rom (mem s))) (\<lambda>r.
       let s1 = allocate_sram (s\<lparr>mem := (mem s)\<lparr>rom := r\<rparr>\<rparr>)
       in if bytes_len (sram (mem s1)) \<noteq> 0
          then ok (load_sram_file sram_file
                 (s1\<lparr>mem := (mem s1)\<lparr>sram_path := cart_save_path ''save.sra'' s1\<rparr>\<rparr>))
          else ok (s1\<lparr>mem := (mem s1)\<lparr>sram_path := []\<rparr>\<rparr>))"

definition persist_sram :: "'a mem_state_scheme \<Rightarrow> (string list \<times> u8 list) option" where
  "persist_sram s =
     (if bytes_len (sram (mem s)) = 0 \<or> sram_path (mem s) = [] then None
      else Some (sram_path (mem s), bytes_slice (sram (mem s)) 0 (bytes_len (sram (mem s)))))"

section \<open>The sizes of the arrays\<close>

definition mem_ok :: "'a mem_state_scheme \<Rightarrow> bool" where
  "mem_ok s \<longleftrightarrow> bytes_len (rdram (mem s)) = unat RDRAM_SIZE \<and>
     bytes_len (sram (mem s)) \<in> {0, SRAM_SIZE} \<and> bytes_len (rom_data (rom (mem s))) = ROM_SIZE"

lemma bytes_load_len [simp]: "bytes_len (bytes_load c m) = bytes_len m"
  by (simp add: bytes_load_def)

lemma byteswap_prefix_len [simp]: "bytes_len (byteswap_prefix n m) = bytes_len m"
  by (simp add: byteswap_prefix_def)

lemma rom_load_len:
  "rom_load_file f r = Inr r' \<Longrightarrow> bytes_len (rom_data r') = bytes_len (rom_data r)"
  by (auto simp: rom_load_file_def Let_def split: option.splits if_splits)

lemma mem_ok_allocate: "mem_ok s \<Longrightarrow> mem_ok (allocate_sram s)"
  by (simp add: mem_ok_def allocate_sram_def bytes_fill_def)

lemma mem_ok_load_sram: "mem_ok s \<Longrightarrow> mem_ok (load_sram_file f s)"
  by (cases f) (auto simp: mem_ok_def load_sram_file_def Let_def)

lemma mem_ok_updates [simp]:
  "mem_ok (s\<lparr>mem := (mem s)\<lparr>sram_path := p\<rparr>\<rparr>) = mem_ok s"
  "bytes_len (rom_data r) = bytes_len (rom_data (rom (mem s))) \<Longrightarrow>
     mem_ok (s\<lparr>mem := (mem s)\<lparr>rom := r\<rparr>\<rparr>) = mem_ok s"
  by (simp_all add: mem_ok_def)

lemma mem_ok_load_rom: "mem_ok s \<Longrightarrow> holds_ok mem_ok (load_rom f g s)"
proof (cases "rom_load_file f (rom (mem s))")
  case (Inr r)
  assume "mem_ok s"
  then have "mem_ok (allocate_sram (s\<lparr>mem := (mem s)\<lparr>rom := r\<rparr>\<rparr>))"
    using rom_load_len [OF Inr] by (intro mem_ok_allocate) simp
  with Inr show ?thesis
    by (simp only: load_rom_def bindR_Inr Let_def) (simp add: mem_ok_load_sram)
qed (simp add: load_rom_def)

lemma mask_rdram: "unat (a AND RDRAM_SIZE_MASK) = unat a mod 0x800000"
  using unat_and_mask [of a 23] by (simp add: mask_eq_exp_minus_1)

lemma masked_word_fits:
  assumes "unat (a :: u32) mod 4 = 0"
  shows "unat (a AND RDRAM_SIZE_MASK) + 4 \<le> 0x800000"
proof -
  define y where "y = unat a mod 0x800000"
  have "y mod 4 = 0" using assms by (simp add: y_def mod_mod_cancel)
  moreover have "y < 0x800000" by (simp add: y_def)
  ultimately have "y + 4 \<le> 0x800000" by presburger
  then show ?thesis by (simp add: mask_rdram y_def)
qed

lemma masked_in_range [simp]: "mem_ok s \<Longrightarrow> in_range (rdram (mem s)) (a AND RDRAM_SIZE_MASK)"
  by (simp add: in_range_def mem_ok_def word_sized_def mask_rdram)

section \<open>Filling a stretch of RDRAM byte by byte\<close>

text \<open>The loop of every DMA into RDRAM; addresses wrap at the end of the 8 MB.\<close>

definition rdram_dst :: "u32 \<Rightarrow> nat \<Rightarrow> u32" where
  "rdram_dst dram_addr i = (dram_addr + word_of_nat i) AND RDRAM_SIZE_MASK"

definition rdram_fill :: "u32 \<Rightarrow> (nat \<Rightarrow> u8) \<Rightarrow> nat \<Rightarrow> bytes \<Rightarrow> bytes res" where
  "rdram_fill dram_addr src n = for_loop n (\<lambda>i. write_to_byte_array8 (rdram_dst dram_addr i) (src i))"

lemma unat_rdram_dst: "unat (rdram_dst d i) = (unat d + i) mod 0x800000"
  by (simp add: rdram_dst_def mask_rdram unat_word_ariths unat_of_nat take_bit_eq_mod mod_mod_cancel mod_add_right_eq)

lemma rdram_dst_inj:
  assumes "n \<le> 0x800000"
  shows "inj_on (rdram_dst d) {..<n}"
proof (rule inj_onI)
  fix i j assume ij: "i \<in> {..<n}" "j \<in> {..<n}" "rdram_dst d i = rdram_dst d j"
  have *: "i = j" if "i \<le> j" "j < n" "(unat d + i) mod 0x800000 = (unat d + j) mod 0x800000" for i j
  proof (rule ccontr)
    assume "i \<noteq> j"
    have "0x800000 dvd (unat d + j) - (unat d + i)"
      using that by (metis add_le_cancel_left mod_eq_dvd_iff_nat)
    then have "0x800000 dvd j - i" by simp
    then have "0x800000 \<le> j - i" using \<open>i \<noteq> j\<close> that(1) by (intro dvd_imp_le) auto
    then show False using that assms by simp
  qed
  have eq: "(unat d + i) mod 0x800000 = (unat d + j) mod 0x800000"
    using ij(3) by (metis unat_rdram_dst)
  show "i = j"
  proof (cases "i \<le> j")
    case True
    then show ?thesis using * [OF True _ eq] ij(2) by simp
  next
    case False
    then show ?thesis using * [OF _ _ eq [symmetric]] ij(1) by simp
  qed
qed

lemma rdram_dst_low: "unat d + i < 0x800000 \<Longrightarrow> unat (rdram_dst d i) = unat d + i"
  by (simp add: unat_rdram_dst)

lemma rdram_fill_ok:
  assumes "bytes_len m0 = 0x800000" and "n \<le> 0x800000"
  shows "\<exists>m. rdram_fill d src n m0 = Inr m \<and> bytes_len m = 0x800000 \<and>
    (\<forall>i<n. n64_byte m (rdram_dst d i) = src i) \<and>
    (\<forall>b. b \<notin> rdram_dst d ` {..<n} \<longrightarrow> n64_byte m b = n64_byte m0 b)"
proof -
  have "unat (byte_address (rdram_dst d i)) < bytes_len m0" for i
    using byte_address_less [of m0 "rdram_dst d i"] assms(1) by (simp add: word_sized_def unat_rdram_dst)
  from host_cells.copy_loop [OF this rdram_dst_inj [OF assms(2)], of src] obtain m where
    m: "rdram_fill d src n m0 = Inr m" "\<forall>i<n. n64_byte m (rdram_dst d i) = src i"
      "\<forall>b. b \<notin> rdram_dst d ` {..<n} \<longrightarrow> n64_byte m b = n64_byte m0 b"
    unfolding rdram_fill_def by blast
  have "holds_ok (\<lambda>m. bytes_len m = 0x800000) (rdram_fill d src n m0)"
    unfolding rdram_fill_def
    by (rule for_loop_holds) (use assms(1) host8.wr_len in \<open>auto simp: holds_ok_iff\<close>)
  with m show ?thesis by auto
qed

section \<open>Coherence of the decode cache with RDRAM\<close>

text \<open>
  Whatever the cache holds for an aligned address of RDRAM is the word RDRAM holds there, with
  the handler it decodes to. Every store to RDRAM has to keep this by invalidating what it writes.
\<close>

definition code_coherent :: "'a mem_state_scheme \<Rightarrow> bool" where
  "code_coherent s \<longleftrightarrow> (\<forall>a w h. aligned4 a \<longrightarrow> unat a < 0x800000 \<longrightarrow>
     cached (dcache s) a = Some (w, h) \<longrightarrow>
     read_from_byte_array32 (rdram (mem s)) a = Inr w \<and> decode w = Inr h)"

lemma code_coherent_cong:
  "dcache s = dcache t \<Longrightarrow> rdram (mem s) = rdram (mem t) \<Longrightarrow> code_coherent s = code_coherent t"
  by (simp add: code_coherent_def)

lemma aligned_same_page: "aligned4 a \<Longrightarrow> k < 4 \<Longrightarrow> unat (a + word_of_nat k) div 4096 = unat a div 4096"
proof -
  assume a: "aligned4 a" and k: "k < 4"
  then obtain q where q: "unat a = 4 * q" by (auto simp: aligned4_def mod_eq_0_iff_dvd elim: dvdE)
  have "n div 4096 = n div 4 div 1024" for n :: nat by (simp flip: div_mult2_eq)
  then show ?thesis using k q by (simp add: unat_add_aligned4 [OF a k])
qed

lemma read32_bytes_eq:
  assumes "aligned4 a" "in_range m a" "in_range m' a"
    and "\<And>k. k < 4 \<Longrightarrow> n64_byte m' (a + word_of_nat k) = n64_byte m (a + word_of_nat k)"
  shows "read_from_byte_array32 m' a = read_from_byte_array32 m a"
  using assms(4) [of 0] assms(4) [of 1] assms(4) [of 2] assms(4) [of 3]
  by (simp add: read32_n64_bytes assms)

lemma coherent_store:
  assumes coh: "code_coherent s" and hk: "hook s = Interp_hook"
    and len: "bytes_len (rdram (mem s)) = 0x800000" "bytes_len m = 0x800000"
    and wr: "\<And>b. n64_byte m b \<noteq> n64_byte (rdram (mem s)) b \<Longrightarrow>
               unat p \<le> unat b \<and> unat b < unat p + unat n"
  shows "code_coherent (maybe_invalidate_code p n (s\<lparr>mem := (mem s)\<lparr>rdram := m\<rparr>\<rparr>))"
proof -
  have "read_from_byte_array32 m a = Inr w \<and> decode w = Inr h"
    if a: "aligned4 a" "unat a < 0x800000" and c: "cached (dc_invalidate_range p n (dcache s)) a = Some (w, h)"
    for a w h
  proof -
    have old: "cached (dcache s) a = Some (w, h)" using c by (rule invalidate_subset)
    have eq: "n64_byte m (a + word_of_nat k) = n64_byte (rdram (mem s)) (a + word_of_nat k)" if k: "k < 4" for k
    proof (rule ccontr)
      assume "\<not> ?thesis"
      then have "unat p \<le> unat (a + word_of_nat k)" "unat (a + word_of_nat k) \<le> unat p + unat n - 1" "0 < unat n"
        using wr by fastforce+
      then have "unat p div 4096 \<le> unat a div 4096" "unat a div 4096 \<le> (unat p + unat n - 1) div 4096" "n \<noteq> 0"
        using aligned_same_page [OF a(1) k] by (metis div_le_mono, metis div_le_mono, auto)
      then show False using c by (simp add: cached_invalidate_range)
    qed
    have "in_range m a" "in_range (rdram (mem s)) a"
      using a len by (simp_all add: in_range_def word_sized_def)
    then have "read_from_byte_array32 m a = read_from_byte_array32 (rdram (mem s)) a"
      using eq a by (intro read32_bytes_eq) auto
    with coh old a show ?thesis by (simp add: code_coherent_def)
  qed
  then show ?thesis by (simp add: code_coherent_def maybe_invalidate_code_def hk map_dcache_def)
qed









end
