(* ===== verification/VI.thy ===== *)
theory VI
  imports Memory
begin

text \<open>
  The video interface (\<open>src/mmio/vi.cpp\<close>): its registers and the half-line timing that the
  machine's frame loop is driven by.
\<close>

record vi_regs =
  vi_status :: u32
  vi_origin :: u32
  vi_width :: u32
  vi_intr :: u32
  vi_current :: u32
  vi_burst :: u32
  vi_vsync :: u32
  vi_hsync :: u32
  vi_hsync_leap :: u32
  vi_h_video :: u32
  vi_v_video :: u32
  vi_v_burst :: u32
  vi_x_scale :: u32
  vi_y_scale :: u32
  num_half_lines :: int
  cycles_per_half_line :: int

record vi_state = mem_state +
  vi :: vi_regs

definition CPU_CYCLES_PER_FRAME_NTSC :: int where
  "CPU_CYCLES_PER_FRAME_NTSC = 93750000 div 60"

definition update_halfline_timing :: "vi_regs \<Rightarrow> vi_regs" where
  "update_halfline_timing v =
     (let n = (if num_half_lines v \<le> 0 then 1 else num_half_lines v);
          c = CPU_CYCLES_PER_FRAME_NTSC div n
      in v\<lparr>num_half_lines := n, cycles_per_half_line := (if c \<le> 0 then 1 else c)\<rparr>)"

definition vi_reset :: "'a vi_state_scheme \<Rightarrow> 'a vi_state_scheme" where
  "vi_reset s = s\<lparr>vi := update_halfline_timing
     \<lparr>vi_status = 0x00011003, vi_origin = 0, vi_width = 320, vi_intr = 0x3FF, vi_current = 0,
      vi_burst = 0x03E52239, vi_vsync = 0x20D, vi_hsync = 0xC15, vi_hsync_leap = 0x0C150C15,
      vi_h_video = 0x006C02EC, vi_v_video = 0x002501FF, vi_v_burst = 0x000E0204,
      vi_x_scale = 0x00000200, vi_y_scale = 0x00000400,
      num_half_lines = 0x20D div 2, cycles_per_half_line = cycles_per_half_line (vi s)\<rparr>\<rparr>"

definition vi_read_paddr32 :: "u32 \<Rightarrow> 'a vi_state_scheme \<Rightarrow> u32 res" where
  "vi_read_paddr32 paddr s =
     (if paddr = 0x04400000 then ok (vi_status (vi s))
      else if paddr = 0x04400010 then ok (vi_current (vi s))
      else if paddr = 0x04400024 then ok (vi_h_video (vi s))
      else if paddr = 0x04400028 then ok (vi_v_video (vi s))
      else Inl Aborted)"

definition vi_write_paddr32 :: "u32 \<Rightarrow> u32 \<Rightarrow> 'a vi_state_scheme \<Rightarrow> 'a vi_state_scheme res" where
  "vi_write_paddr32 paddr value s =
     (if paddr = 0x04400000 then ok (s\<lparr>vi := (vi s)\<lparr>vi_status := value\<rparr>\<rparr>)
      else if paddr = 0x04400004 then ok (s\<lparr>vi := (vi s)\<lparr>vi_origin := value AND 0xFFFFFF\<rparr>\<rparr>)
      else if paddr = 0x04400008 then ok (s\<lparr>vi := (vi s)\<lparr>vi_width := value AND 0x7ff\<rparr>\<rparr>)
      else if paddr = 0x0440000C then ok (s\<lparr>vi := (vi s)\<lparr>vi_intr := value AND 0x3ff\<rparr>\<rparr>)
      else if paddr = 0x04400010 then ok (lower_intr INTR_VI s)
      else if paddr = 0x04400014 then ok (s\<lparr>vi := (vi s)\<lparr>vi_burst := value\<rparr>\<rparr>)
      else if paddr = 0x04400018 then
        (let v = value AND 0x3FF
         in ok (s\<lparr>vi := update_halfline_timing
              ((vi s)\<lparr>vi_vsync := v, num_half_lines := uint (v div 2)\<rparr>)\<rparr>))
      else if paddr = 0x0440001C then ok (s\<lparr>vi := (vi s)\<lparr>vi_hsync := value AND 0xFFF\<rparr>\<rparr>)
      else if paddr = 0x04400020 then ok (s\<lparr>vi := (vi s)\<lparr>vi_hsync_leap := value\<rparr>\<rparr>)
      else if paddr = 0x04400024 then ok (s\<lparr>vi := (vi s)\<lparr>vi_h_video := value\<rparr>\<rparr>)
      else if paddr = 0x04400028 then ok (s\<lparr>vi := (vi s)\<lparr>vi_v_video := value\<rparr>\<rparr>)
      else if paddr = 0x0440002C then ok (s\<lparr>vi := (vi s)\<lparr>vi_v_burst := value\<rparr>\<rparr>)
      else if paddr = 0x04400030 then ok (s\<lparr>vi := (vi s)\<lparr>vi_x_scale := value\<rparr>\<rparr>)
      else if paddr = 0x04400034 then ok (s\<lparr>vi := (vi s)\<lparr>vi_y_scale := value\<rparr>\<rparr>)
      else Inl Aborted)"

definition get_num_fields :: "'a vi_state_scheme \<Rightarrow> int" where
  "get_num_fields s = (if vi_status (vi s) AND 0x40 \<noteq> 0 then 2 else 1)"

section \<open>Half-line timing\<close>

definition vi_timing_ok :: "vi_regs \<Rightarrow> bool" where
  "vi_timing_ok v \<longleftrightarrow> 1 \<le> num_half_lines v \<and> num_half_lines v \<le> 511 \<and>
     1 \<le> cycles_per_half_line v \<and>
     num_half_lines v * cycles_per_half_line v \<le> CPU_CYCLES_PER_FRAME_NTSC \<and>
     CPU_CYCLES_PER_FRAME_NTSC < num_half_lines v * (cycles_per_half_line v + 1)"

lemma update_halfline_timing_ok:
  assumes "num_half_lines v \<le> 511"
  shows "vi_timing_ok (update_halfline_timing v)"
proof -
  define n where "n = (if num_half_lines v \<le> 0 then 1 else num_half_lines v)"
  define q where "q = (1562500::int) div n"
  have n: "1 \<le> n" "n \<le> 511" using assms by (auto simp: n_def)
  have "511 * 1 \<le> (1562500::int)" by simp
  then have q: "1 \<le> q" unfolding q_def using n by (smt (verit) div_int_pos_iff pos_imp_zdiv_pos_iff)
  have eq: "n * q + 1562500 mod n = 1562500" by (simp add: q_def)
  moreover have "0 \<le> 1562500 mod n" "1562500 mod n < n" using n by simp_all
  ultimately have "n * q \<le> 1562500" "1562500 < n * (q + 1)" by (simp_all add: algebra_simps)
  then show ?thesis using n q
    by (simp add: vi_timing_ok_def update_halfline_timing_def Let_def n_def [symmetric]
        CPU_CYCLES_PER_FRAME_NTSC_def q_def [symmetric])
qed

lemma vi_lower [simp]: "vi (lower_intr i s) = vi s"
  by (simp add: lower_intr_def check_interrupt_def set_cause_def set_mi_intr_def)

lemma vi_timing_reset: "vi_timing_ok (vi (vi_reset s))"
  by (simp add: vi_reset_def update_halfline_timing_ok)

lemma vi_timing_write:
  assumes "vi_timing_ok (vi s)"
  shows "holds_ok (\<lambda>s'. vi_timing_ok (vi s')) (vi_write_paddr32 paddr value s)"
proof -
  have half: "uint ((value AND 0x3FF) div 2) \<le> 511"
  proof -
    have "value AND 0x3FF \<le> 0x3FF" by (rule word_and_le1)
    then have "unat (value AND 0x3FF) \<le> 1023" by (simp add: word_le_nat_alt)
    then have "unat ((value AND 0x3FF) div 2) \<le> 511" by (simp add: unat_div_distrib)
    then show ?thesis by (simp only: uint_nat)
  qed
  then have vsync: "vi_timing_ok (update_halfline_timing
      ((vi s)\<lparr>vi_vsync := value AND 0x3FF, num_half_lines := uint ((value AND 0x3FF) div 2)\<rparr>))"
    by (intro update_halfline_timing_ok) simp
  have others: "vi_timing_ok ((vi s)\<lparr>vi_status := x\<rparr>)" "vi_timing_ok ((vi s)\<lparr>vi_origin := x\<rparr>)"
    "vi_timing_ok ((vi s)\<lparr>vi_width := x\<rparr>)" "vi_timing_ok ((vi s)\<lparr>vi_intr := x\<rparr>)"
    "vi_timing_ok ((vi s)\<lparr>vi_burst := x\<rparr>)" "vi_timing_ok ((vi s)\<lparr>vi_hsync := x\<rparr>)"
    "vi_timing_ok ((vi s)\<lparr>vi_hsync_leap := x\<rparr>)" "vi_timing_ok ((vi s)\<lparr>vi_h_video := x\<rparr>)"
    "vi_timing_ok ((vi s)\<lparr>vi_v_video := x\<rparr>)" "vi_timing_ok ((vi s)\<lparr>vi_v_burst := x\<rparr>)"
    "vi_timing_ok ((vi s)\<lparr>vi_x_scale := x\<rparr>)" "vi_timing_ok ((vi s)\<lparr>vi_y_scale := x\<rparr>)" for x
    using assms by (simp_all add: vi_timing_ok_def)
  show ?thesis
    unfolding vi_write_paddr32_def Let_def using assms vsync by (simp add: others)
qed

lemma irq_line_ok_vi_write:
  "irq_line_ok s \<Longrightarrow> holds_ok irq_line_ok (vi_write_paddr32 paddr value s)"
  by (simp add: vi_write_paddr32_def Let_def)
    (simp add: irq_line_ok_def irq_line_def pending_def enabled_def)

end
