(* ===== verification/Rdp_Core.thy ===== *)
theory Rdp_Core
  imports VI
begin

text \<open>
  The coherency tracking between the CPU and the graphics device (\<open>src/rdp/rdp_core.cpp\<close>).
  The device itself (\<open>RDP::CommandProcessor\<close> of the vendored parallel-rdp) is external: \<open>cp\<close> is
  \<open>None\<close> while there is none, and otherwise the sequence of values that its
  \<open>signal_timeline\<close> returns; every other call of it is recorded in \<open>cp_log\<close>. What the
  device writes to RDRAM before \<open>wait_for_timeline\<close> returns is its own effect and not part of
  the model. Locks and atomics order accesses of two host threads; the model is sequential.
\<close>

section \<open>State\<close>

record frame_buffer_info =
  fb_address :: u32
  fb_pixel_size :: u32
  fb_width :: u32
  fb_height :: u32
  fb_y_offset :: u32
  zb_address :: u32
  zb_enabled :: bool
  tex_address :: u32
  tex_pixel_size :: u32
  tex_width :: u32

datatype cp_call = Cp_enqueue "u32 list" | Cp_signal | Cp_wait u64

record rdp_regs =
  cp :: "(nat \<Rightarrow> u64) option"
  cp_log :: "cp_call list"
  rdp_dirty :: bool
  cpu_fb_dirty :: bool
  sync_signal :: u64
  dirty_len :: nat
  rdram_dirty :: "nat \<Rightarrow> bool"
  span_min :: u32
  span_max :: u32
  fb_info :: frame_buffer_info

record rdp_state = vi_state +
  rdp :: rdp_regs

definition fb_none :: frame_buffer_info where
  "fb_none = \<lparr>fb_address = 0, fb_pixel_size = 0, fb_width = 0, fb_height = 0, fb_y_offset = 0,
     zb_address = 0, zb_enabled = False, tex_address = 0, tex_pixel_size = 0, tex_width = 0\<rparr>"

abbreviation (input) "UINT32_MAX \<equiv> 0xFFFFFFFF :: u32"

section \<open>Tracking what the device will write\<close>

definition pixel_bytes :: "u32 \<Rightarrow> u32 \<Rightarrow> u32" where
  "pixel_bytes pixel_type area =
     (if pixel_type = 0 then area div 2 else if pixel_type = 1 then area
      else if pixel_type = 2 then area * 2 else if pixel_type = 3 then area * 4 else 0)"

text \<open>The granules of 8 bytes that the range touches, clipped to the array.\<close>

definition granule_start :: "u32 \<Rightarrow> nat" where
  "granule_start address = unat (drop_bit 3 address)"

definition granule_end :: "u32 \<Rightarrow> u32 \<Rightarrow> rdp_regs \<Rightarrow> nat" where
  "granule_end address len r = min (unat (drop_bit 3 (address + len + 7))) (dirty_len r)"

definition mark_dirty_range :: "u32 \<Rightarrow> u32 \<Rightarrow> rdp_regs \<Rightarrow> rdp_regs" where
  "mark_dirty_range address len r =
     (if len = 0 \<or> dirty_len r = 0 then r
      else let start = granule_start address; e = granule_end address len r
           in if start \<ge> dirty_len r then r
              else if start \<ge> e then r
              else if rdram_dirty r start then r
              else r\<lparr>rdram_dirty := (\<lambda>i. if start \<le> i \<and> i < e then True else rdram_dirty r i),
                     span_min := (if start < unat (span_min r) then word_of_nat start else span_min r),
                     span_max := (if e > unat (span_max r) then word_of_nat e else span_max r)\<rparr>)"

definition mark_color_depth_dirty :: "rdp_regs \<Rightarrow> rdp_regs" where
  "mark_color_depth_dirty r =
     (let f = fb_info r;
          fb_off = pixel_bytes (fb_pixel_size f) (fb_y_offset f * fb_width f);
          fb_len = pixel_bytes (fb_pixel_size f) (fb_width f * fb_height f);
          r1 = mark_dirty_range (fb_address f + fb_off) fb_len r
      in if zb_enabled f then
           (let zb_off = pixel_bytes 2 (fb_y_offset f * fb_width f);
                zb_len = pixel_bytes 2 (fb_width f * fb_height f)
            in mark_dirty_range (zb_address f + zb_off) zb_len r1)
         else r1)"

abbreviation (input) "RDP_SyncFull \<equiv> 0x29 :: u32"
abbreviation (input) "RDP_SetScissor \<equiv> 0x2d :: u32"
abbreviation (input) "RDP_SetOtherModes \<equiv> 0x2f :: u32"
abbreviation (input) "RDP_LoadTLut \<equiv> 0x30 :: u32"
abbreviation (input) "RDP_LoadBlock \<equiv> 0x33 :: u32"
abbreviation (input) "RDP_LoadTile \<equiv> 0x34 :: u32"
abbreviation (input) "RDP_SetTextureImage \<equiv> 0x3d :: u32"
abbreviation (input) "RDP_SetMaskImage \<equiv> 0x3e :: u32"
abbreviation (input) "RDP_SetColorImage \<equiv> 0x3f :: u32"

text \<open>The drawing commands: eight kinds of triangles and three of rectangles.\<close>

definition draw_commands :: "u32 list" where
  "draw_commands = [0x08, 0x09, 0x0a, 0x0b, 0x0c, 0x0d, 0x0e, 0x0f, 0x24, 0x25, 0x36]"

definition track_command :: "u32 list \<Rightarrow> rdp_regs \<Rightarrow> rdp_regs" where
  "track_command words r =
     (let w1 = words ! 0; w2 = words ! 1; f = fb_info r;
          command = drop_bit 24 w1 AND 0x3F
      in if command \<in> set draw_commands then mark_color_depth_dirty r
         else if command = RDP_LoadTLut \<or> command = RDP_LoadTile then
           (let upper_left_t = drop_bit 2 (w1 AND 0xFFF);
                lower_right_t = drop_bit 2 (w2 AND 0xFFF)
            in mark_dirty_range
                 (tex_address f + pixel_bytes (tex_pixel_size f) (upper_left_t * tex_width f))
                 (pixel_bytes (tex_pixel_size f) ((lower_right_t - upper_left_t) * tex_width f)) r)
         else if command = RDP_LoadBlock then
           (let upper_left_s = drop_bit 12 w1 AND 0xFFF;
                upper_left_t = w1 AND 0xFFF;
                lower_right_s = drop_bit 12 w2 AND 0xFFF
            in mark_dirty_range
                 (tex_address f +
                    pixel_bytes (tex_pixel_size f) (upper_left_s + upper_left_t * tex_width f))
                 (pixel_bytes (tex_pixel_size f)
                    (if lower_right_s > upper_left_s then lower_right_s - upper_left_s else 0)) r)
         else if command = RDP_SetColorImage then
           r\<lparr>fb_info := f\<lparr>fb_address := w2 AND 0x00FFFFFF, fb_pixel_size := drop_bit 19 w1 AND 0x3,
                          fb_width := (w1 AND 0x3FF) + 1\<rparr>\<rparr>
         else if command = RDP_SetMaskImage then
           r\<lparr>fb_info := f\<lparr>zb_address := w2 AND 0x00FFFFFF\<rparr>\<rparr>
         else if command = RDP_SetTextureImage then
           r\<lparr>fb_info := f\<lparr>tex_address := w2 AND 0x00FFFFFF, tex_pixel_size := drop_bit 19 w1 AND 0x3,
                          tex_width := (w1 AND 0x3FF) + 1\<rparr>\<rparr>
         else if command = RDP_SetScissor then
           (let upper_left_y = drop_bit 2 (w1 AND 0xFFF); lower_right_y = drop_bit 2 (w2 AND 0xFFF)
            in r\<lparr>fb_info := f\<lparr>fb_y_offset := upper_left_y,
                   fb_height := (if lower_right_y > upper_left_y
                                 then lower_right_y - upper_left_y else 0)\<rparr>\<rparr>)
         else if command = RDP_SetOtherModes then
           (let cycle_type = drop_bit 20 w1 AND 3; depth_read_write = drop_bit 4 w2 AND 3
            in r\<lparr>fb_info := f\<lparr>zb_enabled := (cycle_type AND 2 = 0 \<and> depth_read_write \<noteq> 0)\<rparr>\<rparr>)
         else r)"

section \<open>Synchronisation\<close>

definition cp_call :: "cp_call \<Rightarrow> rdp_regs \<Rightarrow> rdp_regs" where
  "cp_call c r = r\<lparr>cp_log := cp_log r @ [c]\<rparr>"

definition cp_ready :: "rdp_regs \<Rightarrow> bool" where
  "cp_ready r \<longleftrightarrow> cp r \<noteq> None"

text \<open>The value the device's next \<open>signal_timeline\<close> returns.\<close>

definition cp_next_signal :: "rdp_regs \<Rightarrow> u64" where
  "cp_next_signal r = (case cp r of
     None \<Rightarrow> 0 | Some f \<Rightarrow> f (length (filter (\<lambda>c. c = Cp_signal) (cp_log r))))"

definition reset_deferred_sync_state :: "rdp_regs \<Rightarrow> rdp_regs" where
  "reset_deferred_sync_state r =
     r\<lparr>sync_signal := 0, dirty_len := 0x100000, rdram_dirty := (\<lambda>_. False),
       span_min := UINT32_MAX, span_max := 0, fb_info := fb_none\<rparr>"

definition flush_pending_sync :: "rdp_regs \<Rightarrow> rdp_regs" where
  "flush_pending_sync r =
     (if sync_signal r = 0 \<or> \<not> cp_ready r then r
      else (cp_call (Cp_wait (sync_signal r)) r)
             \<lparr>rdram_dirty := (\<lambda>_. False), span_min := UINT32_MAX, span_max := 0, sync_signal := 0\<rparr>)"

definition map_rdp :: "(rdp_regs \<Rightarrow> rdp_regs) \<Rightarrow> 'a rdp_state_scheme \<Rightarrow> 'a rdp_state_scheme" where
  "map_rdp f s = s\<lparr>rdp := f (rdp s)\<rparr>"

definition rdp_init :: "(nat \<Rightarrow> u64) \<Rightarrow> 'a rdp_state_scheme \<Rightarrow> 'a rdp_state_scheme" where
  "rdp_init signals = map_rdp (\<lambda>r. (reset_deferred_sync_state r)
     \<lparr>cp := Some signals, cp_log := [], rdp_dirty := True, cpu_fb_dirty := True\<rparr>)"

definition rdp_fini :: "'a rdp_state_scheme \<Rightarrow> 'a rdp_state_scheme" where
  "rdp_fini = map_rdp (\<lambda>r. (reset_deferred_sync_state r)
     \<lparr>cp := None, rdp_dirty := True, cpu_fb_dirty := True\<rparr>)"

definition enqueue_command :: "nat \<Rightarrow> u32 list \<Rightarrow> 'a rdp_state_scheme \<Rightarrow> 'a rdp_state_scheme" where
  "enqueue_command command_length buffer =
     map_rdp (\<lambda>r. if \<not> cp_ready r then r
       else let r1 = r\<lparr>rdp_dirty := True\<rparr>;
                r2 = (if command_length \<ge> 2 then track_command buffer r1 else r1)
            in cp_call (Cp_enqueue (take command_length buffer)) r2)"

definition on_full_sync :: "'a rdp_state_scheme \<Rightarrow> 'a rdp_state_scheme" where
  "on_full_sync =
     map_rdp (\<lambda>r. if \<not> cp_ready r then r
       else (cp_call Cp_signal r)\<lparr>sync_signal := cp_next_signal r\<rparr>)"

definition check_framebuffers_core :: "u32 \<Rightarrow> u32 \<Rightarrow> rdp_regs \<Rightarrow> rdp_regs" where
  "check_framebuffers_core address len r =
     (if sync_signal r = 0 then r
      else if len = 0 \<or> dirty_len r = 0 then r
      else let start = granule_start address; e = granule_end address len r
           in if start \<ge> dirty_len r then r
              else if start \<ge> e then r
              else if span_min r \<ge> span_max r \<or> e \<le> unat (span_min r) \<or> start \<ge> unat (span_max r)
              then r
              else if \<not> list_ex (rdram_dirty r) [start..<e] then r
              else if sync_signal r = 0 \<or> \<not> cp_ready r then r
              else flush_pending_sync r)"

definition check_framebuffers :: "u32 \<Rightarrow> u32 \<Rightarrow> 'a rdp_state_scheme \<Rightarrow> 'a rdp_state_scheme" where
  "check_framebuffers address len = map_rdp (check_framebuffers_core address len)"

definition maybe_mark_vi_fb_dirty :: "u32 \<Rightarrow> u32 \<Rightarrow> 'a rdp_state_scheme \<Rightarrow> 'a rdp_state_scheme" where
  "maybe_mark_vi_fb_dirty address len s =
     (if len = 0 \<or> cpu_fb_dirty (rdp s) then s
      else let origin = vi_origin (vi s) AND 0xFFFFFF
           in if origin = 0 \<or> origin = 0x280 then s
              else let type = vi_status (vi s) AND 3
              in if type < 2 then s
              else let width = vi_width (vi s) AND 0xFFF
              in if width = 0 then s
              else let bytes_per_pixel = (if type = 3 then 4 else 2);
                       fb_bytes = width * 480 * bytes_per_pixel;
                       fb_end = origin + fb_bytes
              in if address < fb_end \<and> address + len > origin
                 then map_rdp (\<lambda>r. r\<lparr>cpu_fb_dirty := True\<rparr>) s else s)"

definition on_rdram_write :: "u32 \<Rightarrow> u32 \<Rightarrow> 'a rdp_state_scheme \<Rightarrow> 'a rdp_state_scheme" where
  "on_rdram_write address len s = check_framebuffers address len (maybe_mark_vi_fb_dirty address len s)"

definition is_dirty :: "'a rdp_state_scheme \<Rightarrow> bool" where
  "is_dirty s \<longleftrightarrow> (if cpu_fb_dirty (rdp s) then True else rdp_dirty (rdp s))"

definition clear_dirty :: "'a rdp_state_scheme \<Rightarrow> 'a rdp_state_scheme" where
  "clear_dirty = map_rdp (\<lambda>r. r\<lparr>rdp_dirty := False, cpu_fb_dirty := False\<rparr>)"

section \<open>The span covers the dirty granules\<close>

definition rdp_ok :: "rdp_regs \<Rightarrow> bool" where
  "rdp_ok r \<longleftrightarrow> dirty_len r \<le> 0x100000 \<and>
     (\<forall>i. rdram_dirty r i \<longrightarrow> i < dirty_len r \<and> unat (span_min r) \<le> i \<and> i < unat (span_max r))"

lemma rdp_ok_reset: "rdp_ok (reset_deferred_sync_state r)"
  by (simp add: rdp_ok_def reset_deferred_sync_state_def)

lemma rdp_ok_flush: "rdp_ok r \<Longrightarrow> rdp_ok (flush_pending_sync r)"
  by (simp add: rdp_ok_def flush_pending_sync_def cp_call_def)

lemma rdp_ok_mark:
  assumes "rdp_ok r"
  shows "rdp_ok (mark_dirty_range address len r)"
proof -
  let ?s = "granule_start address" and ?e = "granule_end address len r"
  have e: "?e \<le> dirty_len r" by (simp add: granule_end_def)
  with assms have "?e \<le> 0x100000" by (simp add: rdp_ok_def)
  then have small: "unat (word_of_nat ?e :: u32) = ?e" by (simp add: unat_of_nat take_bit_eq_mod)
  have "?s \<le> ?e \<Longrightarrow> unat (word_of_nat ?s :: u32) = ?s"
    using \<open>?e \<le> 0x100000\<close> by (simp add: unat_of_nat take_bit_eq_mod)
  with assms e small show ?thesis
    by (auto simp: mark_dirty_range_def rdp_ok_def Let_def)
qed

lemma rdp_ok_fb_info [simp]: "rdp_ok (r\<lparr>fb_info := f\<rparr>) = rdp_ok r"
  by (simp add: rdp_ok_def)

lemma rdp_ok_track: "rdp_ok r \<Longrightarrow> rdp_ok (track_command words r)"
  by (simp add: track_command_def mark_color_depth_dirty_def Let_def rdp_ok_mark)

definition granules_dirty :: "u32 \<Rightarrow> u32 \<Rightarrow> rdp_regs \<Rightarrow> bool" where
  "granules_dirty address len r \<longleftrightarrow>
     (\<exists>i. granule_start address \<le> i \<and> i < granule_end address len r \<and> rdram_dirty r i)"

lemma check_framebuffers_reference:
  assumes "rdp_ok r"
  shows "check_framebuffers_core address len r =
    (if sync_signal r \<noteq> 0 \<and> cp_ready r \<and> len \<noteq> 0 \<and> granules_dirty address len r
     then flush_pending_sync r else r)"
proof -
  let ?s = "granule_start address" and ?e = "granule_end address len r"
  have ex: "list_ex (rdram_dirty r) [?s..<?e] \<longleftrightarrow> (\<exists>i. ?s \<le> i \<and> i < ?e \<and> rdram_dirty r i)"
    by (auto simp: list_ex_iff)
  have out: "\<not> (\<exists>i. ?s \<le> i \<and> i < ?e \<and> rdram_dirty r i)"
    if "span_min r \<ge> span_max r \<or> ?e \<le> unat (span_min r) \<or> ?s \<ge> unat (span_max r)"
    using assms that unfolding rdp_ok_def word_le_nat_alt by (meson le_less_trans less_le_trans not_le)
  have e: "?e \<le> dirty_len r" by (simp add: granule_end_def)
  have empty: "\<not> (\<exists>i. ?s \<le> i \<and> i < ?e \<and> rdram_dirty r i)"
    if "dirty_len r = 0 \<or> ?s \<ge> dirty_len r \<or> ?s \<ge> ?e"
    using that e by auto
  show ?thesis
    unfolding check_framebuffers_core_def granules_dirty_def Let_def ex using out empty by auto
qed

text \<open>An access touches a dirty granule when one of its bytes lies in one: byte \<open>n\<close> of RDRAM is in
  granule \<open>n div 8\<close>. No granule bounds of the code appear here.\<close>

definition touches_dirty :: "u32 \<Rightarrow> u32 \<Rightarrow> rdp_regs \<Rightarrow> bool" where
  "touches_dirty address len r \<longleftrightarrow> (\<exists>k<unat len. rdram_dirty r ((unat address + k) div 8))"

lemma granule_of_byte: "(\<exists>k<l. (a + k) div 8 = i) \<longleftrightarrow> l \<noteq> 0 \<and> a div 8 \<le> i \<and> i < (a + l + 7) div (8 :: nat)"
proof
  assume r: "l \<noteq> 0 \<and> a div 8 \<le> i \<and> i < (a + l + 7) div 8"
  let ?k = "max (8 * i) a - a"
  have "8 * i < a + l" using r by linarith
  then have "?k < l" "(a + ?k) div 8 = i" using r by (auto simp: max_def)
  then show "\<exists>k<l. (a + k) div 8 = i" by blast
next
  assume "\<exists>k<l. (a + k) div 8 = i"
  then obtain k where "k < l" "(a + k) div 8 = i" by blast
  then show "l \<noteq> 0 \<and> a div 8 \<le> i \<and> i < (a + l + 7) div 8" by linarith
qed

lemma granules_dirty_bytes:
  assumes "rdp_ok r" "unat address + unat len + 7 < 2 ^ 32"
  shows "len \<noteq> 0 \<and> granules_dirty address len r \<longleftrightarrow> touches_dirty address len r"
proof -
  have "unat (address + len) = unat address + unat len"
    using assms(2) by (simp add: unat_add_lem [symmetric])
  then have "unat (address + len + 7) = unat address + unat len + 7"
    using assms(2) unat_add_lem [of "address + len" 7] by simp
  then have e: "unat (drop_bit 3 (address + len + 7)) = (unat address + unat len + 7) div 8"
    by (subst unat_drop_bit_eq) (simp add: drop_bit_eq_div)
  have s: "granule_start address = unat address div 8"
    unfolding granule_start_def by (subst unat_drop_bit_eq) (simp add: drop_bit_eq_div)
  have "touches_dirty address len r \<longleftrightarrow>
      (\<exists>i. rdram_dirty r i \<and> (\<exists>k<unat len. (unat address + k) div 8 = i))"
    unfolding touches_dirty_def by blast
  then show ?thesis
    using assms(1) unfolding granules_dirty_def granule_of_byte granule_end_def e s rdp_ok_def
    by (auto simp: unat_eq_zero)
qed

text \<open>C12: the early exits of the hot path (signal, dirty span, bounds) lose nothing: an access
  waits for the device exactly when a signal is pending and one of the bytes it reads or writes
  lies in a dirty granule of eight bytes (for every access whose end, rounded
  up to a granule, does not wrap around the address space).\<close>

theorem check_framebuffers_exact:
  assumes "rdp_ok (rdp s)" "unat address + unat len + 7 < 2 ^ 32"
  shows "check_framebuffers address len s =
    (if sync_signal (rdp s) \<noteq> 0 \<and> cp_ready (rdp s) \<and>
        (\<exists>k<unat len. rdram_dirty (rdp s) ((unat address + k) div 8))
     then s\<lparr>rdp := flush_pending_sync (rdp s)\<rparr> else s)"
  unfolding check_framebuffers_def map_rdp_def check_framebuffers_reference [OF assms(1)]
    granules_dirty_bytes [OF assms] touches_dirty_def by auto

text \<open>A range whose first granule is already dirty is skipped as a whole, so a longer
  range that follows a shorter one is not tracked.\<close>

lemma mark_dirty_range_skips:
  "\<exists>r. rdp_ok r \<and> rdram_dirty (mark_dirty_range 0 8 r) 0 \<and>
       \<not> rdram_dirty (mark_dirty_range 0 16 (mark_dirty_range 0 8 r)) 1"
proof -
  let ?r = "reset_deferred_sync_state \<lparr>cp = None, cp_log = [], rdp_dirty = False, cpu_fb_dirty = False,
    sync_signal = 0, dirty_len = 0, rdram_dirty = (\<lambda>_. False), span_min = 0, span_max = 0, fb_info = fb_none\<rparr>"
  have "rdp_ok ?r" by (rule rdp_ok_reset)
  moreover have "rdram_dirty (mark_dirty_range 0 8 ?r) 0 \<and>
      \<not> rdram_dirty (mark_dirty_range 0 16 (mark_dirty_range 0 8 ?r)) 1"
    by (simp add: mark_dirty_range_def reset_deferred_sync_state_def granule_start_def
        granule_end_def Let_def)
  ultimately show ?thesis by blast
qed

end
