(* ===== verification/AI.thy ===== *)
theory AI
  imports Rdp_Core
begin

text \<open>
  The audio interface (\<open>src/mmio/ai.cpp\<close>): a FIFO of two DMA buffers, played at the DAC rate. A
  buffer that starts raises the interrupt, schedules its own completion and hands its samples to
  the host. The host's audio output is external: \<open>audio_on\<close> is \<open>Audio::enabled()\<close> and
  \<open>audio_log\<close> records the calls of \<open>Audio::push_samples\<close> and
  \<open>Audio::set_frequency_from_dacrate\<close>.
\<close>

section \<open>State\<close>

datatype audio_call = Push_samples "u16 list" | Set_frequency u32

record ai_regs =
  ai_addr :: "u32 \<times> u32"
  ai_length :: "u32 \<times> u32"
  fifo_count :: int
  next_dram_addr :: u32
  dma_enable :: bool
  dacrate :: u32
  ai_bitrate :: u32
  delayed_carry :: bool
  dma_start_time :: u64
  dma_duration_cycles :: u64
  audio_on :: bool
  audio_log :: "audio_call list"

record ai_state = rdp_state +
  ai :: ai_regs

abbreviation (input) "DEFAULT_DACRATE \<equiv> 1103 :: u32"

definition map_ai :: "(ai_regs \<Rightarrow> ai_regs) \<Rightarrow> 'a ai_state_scheme \<Rightarrow> 'a ai_state_scheme" where
  "map_ai f s = s\<lparr>ai := f (ai s)\<rparr>"

section \<open>Operations\<close>

definition ai_reset :: "'a ai_state_scheme \<Rightarrow> 'a ai_state_scheme" where
  "ai_reset = map_ai (\<lambda>a. a\<lparr>ai_addr := (0, 0), ai_length := (0, 0), fifo_count := 0,
     next_dram_addr := 0, dma_enable := False, dacrate := DEFAULT_DACRATE, ai_bitrate := 0,
     delayed_carry := False, dma_start_time := 0, dma_duration_cycles := 0\<rparr>)"

definition cycles_for_length :: "u32 \<Rightarrow> ai_regs \<Rightarrow> u64" where
  "cycles_for_length len a =
     (let rate = (if dacrate a = 0 then DEFAULT_DACRATE else dacrate a);
          samples = len div 4
      in if samples = 0 then 1
         else (ucast samples * 93750000 * ucast (rate + 1)) div 48681812)"

definition bytes_remaining :: "'a ai_state_scheme \<Rightarrow> u32" where
  "bytes_remaining s =
     (let a = ai s
      in if fifo_count a = 0 \<or> dma_duration_cycles a = 0 then 0
         else let now = sc_time (sched s)
         in if now \<le> dma_start_time a then fst (ai_length a)
         else let elapsed = now - dma_start_time a
         in if elapsed \<ge> dma_duration_cycles a then 0
         else let total = ucast (fst (ai_length a)) :: u64;
                  done = (elapsed * total div dma_duration_cycles a) AND NOT 3
              in ucast (if total > done then total - done else 0))"

text \<open>The samples of a buffer: for each frame the two halves of a word of RDRAM.\<close>

definition dma_samples :: "u32 \<Rightarrow> u32 \<Rightarrow> bytes \<Rightarrow> u16 list res" where
  "dma_samples dram_addr len m =
     for_loop (unat (len div 4))
       (\<lambda>i out. bindR (read_from_byte_array32 m ((dram_addr + word_of_nat i * 4) AND RDRAM_SIZE_MASK))
          (\<lambda>word. ok (out @ [ucast (drop_bit 16 word), ucast (word AND 0xFFFF)]))) []"

definition push_dma_audio :: "u32 \<Rightarrow> u32 \<Rightarrow> 'a ai_state_scheme \<Rightarrow> 'a ai_state_scheme res" where
  "push_dma_audio dram_addr len s =
     (if \<not> audio_on (ai s) \<or> len < 4 then ok s
      else bindR (dma_samples dram_addr len (rdram (mem s)))
             (\<lambda>out. ok (map_ai (\<lambda>a. a\<lparr>audio_log := audio_log a @ [Push_samples out]\<rparr>) s)))"

definition start_next_dma :: "'a ai_state_scheme \<Rightarrow> 'a ai_state_scheme res" where
  "start_next_dma s =
     (if fifo_count (ai s) = 0 then ok s
      else let a0 = ai s;
               a1 = (if delayed_carry a0
                     then a0\<lparr>ai_addr := (fst (ai_addr a0) + 0x2000, snd (ai_addr a0)),
                             delayed_carry := False\<rparr> else a0);
               duration = cycles_for_length (fst (ai_length a1)) a1;
               a2 = a1\<lparr>dma_duration_cycles := duration, dma_start_time := sc_time (sched s)\<rparr>;
               s2 = raise_intr INTR_AI (s\<lparr>ai := a2\<rparr>);
               s3 = set_timer duration On_ai_dma_complete s2
           in push_dma_audio (fst (ai_addr a2)) (fst (ai_length a2)) s3)"

definition set_slot :: "int \<Rightarrow> 'x \<Rightarrow> 'x \<times> 'x \<Rightarrow> 'x \<times> 'x" where
  "set_slot i x p = (if i = 0 then (x, snd p) else (fst p, x))"

definition enqueue_dma :: "u32 \<Rightarrow> 'a ai_state_scheme \<Rightarrow> 'a ai_state_scheme res" where
  "enqueue_dma len s =
     (let a = ai s
      in if len = 0 \<or> fifo_count a \<ge> 2 then ok s
         else let was_idle = (fifo_count a = 0);
                  s1 = s\<lparr>ai := a\<lparr>ai_addr := set_slot (fifo_count a) (next_dram_addr a) (ai_addr a),
                                  ai_length := set_slot (fifo_count a) len (ai_length a),
                                  fifo_count := fifo_count a + 1\<rparr>\<rparr>
              in if was_idle then start_next_dma s1 else ok s1)"

definition ai_read_paddr32 :: "u32 \<Rightarrow> 'a ai_state_scheme \<Rightarrow> u32 res" where
  "ai_read_paddr32 paddr s =
     (if paddr \<in> {0x04500004, 0x04500000, 0x04500008, 0x04500010, 0x04500014}
      then ok (bytes_remaining s)
      else if paddr = 0x0450000c then
        ok (0x01080000 OR (if dma_enable (ai s) then 0x02000000 else 0)
            OR (if fifo_count (ai s) \<ge> 1 then 0x40000000 else 0)
            OR (if fifo_count (ai s) \<ge> 2 then 0x80000001 else 0))
      else Inl Aborted)"

definition ai_write_paddr32 :: "u32 \<Rightarrow> u32 \<Rightarrow> 'a ai_state_scheme \<Rightarrow> 'a ai_state_scheme res" where
  "ai_write_paddr32 paddr value s =
     (if paddr = 0x04500000 then ok (map_ai (\<lambda>a. a\<lparr>next_dram_addr := value AND 0x00FFFFF8\<rparr>) s)
      else if paddr = 0x04500004 then enqueue_dma (value AND 0x3FFF8) s
      else if paddr = 0x04500008 then ok (map_ai (\<lambda>a. a\<lparr>dma_enable := (value AND 1 \<noteq> 0)\<rparr>) s)
      else if paddr = 0x0450000c then ok (lower_intr INTR_AI s)
      else if paddr = 0x04500010 then
        ok (map_ai (\<lambda>a. a\<lparr>dacrate := value AND 0x3FFF,
                           audio_log := audio_log a @ [Set_frequency (value AND 0x3FFF)]\<rparr>) s)
      else if paddr = 0x04500014 then ok (map_ai (\<lambda>a. a\<lparr>ai_bitrate := value AND 0xF\<rparr>) s)
      else Inl Aborted)"

definition on_ai_dma_complete :: "'a ai_state_scheme \<Rightarrow> 'a ai_state_scheme res" where
  "on_ai_dma_complete s =
     (let a = ai s
      in if fifo_count a = 0 then ok s
         else let end_addr = fst (ai_addr a) + fst (ai_length a);
                  a1 = a\<lparr>delayed_carry := (end_addr AND 0x1FFF = 0)\<rparr>;
                  a2 = (if fifo_count a1 = 2
                        then a1\<lparr>ai_addr := (snd (ai_addr a1), snd (ai_addr a1)),
                                ai_length := (snd (ai_length a1), snd (ai_length a1))\<rparr> else a1);
                  a3 = a2\<lparr>fifo_count := fifo_count a2 - 1, ai_addr := (fst (ai_addr a2), 0),
                          ai_length := (fst (ai_length a2), 0)\<rparr>
              in if fifo_count a3 > 0 then start_next_dma (s\<lparr>ai := a3\<rparr>)
                 else ok (s\<lparr>ai := a3\<lparr>dma_duration_cycles := 0\<rparr>\<rparr>))"

section \<open>The FIFO invariant\<close>

definition len_ok :: "u32 \<Rightarrow> bool" where
  "len_ok l \<longleftrightarrow> unat l mod 8 = 0 \<and> 8 \<le> unat l \<and> unat l \<le> 0x3FFF8"

text \<open>How many completions of the AI are pending in the scheduler.\<close>

definition ai_pending :: "'a sched_state_scheme \<Rightarrow> nat" where
  "ai_pending s = length (filter (\<lambda>e. snd e = On_ai_dma_complete) (sc_queue (sched s)))"

definition ai_regs_ok :: "ai_regs \<Rightarrow> bool" where
  "ai_regs_ok a \<longleftrightarrow> fifo_count a \<in> {0, 1, 2} \<and> unat (dacrate a) \<le> 0x3FFF \<and>
     (fifo_count a \<ge> 1 \<longrightarrow> len_ok (fst (ai_length a))) \<and>
     (fifo_count a = 2 \<longrightarrow> len_ok (snd (ai_length a))) \<and>
     unat (fst (ai_addr a)) mod 8 = 0 \<and> unat (snd (ai_addr a)) mod 8 = 0 \<and>
     unat (next_dram_addr a) mod 8 = 0"

definition ai_ok :: "'a ai_state_scheme \<Rightarrow> bool" where
  "ai_ok s \<longleftrightarrow> ai_regs_ok (ai s) \<and> ai_pending s = (if fifo_count (ai s) > 0 then 1 else 0)"

section \<open>Durations\<close>

lemma mod8_add: "unat (a :: u32) mod 8 = 0 \<Longrightarrow> unat (b :: u32) mod 8 = 0 \<Longrightarrow> unat (a + b) mod 8 = 0"
  and mod4_add: "unat (a :: u32) mod 4 = 0 \<Longrightarrow> unat (b :: u32) mod 4 = 0 \<Longrightarrow> unat (a + b) mod 4 = 0"
  and mod4_mult: "unat (c * 4 :: u32) mod 4 = 0"
  by (simp_all add: unat_word_ariths mod_mod_cancel mod_eq_0_iff_dvd)

text \<open>The product does not overflow 64 bits, so the duration is the real-valued one rounded down.\<close>

lemma cycles_for_length_nat:
  assumes "len_ok l" and "unat (dacrate a) \<le> 0x3FFF"
  shows "unat (cycles_for_length l a) =
    (unat l div 4) * 93750000 * ((if dacrate a = 0 then 1103 else unat (dacrate a)) + 1) div 48681812"
proof -
  let ?rate = "if dacrate a = 0 then DEFAULT_DACRATE else dacrate a"
  let ?r = "if dacrate a = 0 then 1103 else unat (dacrate a)"
  have r: "unat (?rate + 1) = ?r + 1" and r_le: "?r \<le> 0x3FFF"
    using assms(2) by (auto simp: unat_word_ariths)
  have l: "unat (l div 4) = unat l div 4" by (simp add: unat_div_distrib)
  have l_le: "unat l div 4 \<le> 65534" and l_ge: "2 \<le> unat l div 4"
    using assms(1) by (auto simp: len_ok_def)
  have s: "unat (ucast (l div 4) :: u64) = unat l div 4" using l by (simp only: unat_up)
  have ra: "unat (ucast (?rate + 1) :: u64) = ?r + 1" using r by (simp only: unat_up)
  have "(unat l div 4) * 93750000 * (?r + 1) \<le> 65534 * 93750000 * (0x3FFF + 1)"
    using l_le r_le by (intro mult_le_mono) auto
  then have "(unat l div 4) * 93750000 * (?r + 1) < 2 ^ 64" by simp
  then have "unat (ucast (l div 4) * 93750000 * ucast (?rate + 1) :: u64) =
      (unat l div 4) * 93750000 * (?r + 1)"
    using s ra by (simp add: unat_word_ariths mod_mult_left_eq)
  moreover have "l div 4 \<noteq> 0" using l l_ge by (metis not_numeral_le_zero unat_0)
  ultimately show ?thesis
    by (simp add: cycles_for_length_def Let_def unat_div_distrib)
qed

lemma cycles_for_length_bounds:
  assumes "len_ok l" and "unat (dacrate a) \<le> 0x3FFF"
  shows "7 \<le> unat (cycles_for_length l a)" and "unat (cycles_for_length l a) < 0x80000000"
proof -
  let ?r = "if dacrate a = 0 then 1103 else unat (dacrate a)"
  have r: "1 \<le> ?r" "?r \<le> 0x3FFF" using assms(2) by (auto simp: Suc_le_eq unat_gt_0)
  have l: "2 \<le> unat l div 4" "unat l div 4 \<le> 65534" using assms(1) by (auto simp: len_ok_def)
  have "2 * 93750000 * (1 + 1) \<le> (unat l div 4) * 93750000 * (?r + 1)"
    using l r by (intro mult_le_mono) auto
  then have "2 * 93750000 * (1 + 1) div 48681812 \<le> (unat l div 4) * 93750000 * (?r + 1) div 48681812"
    by (rule div_le_mono)
  then show "7 \<le> unat (cycles_for_length l a)"
    unfolding cycles_for_length_nat [OF assms] by simp
  have "(unat l div 4) * 93750000 * (?r + 1) \<le> 65534 * 93750000 * (0x3FFF + 1)"
    using l r by (intro mult_le_mono) auto
  then have "(unat l div 4) * 93750000 * (?r + 1) div 48681812 \<le> 65534 * 93750000 * (0x3FFF + 1) div 48681812"
    by (rule div_le_mono)
  then show "unat (cycles_for_length l a) < 0x80000000"
    unfolding cycles_for_length_nat [OF assms] by simp
qed

section \<open>Preservation\<close>

lemma ai_pending_mset:
  "ai_pending s = size (filter_mset (\<lambda>e. snd e = On_ai_dma_complete) (mset (sc_queue (sched s))))"
  by (simp add: ai_pending_def flip: mset_filter)

lemma ai_pending_timer [simp]:
  "ai_pending (set_timer c cb s) = (if cb = On_ai_dma_complete then Suc (ai_pending s) else ai_pending s)"
  by (simp add: ai_pending_mset set_timer_def mset_q_push)

lemma ai_raise [simp]:
  "ai (raise_intr i s) = ai s" "ai (lower_intr i s) = ai s"
  "sched (raise_intr i s) = sched s" "sched (lower_intr i s) = sched s"
  "mem (raise_intr i s) = mem s" "mem (lower_intr i s) = mem s"
  by (simp_all add: raise_intr_def lower_intr_def check_interrupt_def set_cause_def set_mi_intr_def)

lemma ai_set_timer [simp]: "ai (set_timer c cb s) = ai s" "mem (set_timer c cb s) = mem s"
  by (simp_all add: set_timer_def)

lemma ai_pending_sched: "sched s = sched t \<Longrightarrow> ai_pending s = ai_pending t"
  by (simp add: ai_pending_def)

lemma dma_samples_returns:
  assumes "bytes_len m = 0x800000" and "unat a mod 8 = 0"
  shows "\<exists>out. dma_samples a l m = Inr out"
proof -
  have "\<exists>w. read_from_byte_array32 m ((a + word_of_nat i * 4) AND RDRAM_SIZE_MASK) = Inr w" for i
  proof -
    have "unat a mod 4 = 0" using assms(2) by presburger
    then have "unat (a + word_of_nat i * 4) mod 4 = 0" using mod4_mult by (rule mod4_add)
    then have "unat ((a + word_of_nat i * 4) AND RDRAM_SIZE_MASK) + 4 \<le> 0x800000"
      by (rule masked_word_fits)
    with assms(1) show ?thesis by (simp add: read_from_byte_array32_def)
  qed
  then show ?thesis unfolding dma_samples_def
    by (intro for_loop_total) (metis bindR_Inr)
qed

lemma push_dma_audio_ok:
  assumes "mem_ok s" and "unat a mod 8 = 0"
  shows "\<exists>lg. push_dma_audio a l s = Inr (map_ai (\<lambda>r. r\<lparr>audio_log := lg\<rparr>) s)"
proof -
  have "bytes_len (rdram (mem s)) = 0x800000" using assms(1) by (simp add: mem_ok_def)
  from dma_samples_returns [OF this assms(2)] obtain out where "dma_samples a l (rdram (mem s)) = Inr out"
    by blast
  then show ?thesis
    by (cases "audio_on (ai s) \<and> \<not> l < 4")
      (auto simp: push_dma_audio_def map_ai_def intro: exI [of _ "audio_log (ai s)"])
qed

lemma map_log_simps [simp]:
  "ai_regs_ok (r\<lparr>audio_log := lg\<rparr>) = ai_regs_ok r"
  "now (map_ai f s) = now s" "mem_ok (map_ai f s) = mem_ok s" "irq_line_ok (map_ai f s) = irq_line_ok s"
  "events (map_ai f s) = events s" "ai_pending (map_ai f s) = ai_pending s" "ai (map_ai f s) = f (ai s)"
  by (simp_all add: ai_regs_ok_def map_ai_def now_def mem_ok_def irq_line_ok_def irq_line_def
      pending_def enabled_def events_def ai_pending_def named_part_def)

lemma start_next_dma_ok:
  assumes "mem_ok s" and "ai_regs_ok (ai s)" and "fifo_count (ai s) > 0"
  shows "\<exists>s'. start_next_dma s = Inr s' \<and> ai_regs_ok (ai s') \<and> fifo_count (ai s') = fifo_count (ai s) \<and>
    ai_pending s' = Suc (ai_pending s) \<and> now s' = now s \<and> mem_ok s' \<and> irq_line_ok s' \<and>
    events s' = add_mset (now s + dma_duration_cycles (ai s'), Timer On_ai_dma_complete) (events s) \<and>
    7 \<le> unat (dma_duration_cycles (ai s')) \<and> unat (dma_duration_cycles (ai s')) < 0x80000000"
proof -
  let ?a0 = "ai s"
  define a1 where "a1 = (if delayed_carry ?a0
    then ?a0\<lparr>ai_addr := (fst (ai_addr ?a0) + 0x2000, snd (ai_addr ?a0)), delayed_carry := False\<rparr> else ?a0)"
  let ?d = "cycles_for_length (fst (ai_length a1)) a1"
  define a2 where "a2 = a1\<lparr>dma_duration_cycles := ?d, dma_start_time := sc_time (sched s)\<rparr>"
  let ?s3 = "set_timer ?d On_ai_dma_complete (raise_intr INTR_AI (s\<lparr>ai := a2\<rparr>))"
  have a1: "ai_regs_ok a1" "fifo_count a1 = fifo_count ?a0"
    using assms(2) mod8_add [of "fst (ai_addr ?a0)" "0x2000"] by (auto simp: a1_def ai_regs_ok_def)
  then have a2: "ai_regs_ok a2" "fifo_count a2 = fifo_count ?a0" "dma_duration_cycles a2 = ?d"
    by (simp_all add: a2_def ai_regs_ok_def)
  have d: "7 \<le> unat ?d" "unat ?d < 0x80000000"
    using a1 assms(3) cycles_for_length_bounds [of "fst (ai_length a1)" a1] by (auto simp: ai_regs_ok_def)
  have mem: "mem_ok ?s3" using assms(1) by (simp add: mem_ok_def)
  have "unat (fst (ai_addr a2)) mod 8 = 0" using a2(1) by (simp add: ai_regs_ok_def)
  from push_dma_audio_ok [OF mem this] obtain lg where
    lg: "push_dma_audio (fst (ai_addr a2)) (fst (ai_length a2)) ?s3 = Inr (map_ai (\<lambda>r. r\<lparr>audio_log := lg\<rparr>) ?s3)"
    by blast
  have st: "start_next_dma s = push_dma_audio (fst (ai_addr a2)) (fst (ai_length a2)) ?s3"
    using assms(3)
    by (simp add: start_next_dma_def Let_def a1_def [symmetric] a2_def [symmetric])
      (simp add: a2_def)
  have "irq_line_ok ?s3"
  proof -
    have "irq_line_ok (raise_intr INTR_AI (s\<lparr>ai := a2\<rparr>))" by simp
    then show ?thesis by (simp add: irq_line_ok_def irq_line_def pending_def enabled_def set_timer_def)
  qed
  moreover have "ai_pending (raise_intr INTR_AI (s\<lparr>ai := a2\<rparr>)) = ai_pending s"
    by (rule ai_pending_sched) simp
  then have "ai_pending ?s3 = Suc (ai_pending s)" by simp
  moreover have "events ?s3 = add_mset (now s + ?d, Timer On_ai_dma_complete) (events s)" "now ?s3 = now s"
    by (simp_all add: events_def set_timer_def mset_q_push named_part_def now_def)
  ultimately show ?thesis
    using st lg a2 d mem by simp
qed

lemma ai_ok_reset: "ai_pending s = 0 \<Longrightarrow> ai_ok (ai_reset s)"
  by (simp add: ai_reset_def ai_ok_def) (simp add: ai_regs_ok_def)

lemma mask_addr: "unat (v AND 0x00FFFFF8 :: u32) mod 8 = 0"
  and mask_len: "unat (v AND 0x3FFF8 :: u32) mod 8 = 0" "unat (v AND 0x3FFF8 :: u32) \<le> 0x3FFF8"
proof -
  have low: "unat (w :: u32) mod 8 = 0" if "take_bit 3 w = 0" for w
    using arg_cong [OF that, of unat]
    by (simp only: unsigned_take_bit_eq) (simp add: take_bit_eq_mod)
  show "unat (v AND 0x00FFFFF8 :: u32) mod 8 = 0" and "unat (v AND 0x3FFF8 :: u32) mod 8 = 0"
    by (rule low, simp add: take_bit_and)+
  have "v AND 0x3FFF8 \<le> 0x3FFF8" by (rule word_and_le1)
  then show "unat (v AND 0x3FFF8 :: u32) \<le> 0x3FFF8" by (simp add: word_le_nat_alt)
qed

lemma mask_len_ok: "v AND 0x3FFF8 = 0 \<or> len_ok (v AND 0x3FFF8)"
proof (cases "v AND 0x3FFF8 = 0")
  case False
  then have "0 < unat (v AND 0x3FFF8)" by (simp add: unat_gt_0)
  moreover have "8 dvd unat (v AND 0x3FFF8)" using mask_len(1) [of v] by (simp add: mod_eq_0_iff_dvd)
  ultimately have "8 \<le> unat (v AND 0x3FFF8)" by (rule dvd_imp_le [rotated])
  with mask_len show ?thesis by (simp add: len_ok_def)
qed simp

lemma enqueue_dma_ok:
  assumes "mem_ok s" and "ai_ok s" and "len = 0 \<or> len_ok len"
  shows "\<exists>s'. enqueue_dma len s = Inr s' \<and> ai_ok s'"
proof (cases "len = 0 \<or> fifo_count (ai s) \<ge> 2")
  case True
  then show ?thesis using assms(2) by (simp add: enqueue_dma_def)
next
  case False
  let ?a = "ai s"
  let ?s1 = "s\<lparr>ai := ?a\<lparr>ai_addr := set_slot (fifo_count ?a) (next_dram_addr ?a) (ai_addr ?a),
    ai_length := set_slot (fifo_count ?a) len (ai_length ?a), fifo_count := fifo_count ?a + 1\<rparr>\<rparr>"
  have len: "len_ok len" using False assms(3) by simp
  have cnt: "fifo_count ?a = 0 \<or> fifo_count ?a = 1" and r: "ai_regs_ok ?a"
    and p: "ai_pending s = (if fifo_count ?a > 0 then 1 else 0)"
    using False assms(2) by (auto simp: ai_ok_def ai_regs_ok_def)
  have r1: "ai_regs_ok (ai ?s1)" using r cnt len by (auto simp: ai_regs_ok_def set_slot_def)
  have pend: "ai_pending ?s1 = ai_pending s" by (rule ai_pending_sched) simp
  show ?thesis
  proof (cases "fifo_count ?a = 0")
    case True
    have "mem_ok ?s1" using assms(1) by (simp add: mem_ok_def)
    then obtain s' where "start_next_dma ?s1 = Inr s'" "ai_regs_ok (ai s')"
        "fifo_count (ai s') = 1" "ai_pending s' = 1"
      using start_next_dma_ok [of ?s1] r1 True p pend by auto
    then show ?thesis using False True by (simp add: enqueue_dma_def Let_def ai_ok_def)
  next
    case one: False
    then have "ai_ok ?s1" using cnt r1 p pend by (simp add: ai_ok_def)
    then show ?thesis using False one by (simp add: enqueue_dma_def Let_def)
  qed
qed

text \<open>
  What the scheduler does with the AI's completion event: it has removed it, so none is pending
  any more while a buffer is still marked as playing.
\<close>

lemma on_ai_dma_complete_ok:
  assumes "mem_ok s" and "ai_regs_ok (ai s)" and "fifo_count (ai s) > 0" and "ai_pending s = 0"
  shows "\<exists>s'. on_ai_dma_complete s = Inr s' \<and> ai_ok s' \<and> mem_ok s' \<and> now s' = now s \<and>
    fifo_count (ai s') = fifo_count (ai s) - 1 \<and>
    (irq_line_ok s \<longrightarrow> irq_line_ok s') \<and>
    (events s' = events s \<or> (\<exists>d. 7 \<le> unat d \<and> unat d < 0x80000000 \<and>
        events s' = add_mset (now s + d, Timer On_ai_dma_complete) (events s)))"
proof -
  let ?a = "ai s"
  define a1 where "a1 = ?a\<lparr>delayed_carry := (fst (ai_addr ?a) + fst (ai_length ?a)) AND 0x1FFF = 0\<rparr>"
  define a2 where "a2 = (if fifo_count a1 = 2 then a1\<lparr>ai_addr := (snd (ai_addr a1), snd (ai_addr a1)),
    ai_length := (snd (ai_length a1), snd (ai_length a1))\<rparr> else a1)"
  define a3 where "a3 = a2\<lparr>fifo_count := fifo_count a2 - 1, ai_addr := (fst (ai_addr a2), 0),
    ai_length := (fst (ai_length a2), 0)\<rparr>"
  have cnt: "fifo_count a3 = fifo_count ?a - 1"
    by (simp add: a3_def a2_def a1_def)
  have r3: "ai_regs_ok a3" "fifo_count ?a = 1 \<or> fifo_count ?a = 2"
    using assms(2,3) by (auto simp: ai_regs_ok_def a3_def a2_def a1_def)
  have mem: "mem_ok (s\<lparr>ai := a\<rparr>)" for a using assms(1) by (simp add: mem_ok_def)
  have pend: "ai_pending (s\<lparr>ai := a\<rparr>) = 0" for a
    using assms(4) ai_pending_sched [of "s\<lparr>ai := a\<rparr>" s] by simp
  have ev: "events (s\<lparr>ai := a\<rparr>) = events s" "now (s\<lparr>ai := a\<rparr>) = now s"
    "irq_line_ok (s\<lparr>ai := a\<rparr>) = irq_line_ok s" for a
    by (simp_all add: events_def named_part_def now_def irq_line_ok_def irq_line_def pending_def enabled_def)
  have run: "on_ai_dma_complete s = (if fifo_count a3 > 0 then start_next_dma (s\<lparr>ai := a3\<rparr>)
      else Inr (s\<lparr>ai := a3\<lparr>dma_duration_cycles := 0\<rparr>\<rparr>))"
    using assms(3)
    unfolding on_ai_dma_complete_def Let_def a1_def [symmetric] a2_def [symmetric] a3_def [symmetric]
    by simp
  show ?thesis
  proof (cases "fifo_count a3 > 0")
    case True
    then show ?thesis using start_next_dma_ok [OF mem, of a3] r3 cnt pend ev run
      by (auto simp: ai_ok_def)
  next
    case False
    then have "ai_ok (s\<lparr>ai := a3\<lparr>dma_duration_cycles := 0\<rparr>\<rparr>)"
      using r3 pend by (simp add: ai_ok_def ai_regs_ok_def)
    then show ?thesis using False run mem ev cnt by simp
  qed
qed

section \<open>Properties\<close>

lemma ai_ok_map:
  "ai_regs_ok (f (ai s)) \<Longrightarrow> fifo_count (f (ai s)) = fifo_count (ai s) \<Longrightarrow> ai_ok s \<Longrightarrow> ai_ok (map_ai f s)"
  by (simp add: ai_ok_def)

lemma ai_ok_lower [simp]: "ai_ok (lower_intr i s) = ai_ok s"
  using ai_pending_sched [of "lower_intr i s" s] by (simp add: ai_ok_def)

text \<open>C19: writing any audio register keeps the FIFO invariant: at most two buffers, each a
  multiple of 8 bytes long, and exactly one completion event pending while a buffer plays (none
  when the FIFO is empty). A write is accepted or aborts for an address that is no register.\<close>

theorem ai_write_keeps_fifo:
  assumes "mem_ok s" and "ai_ok s"
  shows "(\<exists>s'. ai_write_paddr32 paddr value s = Inr s' \<and> ai_ok s') \<or>
    (ai_write_paddr32 paddr value s = Inl Aborted \<and>
     paddr \<notin> {0x04500000, 0x04500004, 0x04500008, 0x0450000c, 0x04500010, 0x04500014})"
proof -
  have "value AND 0x3FFF \<le> 0x3FFF" by (rule word_and_le1)
  then have rate: "unat (value AND 0x3FFF) \<le> 0x3FFF" by (simp add: word_le_nat_alt)
  have "ai_regs_ok (ai s)" using assms(2) by (simp add: ai_ok_def)
  then show ?thesis
    using enqueue_dma_ok [OF assms mask_len_ok] assms(2) rate mask_addr [of "value"]
    by (auto simp: ai_write_paddr32_def intro!: ai_ok_map) (auto simp: ai_regs_ok_def)
qed

lemma ai_pending_events:
  "ai_pending s = size (filter_mset (\<lambda>e. snd e = Timer On_ai_dma_complete) (events s))"
  by (simp add: ai_pending_mset events_def named_part_def filter_mset_image_mset split_beta comp_def)

lemma ai_of_more: "sched_state.more s = sched_state.more t \<Longrightarrow> ai s = ai t \<and> mem s = mem t"
  by (cases s; cases t) simp

text \<open>The slot that plays next, and the register quirk that carries its address over 8 KB when the
  finished buffer ended on such a boundary.\<close>

lemma start_next_dma_front:
  "start_next_dma s = Inr s' \<Longrightarrow> fifo_count (ai s) > 0 \<Longrightarrow> ai_length (ai s') = ai_length (ai s) \<and>
     ai_addr (ai s') = (fst (ai_addr (ai s)) + (if delayed_carry (ai s) then 0x2000 else 0), snd (ai_addr (ai s)))"
  by (auto simp: start_next_dma_def push_dma_audio_def Let_def bindR_eq_Inr split: if_splits)

lemma complete_front:
  assumes "on_ai_dma_complete s = Inr s'" and "fifo_count (ai s) = 2"
  shows "ai_length (ai s') = (snd (ai_length (ai s)), 0)"
    and "ai_addr (ai s') = (snd (ai_addr (ai s)) +
      (if (fst (ai_addr (ai s)) + fst (ai_length (ai s))) AND 0x1FFF = 0 then 0x2000 else 0), 0)"
  using assms by (auto simp: on_ai_dma_complete_def Let_def dest!: start_next_dma_front)

text \<open>C11: when the scheduler dispatches the completion of a buffer, the handler runs without
  error and re-establishes the FIFO invariant (so the next buffer, if any, has its own completion
  scheduled), with one buffer less; with two buffers queued it is the first that goes and the second
  that moves to the front, its address carried over 8 KB when the first ended on such a boundary; the
  interrupt line stays consistent.\<close>

theorem ai_completion:
  assumes "mem_ok s" and "ai_ok s" and "irq_line_ok s"
    and "dispatches perform s (t, Timer On_ai_dma_complete) s1"
  shows "\<exists>s'. on_ai_dma_complete s1 = Inr s' \<and> ai_ok s' \<and> irq_line_ok s' \<and>
    fifo_count (ai s') = fifo_count (ai s) - 1 \<and>
    (fifo_count (ai s) = 2 \<longrightarrow> ai_length (ai s') = (snd (ai_length (ai s)), 0) \<and>
       ai_addr (ai s') = (snd (ai_addr (ai s)) +
         (if (fst (ai_addr (ai s)) + fst (ai_length (ai s))) AND 0x1FFF = 0 then 0x2000 else 0), 0))"
proof -
  have d: "events s = add_mset (t, Timer On_ai_dma_complete) (events s1)"
    "sched_state.more s1 = sched_state.more s" "cop0 s1 = cop0 s" "mi s1 = mi s"
    using assms(4) by (simp_all add: dispatches_def)
  then have "ai_pending s = Suc (ai_pending s1)" by (simp add: ai_pending_events)
  with assms(2) have p: "ai_pending s1 = 0" "fifo_count (ai s) > 0" "ai_regs_ok (ai s)"
    by (auto simp: ai_ok_def split: if_splits)
  have a: "ai s1 = ai s" "mem s1 = mem s" using ai_of_more [OF d(2)] by simp_all
  then have "mem_ok s1" using assms(1) by (simp add: mem_ok_def)
  from on_ai_dma_complete_ok [OF this _ _ p(1)] p a obtain s' where
    "on_ai_dma_complete s1 = Inr s'" "ai_ok s'" "fifo_count (ai s') = fifo_count (ai s) - 1"
    "irq_line_ok s1 \<longrightarrow> irq_line_ok s'" by auto
  moreover have "irq_line_ok s1"
    using assms(3) d by (simp add: irq_line_ok_def irq_line_def pending_def enabled_def)
  moreover note complete_front [OF \<open>on_ai_dma_complete s1 = Inr s'\<close>, unfolded a]
  ultimately show ?thesis by blast
qed

text \<open>The register that reports how much of a buffer is left to play never reports more than
  the buffer holds, reports whole stereo samples, and 0 when nothing plays.\<close>

theorem ai_remaining_bounds:
  assumes "ai_ok s"
  shows "unat (bytes_remaining s) mod 4 = 0 \<and>
    (if fifo_count (ai s) = 0 then bytes_remaining s = 0
     else unat (bytes_remaining s) \<le> unat (fst (ai_length (ai s))))"
proof -
  let ?a = "ai s"
  let ?el = "sc_time (sched s) - dma_start_time ?a"
  let ?total = "ucast (fst (ai_length ?a)) :: u64"
  let ?done = "(?el * ?total div dma_duration_cycles ?a) AND NOT 3"
  have len: "fifo_count ?a \<noteq> 0 \<Longrightarrow> unat (fst (ai_length ?a)) mod 8 = 0"
    using assms by (auto simp: ai_ok_def ai_regs_ok_def len_ok_def)
  have done4: "unat ?done mod 4 = 0"
    using unat_and_not_mask [of "?el * ?total div dma_duration_cycles ?a" 2] by (simp add: mask_eq_exp_minus_1)
  have sub: "unat (ucast (?total - ?done) :: u32) = unat ?total - unat ?done" if "?total > ?done"
  proof -
    have "unat (?total - ?done) = unat ?total - unat ?done" using that by (simp add: unat_sub less_imp_le)
    moreover have "unat ?total - unat ?done < 2 ^ 32" using u32_less [of "fst (ai_length ?a)"] by (simp add: unat_up)
    ultimately show ?thesis by (simp add: unsigned_ucast_eq take_bit_eq_mod)
  qed
  have "(unat ?total - unat ?done) mod 4 = 0" if "fifo_count ?a \<noteq> 0" "?total > ?done"
    using len [OF that(1)] done4 that(2) unfolding unat_up word_less_nat_alt by presburger
  then show ?thesis
    using len sub by (auto simp: bytes_remaining_def Let_def unat_up mod_eq_0_iff_dvd intro: dvd_trans [of 4 8])
qed

end
