(* ===== verification/PI.thy ===== *)
theory PI
  imports AI
begin

text \<open>
  The peripheral interface (\<open>src/mmio/pi.cpp\<close>): the registers of the cartridge bus and the DMA
  between the cartridge (ROM or save RAM) and RDRAM. The data moves at once; a timer then reports
  completion.
\<close>

section \<open>State\<close>

record pi_regs =
  pi_dram_addr :: u32
  pi_cart_addr :: u32
  pi_rd_len :: u32
  pi_wr_len :: u32
  pi_status :: u32
  pi_dom1_lat :: u32
  pi_dom1_pwd :: u32
  pi_dom1_pgs :: u32
  pi_dom1_rls :: u32
  pi_dom2_lat :: u32
  pi_dom2_pwd :: u32
  pi_dom2_pgs :: u32
  pi_dom2_rls :: u32

record pi_state = ai_state +
  pi_if :: pi_regs

abbreviation (input) "PI_DMA_BUSY \<equiv> 1 :: u32"
abbreviation (input) "PI_INTERRUPT \<equiv> 8 :: u32"

definition map_pi :: "(pi_regs \<Rightarrow> pi_regs) \<Rightarrow> 'a pi_state_scheme \<Rightarrow> 'a pi_state_scheme" where
  "map_pi f s = s\<lparr>pi_if := f (pi_if s)\<rparr>"

definition pi_reset :: "'a pi_state_scheme \<Rightarrow> 'a pi_state_scheme" where
  "pi_reset = map_pi (\<lambda>_. \<lparr>pi_dram_addr = 0, pi_cart_addr = 0, pi_rd_len = 0x7f, pi_wr_len = 0x7f,
     pi_status = 0, pi_dom1_lat = 0, pi_dom1_pwd = 0, pi_dom1_pgs = 0, pi_dom1_rls = 0,
     pi_dom2_lat = 0, pi_dom2_pwd = 0, pi_dom2_pgs = 0, pi_dom2_rls = 0\<rparr>)"

definition pi_read_paddr32 :: "u32 \<Rightarrow> 'a pi_state_scheme \<Rightarrow> u32 res" where
  "pi_read_paddr32 paddr s =
     (let r = pi_if s
      in if paddr = 0x04600000 then ok (pi_dram_addr r)
         else if paddr = 0x04600004 then ok (pi_cart_addr r)
         else if paddr = 0x04600008 then ok (pi_rd_len r)
         else if paddr = 0x0460000C then ok (pi_wr_len r)
         else if paddr = 0x04600010 then ok (pi_status r)
         else if paddr = 0x04600014 then ok (pi_dom1_lat r)
         else if paddr = 0x04600018 then ok (pi_dom1_pwd r)
         else if paddr = 0x0460001C then ok (pi_dom1_pgs r)
         else if paddr = 0x04600020 then ok (pi_dom1_rls r)
         else if paddr = 0x04600024 then ok (pi_dom2_lat r)
         else if paddr = 0x04600028 then ok (pi_dom2_pwd r)
         else if paddr = 0x0460002C then ok (pi_dom2_pgs r)
         else if paddr = 0x04600030 then ok (pi_dom2_rls r)
         else Inl Aborted)"

section \<open>DMA\<close>

text \<open>Length and addresses of a transfer, as both directions compute them.\<close>

definition pi_dma_dram :: "pi_regs \<Rightarrow> u32" where
  "pi_dma_dram r = pi_dram_addr r AND 0x007FFFFE"

definition pi_dma_cart :: "pi_regs \<Rightarrow> u32" where
  "pi_dma_cart r = pi_cart_addr r AND 0xFFFFFFFE"

definition pi_dma_length :: "u32 \<Rightarrow> u32 \<Rightarrow> u32" where
  "pi_dma_length len_reg dram_addr =
     (let l = (len_reg AND 0x00FFFFFF) + 1
      in if dram_addr AND 7 \<noteq> 0 \<and> l \<ge> 7 then l - (dram_addr AND 7) else l)"

definition pi_finish :: "u32 \<Rightarrow> u32 \<Rightarrow> u32 \<Rightarrow> callback \<Rightarrow> 'a pi_state_scheme \<Rightarrow> 'a pi_state_scheme" where
  "pi_finish dram_addr cart_addr len cb s =
     set_timer (ucast (len div 8)) cb
       (map_pi (\<lambda>r. r\<lparr>pi_status := pi_status r OR PI_DMA_BUSY,
                       pi_dram_addr := dram_addr + len, pi_cart_addr := cart_addr + len\<rparr>) s)"

text \<open>Cartridge to RDRAM.\<close>

definition sram_offset :: "u32 \<Rightarrow> nat \<Rightarrow> bytes \<Rightarrow> u32" where
  "sram_offset cart_addr i sr =
     ((cart_addr - 0x08000000) + word_of_nat i) AND (word_of_nat (bytes_len sr) - 1)"

definition pi_copy_to_rdram :: "u32 \<Rightarrow> u32 \<Rightarrow> u32 \<Rightarrow> 'a pi_state_scheme \<Rightarrow> 'a pi_state_scheme res" where
  "pi_copy_to_rdram cart_addr dram_addr len s =
     (let sr = sram (mem s)
      in if bytes_len sr \<noteq> 0 \<and> 0x08000000 \<le> cart_addr \<and> cart_addr < 0x10000000 then
           map_rdram (for_loop (unat len) (\<lambda>i m.
             bindR (get_plain sr (sram_offset cart_addr i sr))
               (\<lambda>b. write_to_byte_array8 ((dram_addr + word_of_nat i) AND RDRAM_SIZE_MASK) b m))) s
         else if 0x10000000 \<le> cart_addr then
           map_rdram (for_loop (unat len) (\<lambda>i m.
             bindR (read_offset8 (rom (mem s)) (cart_addr - 0x10000000 + word_of_nat i))
               (\<lambda>b. write_to_byte_array8 ((dram_addr + word_of_nat i) AND RDRAM_SIZE_MASK) b m))) s
         else Inl Unimplemented)"

definition pi_dma_write :: "'a pi_state_scheme \<Rightarrow> 'a pi_state_scheme res" where
  "pi_dma_write s =
     (let dram_addr = pi_dma_dram (pi_if s);
          cart_addr = pi_dma_cart (pi_if s);
          len = pi_dma_length (pi_wr_len (pi_if s)) dram_addr;
          s1 = map_pi (\<lambda>r. r\<lparr>pi_wr_len := len\<rparr>) s;
          s2 = on_rdram_write (dram_addr AND RDRAM_SIZE_MASK) len s1
      in bindR (pi_copy_to_rdram cart_addr dram_addr len s2) (\<lambda>s3.
           let s4 = maybe_invalidate_code (dram_addr AND RDRAM_SIZE_MASK) len s3
           in ok (pi_finish dram_addr cart_addr len On_pi_dma_write_completed s4)))"

text \<open>RDRAM to save RAM.\<close>

definition pi_copy_from_rdram :: "u32 \<Rightarrow> u32 \<Rightarrow> u32 \<Rightarrow> 'a pi_state_scheme \<Rightarrow> 'a pi_state_scheme res" where
  "pi_copy_from_rdram cart_addr dram_addr len s =
     (let sr = sram (mem s)
      in if 0x08000000 \<le> cart_addr \<and> cart_addr < 0x10000000 then
           (if bytes_len sr \<noteq> 0 then
              map_sram (for_loop (unat len) (\<lambda>i m.
                bindR (read_from_byte_array8 (rdram (mem s))
                         ((dram_addr + word_of_nat i) AND RDRAM_SIZE_MASK))
                  (\<lambda>b. put_plain (sram_offset cart_addr i sr) b m))) s
            else ok s)
         else if 0x10000000 \<le> cart_addr then ok s
         else Inl Unimplemented)"

definition pi_dma_read :: "'a pi_state_scheme \<Rightarrow> 'a pi_state_scheme res" where
  "pi_dma_read s =
     (let dram_addr = pi_dma_dram (pi_if s);
          cart_addr = pi_dma_cart (pi_if s);
          len = pi_dma_length (pi_rd_len (pi_if s)) dram_addr;
          s1 = map_pi (\<lambda>r. r\<lparr>pi_rd_len := len\<rparr>) s;
          s2 = check_framebuffers (dram_addr AND RDRAM_SIZE_MASK) len s1
      in bindR (pi_copy_from_rdram cart_addr dram_addr len s2) (\<lambda>s3.
           ok (pi_finish dram_addr cart_addr len On_pi_dma_read_completed s3)))"

text \<open>The two completion handlers do the same.\<close>

definition on_pi_dma_completed :: "'a pi_state_scheme \<Rightarrow> 'a pi_state_scheme" where
  "on_pi_dma_completed s =
     raise_intr INTR_PI
       (map_pi (\<lambda>r. r\<lparr>pi_status := (pi_status r AND NOT PI_DMA_BUSY) OR PI_INTERRUPT\<rparr>) s)"

definition pi_write_status :: "u32 \<Rightarrow> 'a pi_state_scheme \<Rightarrow> 'a pi_state_scheme" where
  "pi_write_status v s =
     (let s1 = (if v AND 1 \<noteq> 0 then map_pi (\<lambda>r. r\<lparr>pi_status := 0\<rparr>) s else s)
      in if v AND 2 \<noteq> 0
         then lower_intr INTR_PI (map_pi (\<lambda>r. r\<lparr>pi_status := pi_status r AND NOT PI_INTERRUPT\<rparr>) s1)
         else s1)"

definition pi_write_paddr32 :: "u32 \<Rightarrow> u32 \<Rightarrow> 'a pi_state_scheme \<Rightarrow> 'a pi_state_scheme res" where
  "pi_write_paddr32 paddr v s =
     (if paddr = 0x04600000 then ok (map_pi (\<lambda>r. r\<lparr>pi_dram_addr := v\<rparr>) s)
      else if paddr = 0x04600004 then ok (map_pi (\<lambda>r. r\<lparr>pi_cart_addr := v\<rparr>) s)
      else if paddr = 0x04600008 then
        pi_dma_read (map_pi (\<lambda>r. r\<lparr>pi_rd_len := v AND 0x00FFFFFF\<rparr>) s)
      else if paddr = 0x0460000C then
        pi_dma_write (map_pi (\<lambda>r. r\<lparr>pi_wr_len := v AND 0x00FFFFFF\<rparr>) s)
      else if paddr = 0x04600010 then ok (pi_write_status v s)
      else if paddr = 0x04600014 then ok (map_pi (\<lambda>r. r\<lparr>pi_dom1_lat := v AND 0xFF\<rparr>) s)
      else if paddr = 0x04600018 then ok (map_pi (\<lambda>r. r\<lparr>pi_dom1_pwd := v AND 0xFF\<rparr>) s)
      else if paddr = 0x0460001C then ok (map_pi (\<lambda>r. r\<lparr>pi_dom1_pgs := v AND 0xFF\<rparr>) s)
      else if paddr = 0x04600020 then ok (map_pi (\<lambda>r. r\<lparr>pi_dom1_rls := v AND 0xFF\<rparr>) s)
      else if paddr = 0x04600024 then ok (map_pi (\<lambda>r. r\<lparr>pi_dom2_lat := v AND 0xFF\<rparr>) s)
      else if paddr = 0x04600028 then ok (map_pi (\<lambda>r. r\<lparr>pi_dom2_pwd := v AND 0xFF\<rparr>) s)
      else if paddr = 0x0460002C then ok (map_pi (\<lambda>r. r\<lparr>pi_dom2_pgs := v AND 0xFF\<rparr>) s)
      else if paddr = 0x04600030 then ok (map_pi (\<lambda>r. r\<lparr>pi_dom2_rls := v AND 0xFF\<rparr>) s)
      else Inl Aborted)"

section \<open>The bytes a transfer moves\<close>

lemma on_rdram_write_frame [simp]:
  "mem (on_rdram_write a l s) = mem s" "dcache (on_rdram_write a l s) = dcache s"
  "hook (on_rdram_write a l s) = hook s" "sched (on_rdram_write a l s) = sched s"
  "pi_if (on_rdram_write a l s) = pi_if s"
  "mem (check_framebuffers a l s) = mem s" "sched (check_framebuffers a l s) = sched s"
  "pi_if (check_framebuffers a l s) = pi_if s"
  by (simp_all add: on_rdram_write_def check_framebuffers_def maybe_mark_vi_fb_dirty_def map_rdp_def Let_def)


text \<open>The byte of the cartridge that byte \<open>i\<close> of a transfer comes from, as the console sees it.\<close>

definition cart_byte :: "'a mem_state_scheme \<Rightarrow> u32 \<Rightarrow> nat \<Rightarrow> u8" where
  "cart_byte s cart_addr i =
     (if bytes_len (sram (mem s)) \<noteq> 0 \<and> 0x08000000 \<le> cart_addr \<and> cart_addr < 0x10000000
      then bytes_at (sram (mem s)) (unat (sram_offset cart_addr i (sram (mem s))))
      else n64_byte (rom_data (rom (mem s))) (cart_addr - 0x10000000 + word_of_nat i))"

text \<open>Where a transfer can read: the save RAM if there is one, or the image array.\<close>

definition cart_readable :: "'a mem_state_scheme \<Rightarrow> u32 \<Rightarrow> u32 \<Rightarrow> bool" where
  "cart_readable s cart_addr len \<longleftrightarrow>
     bytes_len (sram (mem s)) \<noteq> 0 \<and> 0x08000000 \<le> cart_addr \<and> cart_addr < 0x10000000 \<or>
     0x10000000 \<le> cart_addr \<and> unat cart_addr - 0x10000000 + unat len \<le> ROM_SIZE"

lemma sram_offset_in:
  assumes "mem_ok s" and "bytes_len (sram (mem s)) \<noteq> 0"
  shows "unat (sram_offset c i (sram (mem s))) < bytes_len (sram (mem s))"
proof -
  have l: "bytes_len (sram (mem s)) = 0x8000" using assms by (auto simp: mem_ok_def)
  have "sram_offset c i (sram (mem s)) \<le> 0x7FFF"
    unfolding sram_offset_def l by (simp add: word_and_le1)
  then show ?thesis by (simp add: l word_le_nat_alt)
qed

lemma rom_byte_in:
  assumes "mem_ok s" and "0x10000000 \<le> c" and "unat c - 0x10000000 + n \<le> ROM_SIZE" and "i < n"
  shows "read_offset8 (rom (mem s)) (c - 0x10000000 + word_of_nat i) =
    Inr (n64_byte (rom_data (rom (mem s))) (c - 0x10000000 + word_of_nat i))"
proof -
  have c: "unat (c - 0x10000000) = unat c - 0x10000000" using assms(2) by (simp add: unat_sub)
  have "unat c - 0x10000000 + i < 0xF0000000" using assms(3,4) by (simp add: ROM_SIZE_def)
  then have "unat (c - 0x10000000 + word_of_nat i) = unat c - 0x10000000 + i"
    by (simp add: unat_word_ariths c unat_of_nat take_bit_eq_mod)
  then have "in_range (rom_data (rom (mem s))) (c - 0x10000000 + word_of_nat i)"
    using assms(1,3,4) by (simp add: in_range_def word_sized_def mem_ok_def ROM_SIZE_def)
  then show ?thesis by (simp add: read_offset8_def)
qed

lemma pi_copy_to_rdram_ok:
  assumes ok: "mem_ok s" and rd: "cart_readable s cart_addr len" and n: "unat len \<le> 0x800000"
  shows "\<exists>m. pi_copy_to_rdram cart_addr dram_addr len s = Inr (s\<lparr>mem := (mem s)\<lparr>rdram := m\<rparr>\<rparr>) \<and>
    bytes_len m = 0x800000 \<and>
    (\<forall>i<unat len. n64_byte m (rdram_dst dram_addr i) = cart_byte s cart_addr i) \<and>
    (\<forall>b. b \<notin> rdram_dst dram_addr ` {..<unat len} \<longrightarrow> n64_byte m b = n64_byte (rdram (mem s)) b)"
proof -
  have len: "bytes_len (rdram (mem s)) = 0x800000" using ok by (simp add: mem_ok_def)
  obtain m where m: "rdram_fill dram_addr (cart_byte s cart_addr) (unat len) (rdram (mem s)) = Inr m"
      "bytes_len m = 0x800000"
      "\<forall>i<unat len. n64_byte m (rdram_dst dram_addr i) = cart_byte s cart_addr i"
      "\<forall>b. b \<notin> rdram_dst dram_addr ` {..<unat len} \<longrightarrow> n64_byte m b = n64_byte (rdram (mem s)) b"
    using rdram_fill_ok [OF len n] by blast
  let ?sr = "sram (mem s)"
  show ?thesis
  proof (cases "bytes_len ?sr \<noteq> 0 \<and> 0x08000000 \<le> cart_addr \<and> cart_addr < 0x10000000")
    case True
    then have b: "get_plain ?sr (sram_offset cart_addr i ?sr) = Inr (cart_byte s cart_addr i)" for i
      using sram_offset_in [OF ok] by (simp add: get_plain_def cart_byte_def)
    have "pi_copy_to_rdram cart_addr dram_addr len s =
        map_rdram (rdram_fill dram_addr (cart_byte s cart_addr) (unat len)) s"
      using True unfolding pi_copy_to_rdram_def Let_def b rdram_fill_def rdram_dst_def by simp
    with m show ?thesis by (auto simp: map_rdram_def)
  next
    case False
    with rd have c: "0x10000000 \<le> cart_addr" "unat cart_addr - 0x10000000 + unat len \<le> ROM_SIZE"
      by (auto simp: cart_readable_def)
    have b: "read_offset8 (rom (mem s)) (cart_addr - 0x10000000 + word_of_nat i) =
        Inr (cart_byte s cart_addr i)" if "i < unat len" for i
      using False rom_byte_in [OF ok c that] unfolding cart_byte_def by (simp only: if_False)
    have "for_loop (unat len) (\<lambda>i m. bindR (read_offset8 (rom (mem s)) (cart_addr - 0x10000000 + word_of_nat i))
          (\<lambda>b. write_to_byte_array8 ((dram_addr + word_of_nat i) AND RDRAM_SIZE_MASK) b m)) m0 =
        rdram_fill dram_addr (cart_byte s cart_addr) (unat len) m0" for m0
      unfolding rdram_fill_def by (rule for_loop_cong) (simp add: b rdram_dst_def)
    then have "pi_copy_to_rdram cart_addr dram_addr len s =
        map_rdram (rdram_fill dram_addr (cart_byte s cart_addr) (unat len)) s"
      using False c(1) unfolding pi_copy_to_rdram_def Let_def map_rdram_def by (simp only: if_False if_True)
    with m show ?thesis by (auto simp: map_rdram_def)
  qed
qed

lemma cart_byte_cong:
  "mem s = mem t \<Longrightarrow> cart_byte s = cart_byte t" "mem s = mem t \<Longrightarrow> cart_readable s = cart_readable t"
  by (intro ext, simp only: cart_byte_def cart_readable_def)+

lemma pi_dma_dram_mask [simp]: "pi_dma_dram r AND RDRAM_SIZE_MASK = pi_dma_dram r"
  by (simp add: pi_dma_dram_def and.assoc)

lemma map_pi_frame [simp]:
  "mem (map_pi f s) = mem s" "dcache (map_pi f s) = dcache s" "hook (map_pi f s) = hook s"
  "sched (map_pi f s) = sched s" "pi_if (map_pi f s) = f (pi_if s)"
  by (simp_all add: map_pi_def)

lemma maybe_invalidate_frame [simp]:
  "mem (maybe_invalidate_code p n s) = mem s" "sched (maybe_invalidate_code p n s) = sched s"
  "pi_if (maybe_invalidate_code p n t) = pi_if t"
  by (simp_all add: maybe_invalidate_code_def map_dcache_def split: code_hook.split)

lemma pi_finish_simps [simp]:
  "mem (pi_finish d c l cb s) = mem s" "dcache (pi_finish d c l cb s) = dcache s"
  "now (pi_finish d c l cb s) = now s"
  "events (pi_finish d c l cb s) = add_mset (now s + ucast (l div 8), Timer cb) (events s)"
  "pi_if (pi_finish d c l cb s) = (pi_if s)\<lparr>pi_status := pi_status (pi_if s) OR PI_DMA_BUSY,
     pi_dram_addr := d + l, pi_cart_addr := c + l\<rparr>"
  by (simp_all add: pi_finish_def set_timer_def events_def mset_q_push named_part_def now_def)

lemma events_sched: "sched s = sched t \<Longrightarrow> events s = events t \<and> now s = now t"
  by (simp add: events_def named_part_def now_def)

lemma pi_dma_write_result:
  assumes "mem_ok s" and "cart_readable s c len" and "unat len \<le> 0x800000"
    and "d = pi_dma_dram (pi_if s)" and "c = pi_dma_cart (pi_if s)"
    and "len = pi_dma_length (pi_wr_len (pi_if s)) d"
  shows "\<exists>m t. pi_dma_write s = Inr (pi_finish d c len On_pi_dma_write_completed
      (maybe_invalidate_code d len (t\<lparr>mem := (mem t)\<lparr>rdram := m\<rparr>\<rparr>))) \<and>
    mem t = mem s \<and> sched t = sched s \<and> dcache t = dcache s \<and> hook t = hook s \<and>
    pi_status (pi_if t) = pi_status (pi_if s) \<and> bytes_len m = 0x800000 \<and>
    (\<forall>i<unat len. n64_byte m (rdram_dst d i) = cart_byte s c i) \<and>
    (\<forall>b. b \<notin> rdram_dst d ` {..<unat len} \<longrightarrow> n64_byte m b = n64_byte (rdram (mem s)) b)"
proof -
  let ?t = "on_rdram_write d len (map_pi (\<lambda>r. r\<lparr>pi_wr_len := len\<rparr>) s)"
  have t: "mem ?t = mem s" by simp
  then have "mem_ok ?t" "cart_readable ?t c len" using assms(1,2) cart_byte_cong(2) [OF t] by (simp_all add: mem_ok_def)
  from pi_copy_to_rdram_ok [OF this assms(3), of d] obtain m where
    m: "pi_copy_to_rdram c d len ?t = Inr (?t\<lparr>mem := (mem ?t)\<lparr>rdram := m\<rparr>\<rparr>)" "bytes_len m = 0x800000"
      "\<forall>i<unat len. n64_byte m (rdram_dst d i) = cart_byte ?t c i"
      "\<forall>b. b \<notin> rdram_dst d ` {..<unat len} \<longrightarrow> n64_byte m b = n64_byte (rdram (mem ?t)) b" by blast
  have "pi_dma_write s = Inr (pi_finish d c len On_pi_dma_write_completed
      (maybe_invalidate_code d len (?t\<lparr>mem := (mem ?t)\<lparr>rdram := m\<rparr>\<rparr>)))"
    unfolding pi_dma_write_def Let_def using m(1) by (simp add: assms(4-6))
  moreover have "pi_status (pi_if ?t) = pi_status (pi_if s)" by simp
  ultimately show ?thesis using m cart_byte_cong(1) [OF t] t by (intro exI [of _ m] exI [of _ ?t]) simp
qed

text \<open>C10: a cartridge-to-RDRAM transfer that stays inside the cartridge puts byte after byte of the
  cartridge at consecutive console addresses (wrapping at 8 MB), changes no other byte of RDRAM,
  marks the DMA busy, advances both address registers and schedules exactly one completion, an
  eighth of the length from now.\<close>

theorem pi_dma_write_copies:
  assumes "mem_ok s" and "cart_readable s c len" and "unat len \<le> 0x800000"
    and "d = pi_dma_dram (pi_if s)" and "c = pi_dma_cart (pi_if s)"
    and "len = pi_dma_length (pi_wr_len (pi_if s)) d"
  shows "\<exists>s'. pi_dma_write s = Inr s' \<and>
    (\<forall>i<unat len. n64_byte (rdram (mem s')) (rdram_dst d i) = cart_byte s c i) \<and>
    (\<forall>b. b \<notin> rdram_dst d ` {..<unat len} \<longrightarrow>
       n64_byte (rdram (mem s')) b = n64_byte (rdram (mem s)) b) \<and>
    bit (pi_status (pi_if s')) 0 \<and> pi_dram_addr (pi_if s') = d + len \<and>
    pi_cart_addr (pi_if s') = c + len \<and>
    events s' = add_mset (now s + ucast (len div 8), Timer On_pi_dma_write_completed) (events s)"
proof -
  from pi_dma_write_result [OF assms] obtain m t where
    "pi_dma_write s = Inr (pi_finish d c len On_pi_dma_write_completed
      (maybe_invalidate_code d len (t\<lparr>mem := (mem t)\<lparr>rdram := m\<rparr>\<rparr>)))"
    "sched t = sched s"
    "\<forall>i<unat len. n64_byte m (rdram_dst d i) = cart_byte s c i"
    "\<forall>b. b \<notin> rdram_dst d ` {..<unat len} \<longrightarrow> n64_byte m b = n64_byte (rdram (mem s)) b" by blast
  moreover have "events (maybe_invalidate_code d len (t\<lparr>mem := (mem t)\<lparr>rdram := m\<rparr>\<rparr>)) = events s \<and>
      now (maybe_invalidate_code d len (t\<lparr>mem := (mem t)\<lparr>rdram := m\<rparr>\<rparr>)) = now s"
    by (rule events_sched) (simp add: calculation(2))
  ultimately show ?thesis by (simp add: bit_or_iff)
qed

text \<open>C20: a cartridge transfer that does not wrap around the end of RDRAM leaves no stale decoded
  instruction behind.\<close>

theorem pi_dma_write_coherent:
  assumes "mem_ok s" and "cart_readable s c len" and "unat d + unat len \<le> 0x800000"
    and "d = pi_dma_dram (pi_if s)" and "c = pi_dma_cart (pi_if s)"
    and "len = pi_dma_length (pi_wr_len (pi_if s)) d"
    and "code_coherent s" and "hook s = Interp_hook"
  shows "\<exists>s'. pi_dma_write s = Inr s' \<and> code_coherent s'"
proof -
  have n: "unat len \<le> 0x800000" using assms(3) by simp
  from pi_dma_write_result [OF assms(1,2) n assms(4-6)] obtain m t where
    r: "pi_dma_write s = Inr (pi_finish d c len On_pi_dma_write_completed
      (maybe_invalidate_code d len (t\<lparr>mem := (mem t)\<lparr>rdram := m\<rparr>\<rparr>)))"
    and t: "mem t = mem s" "dcache t = dcache s" "hook t = hook s" and m: "bytes_len m = 0x800000"
    and out: "\<forall>b. b \<notin> rdram_dst d ` {..<unat len} \<longrightarrow> n64_byte m b = n64_byte (rdram (mem s)) b"
    by blast
  have dst: "unat d \<le> unat (rdram_dst d i) \<and> unat (rdram_dst d i) < unat d + unat len" if "i < unat len" for i
    using rdram_dst_low [of d i] that assms(3) by simp
  have "code_coherent (maybe_invalidate_code d len (t\<lparr>mem := (mem t)\<lparr>rdram := m\<rparr>\<rparr>))"
  proof (rule coherent_store)
    show "code_coherent t" using assms(7) t code_coherent_cong [of t s] by simp
    show "hook t = Interp_hook" "bytes_len m = 0x800000" using assms(8) t m by simp_all
    show "bytes_len (rdram (mem t)) = 0x800000" using assms(1) t by (simp add: mem_ok_def)
    fix b assume "n64_byte m b \<noteq> n64_byte (rdram (mem t)) b"
    then have "b \<in> rdram_dst d ` {..<unat len}" using out t by auto
    then show "unat d \<le> unat b \<and> unat b < unat d + unat len" using dst by auto
  qed
  with r show ?thesis using code_coherent_cong
    by (metis pi_finish_simps(1) pi_finish_simps(2))
qed

end
