(* ===== verification/SI.thy ===== *)
theory SI
  imports PI
begin

text \<open>
  The serial interface (\<open>src/mmio/si.cpp\<close>), the joybus processing of the PIF
  (\<open>src/mmio/pif.cpp\<close>) and the controllers (\<open>src/mmio/controller_input.cpp\<close>). The function the
  host installs with \<open>set_host_poll\<close> is external: \<open>host_poll\<close> is its effect on the table of
  controller states, or \<open>None\<close> when none is installed. Pointers into PIF RAM are indices; an
  index outside the 64 bytes is undefined behaviour in the source and \<open>OutOfBounds\<close> here.
\<close>

section \<open>State\<close>

datatype joybus_controller_type = JB_NONE | N64_CONTROLLER | N64_MOUSE

datatype joybus_plugin = PLUGIN_NONE | TRANSFER_PAK | RUMBLE_PAK | MEM_PAK | PLUGIN_RAW

record controller_state =
  byte1 :: u8
  byte2 :: u8
  joy_x :: u8
  joy_y :: u8

record input_state =
  g_states :: "int \<Rightarrow> controller_state"
  host_poll :: "((int \<Rightarrow> controller_state) \<Rightarrow> (int \<Rightarrow> controller_state)) option"

record si_regs =
  pif_ram :: bytes
  si_dram_addr :: u32
  si_pif_addr :: u32
  si_status :: u32
  si_dma_busy :: bool
  input :: input_state

record si_state = pi_state +
  si :: si_regs

definition joycon_type :: joybus_controller_type where
  "joycon_type = N64_CONTROLLER"

definition joycon_plugin :: joybus_plugin where
  "joycon_plugin = PLUGIN_NONE"

abbreviation (input) "kMaxControllers \<equiv> 4 :: int"

definition map_si :: "(si_regs \<Rightarrow> si_regs) \<Rightarrow> 'a si_state_scheme \<Rightarrow> 'a si_state_scheme" where
  "map_si f s = s\<lparr>si := f (si s)\<rparr>"

section \<open>Controllers\<close>

definition no_buttons :: controller_state where
  "no_buttons = \<lparr>byte1 = 0, byte2 = 0, joy_x = 0, joy_y = 0\<rparr>"

definition set_controller_state :: "int \<Rightarrow> controller_state \<Rightarrow> input_state \<Rightarrow> input_state" where
  "set_controller_state channel st i =
     (if channel < 0 \<or> channel \<ge> kMaxControllers then i
      else i\<lparr>g_states := (g_states i)(channel := st)\<rparr>)"

definition get_controller_state :: "int \<Rightarrow> input_state \<Rightarrow> controller_state" where
  "get_controller_state channel i =
     (if channel < 0 \<or> channel \<ge> kMaxControllers then no_buttons else g_states i channel)"

definition poll_host :: "input_state \<Rightarrow> input_state" where
  "poll_host i = (case host_poll i of None \<Rightarrow> i | Some f \<Rightarrow> i\<lparr>g_states := f (g_states i)\<rparr>)"

text \<open>\<open>poll_n64_controller\<close>: the new input state and the state of controller 0.\<close>

definition poll_n64_controller :: "input_state \<Rightarrow> controller_state \<times> input_state" where
  "poll_n64_controller i = (let i' = poll_host i in (get_controller_state 0 i', i'))"

section \<open>Accessing PIF RAM by pointer\<close>

definition pif_get :: "nat \<Rightarrow> si_regs \<Rightarrow> u8 res" where
  "pif_get i r = (if i < bytes_len (pif_ram r) then ok (bytes_at (pif_ram r) i) else Inl OutOfBounds)"

definition pif_set :: "nat \<Rightarrow> u8 \<Rightarrow> si_regs \<Rightarrow> si_regs res" where
  "pif_set i v r = (if i < bytes_len (pif_ram r) then ok (r\<lparr>pif_ram := bytes_set i v (pif_ram r)\<rparr>)
                    else Inl OutOfBounds)"

fun pif_get_n :: "nat \<Rightarrow> nat \<Rightarrow> si_regs \<Rightarrow> u8 list res" where
  "pif_get_n i 0 r = ok []"
| "pif_get_n i (Suc n) r = bindR (pif_get i r) (\<lambda>b. bindR (pif_get_n (i + 1) n r) (\<lambda>bs. ok (b # bs)))"

text \<open>\<open>for (i = 0; i < n; i++) p[i] = v\<close>.\<close>

definition pif_fill :: "nat \<Rightarrow> nat \<Rightarrow> u8 \<Rightarrow> si_regs \<Rightarrow> si_regs res" where
  "pif_fill p n v = for_loop n (\<lambda>i. pif_set (p + i) v)"

section \<open>Joybus commands\<close>

text \<open>\<open>accessory_data_crc\<close>: the bits of the 32 data bytes, most significant first, and then eight
  zero bits go through the shift register.\<close>

definition crc_shift :: "bool \<Rightarrow> u8 \<Rightarrow> u8" where
  "crc_shift b crc =
     (let xor_val = (if crc AND 0x80 \<noteq> 0 then 0x85 else 0x00);
          c1 = push_bit 1 crc;
          c2 = (if b then c1 OR 1 else c1)
      in c2 XOR xor_val)"

definition crc_byte :: "u8 \<Rightarrow> u8 \<Rightarrow> u8" where
  "crc_byte crc d = foldl (\<lambda>c j. crc_shift (bit d j) c) crc [7, 6, 5, 4, 3, 2, 1, 0]"

definition accessory_data_crc :: "u8 list \<Rightarrow> u8" where
  "accessory_data_crc data = foldl crc_byte 0 (take 32 data @ [0])"

definition joybus_info :: "nat \<Rightarrow> si_regs \<Rightarrow> si_regs res" where
  "joybus_info cmd r =
     bindR (case joycon_type of
              JB_NONE \<Rightarrow> ok r
            | N64_CONTROLLER \<Rightarrow> bindR (pif_set (cmd + 3) 0x05 r) (pif_set (cmd + 4) 0x00)
            | N64_MOUSE \<Rightarrow> Inl Aborted)
       (\<lambda>r1. case joycon_plugin of
              PLUGIN_NONE \<Rightarrow> pif_set (cmd + 5) 0x02 r1
            | _ \<Rightarrow> pif_set (cmd + 5) 0x01 r1)"

definition joybus_read_controller :: "nat \<Rightarrow> si_regs \<Rightarrow> si_regs res" where
  "joybus_read_controller cmd r =
     (case joycon_type of
        JB_NONE \<Rightarrow> pif_fill (cmd + 3) 4 0 r
      | N64_CONTROLLER \<Rightarrow>
          (let (c, i') = poll_n64_controller (input r)
           in bindR (pif_set (cmd + 3) (byte1 c) (r\<lparr>input := i'\<rparr>))
                (\<lambda>r1. bindR (pif_set (cmd + 4) (byte2 c) r1)
                (\<lambda>r2. bindR (pif_set (cmd + 5) (joy_x c) r2) (pif_set (cmd + 6) (joy_y c)))))
      | N64_MOUSE \<Rightarrow> Inl Aborted)"

definition accessory_crc_reply :: "u8 list \<Rightarrow> u8" where
  "accessory_crc_reply data =
     (case joycon_plugin of RUMBLE_PAK \<Rightarrow> accessory_data_crc data
      | _ \<Rightarrow> NOT (accessory_data_crc data))"

definition joybus_accessory_read :: "nat \<Rightarrow> si_regs \<Rightarrow> si_regs res" where
  "joybus_accessory_read cmd r =
     bindR (pif_get cmd r) (\<lambda>tx.
       let p = cmd + 2 + unat (tx AND 0x3F);
           fill = (case joycon_plugin of RUMBLE_PAK \<Rightarrow> 0x80 | _ \<Rightarrow> 0)
       in bindR (pif_fill p 32 fill r) (\<lambda>r1.
          bindR (pif_get_n p 32 r1) (\<lambda>data. pif_set (p + 32) (accessory_crc_reply data) r1)))"

definition joybus_accessory_write :: "nat \<Rightarrow> si_regs \<Rightarrow> si_regs res" where
  "joybus_accessory_write cmd r =
     bindR (pif_get cmd r) (\<lambda>tx.
       bindR (pif_get_n (cmd + 5) 32 r) (\<lambda>data.
         pif_set (cmd + 2 + unat (tx AND 0x3F)) (accessory_crc_reply data) r))"

definition process_controller_command :: "nat \<Rightarrow> si_regs \<Rightarrow> si_regs res" where
  "process_controller_command cmd r =
     bindR (pif_get (cmd + 2) r) (\<lambda>c.
       if c = 0x00 \<or> c = 0xFF then joybus_info cmd r
       else if c = 0x01 then joybus_read_controller cmd r
       else if c = 0x02 then joybus_accessory_read cmd r
       else if c = 0x03 then joybus_accessory_write cmd r
       else Inl Aborted)"

text \<open>The loop of \<open>control_write\<close>; a cursor of 0x40 or more leaves it.\<close>

function joybus_loop :: "nat \<Rightarrow> int \<Rightarrow> si_regs \<Rightarrow> si_regs res" where
  "joybus_loop cursor channel r =
     (if cursor < 64 then
        bindR (pif_get cursor r) (\<lambda>b.
          if b = 0x00 then
            (let channel' = channel + 1
             in joybus_loop ((if channel' > 6 then 0x40 else cursor) + 1) channel' r)
          else if b = 0xFD \<or> b = 0xFE then joybus_loop (0x40 + 1) channel r
          else if b = 0xFF \<or> b = 0xB4 \<or> b = 0x56 \<or> b = 0xB8 then joybus_loop (cursor + 1) channel r
          else if channel < 4 then
            bindR (process_controller_command cursor r) (\<lambda>r1.
            bindR (pif_get cursor r1) (\<lambda>tx.
            bindR (pif_get (cursor + 1) r1) (\<lambda>rx.
              joybus_loop (cursor + unat tx + unat (rx AND 0x3F) + 1 + 1) (channel + 1) r1)))
          else Inl Unimplemented)
      else ok r)"
  by pat_completeness auto
termination by (relation "measure (\<lambda>(cursor, _, _). 65 - cursor)") auto

declare joybus_loop.simps [simp del]

definition pif_control_write :: "si_regs \<Rightarrow> si_regs res" where
  "pif_control_write r =
     bindR (pif_get 63 r) (\<lambda>control.
       if control > 1 \<and> control \<noteq> 0x08 then Inl Unimplemented else joybus_loop 0 0 r)"

section \<open>SI registers and DMA\<close>

definition si_reset :: "'a si_state_scheme \<Rightarrow> 'a si_state_scheme" where
  "si_reset = map_si (\<lambda>r. r\<lparr>si_dma_busy := False\<rparr>)"

definition si_finish :: "'a si_state_scheme \<Rightarrow> 'a si_state_scheme" where
  "si_finish s = raise_intr INTR_SI (map_si (\<lambda>r. r\<lparr>si_dma_busy := False\<rparr>) s)"

definition dma_from_pif_to_dram :: "'a si_state_scheme \<Rightarrow> 'a si_state_scheme res" where
  "dma_from_pif_to_dram s =
     bindR (pif_control_write ((si s)\<lparr>si_dma_busy := True\<rparr>)) (\<lambda>r.
       let s1 = s\<lparr>si := r\<rparr>;
           s2 = on_rdram_write (si_dram_addr r) 64 s1
       in bindR (map_rdram (for_loop 64 (\<lambda>i m.
              bindR (pif_get i r)
                (\<lambda>b. write_to_byte_array8 (si_dram_addr r + word_of_nat i) b m))) s2)
            (\<lambda>s3. ok (si_finish s3)))"

definition dma_from_dram_to_pif :: "'a si_state_scheme \<Rightarrow> 'a si_state_scheme res" where
  "dma_from_dram_to_pif s =
     (let s1 = check_framebuffers (si_dram_addr (si s)) 64 (map_si (\<lambda>r. r\<lparr>si_dma_busy := True\<rparr>) s)
      in bindR (for_loop 64 (\<lambda>i r.
              bindR (read_from_byte_array8 (rdram (mem s1)) (si_dram_addr r + word_of_nat i))
                (\<lambda>b. pif_set i b r)) (si s1))
           (\<lambda>r. bindR (pif_control_write r) (\<lambda>r'. ok (si_finish (s1\<lparr>si := r'\<rparr>)))))"

definition si_read_paddr32 :: "u32 \<Rightarrow> 'a si_state_scheme \<Rightarrow> u32 res" where
  "si_read_paddr32 paddr s =
     (if paddr = 0x04800000 then ok (si_dram_addr (si s))
      else if paddr = 0x04800004 \<or> paddr = 0x04800010 then ok (si_pif_addr (si s))
      else if paddr = 0x04800018 then
        ok ((if si_dma_busy (si s) then 1 else 0) OR
            push_bit 12 (if bit (mi_intr (mi s)) INTR_SI then 1 else 0))
      else Inl Aborted)"

definition si_write_paddr32 :: "u32 \<Rightarrow> u32 \<Rightarrow> 'a si_state_scheme \<Rightarrow> 'a si_state_scheme res" where
  "si_write_paddr32 paddr v s =
     (if paddr = 0x04800000 then ok (map_si (\<lambda>r. r\<lparr>si_dram_addr := v AND RDRAM_SIZE_MASK\<rparr>) s)
      else if paddr = 0x04800004 then
        dma_from_pif_to_dram (map_si (\<lambda>r. r\<lparr>si_pif_addr := v AND 0x1FFFFFFF\<rparr>) s)
      else if paddr = 0x04800010 then
        dma_from_dram_to_pif (map_si (\<lambda>r. r\<lparr>si_pif_addr := v AND 0x1FFFFFFF\<rparr>) s)
      else if paddr = 0x04800018 then
        ok (check_interrupt (map_si (\<lambda>r. r\<lparr>si_status := si_status r AND NOT 0x1000\<rparr>)
              (set_mi_intr INTR_SI False s)))
      else Inl Aborted)"

section \<open>Joybus processing keeps to PIF RAM\<close>

definition pif_keeps :: "si_regs \<Rightarrow> si_regs \<Rightarrow> bool" where
  "pif_keeps r r' \<longleftrightarrow> bytes_len (pif_ram r') = bytes_len (pif_ram r) \<and>
     si_dram_addr r' = si_dram_addr r \<and> si_pif_addr r' = si_pif_addr r \<and>
     si_status r' = si_status r \<and> si_dma_busy r' = si_dma_busy r"

lemma pif_keeps_refl [simp]: "pif_keeps r r"
  and pif_keeps_trans: "pif_keeps r r' \<Longrightarrow> pif_keeps r' r'' \<Longrightarrow> pif_keeps r r''"
  by (simp_all add: pif_keeps_def)

lemma keeps_set: "holds_ok (pif_keeps r) (pif_set i v r)"
  by (simp add: pif_set_def pif_keeps_def)

lemma keeps_bind:
  "holds_ok (pif_keeps r) m \<Longrightarrow> (\<And>r'. m = Inr r' \<Longrightarrow> holds_ok (pif_keeps r') (f r')) \<Longrightarrow>
   holds_ok (pif_keeps r) (bindR m f)"
  by (cases m) (auto simp: holds_ok_iff intro: pif_keeps_trans)

lemma keeps_bind_val: "(\<And>x. m = Inr x \<Longrightarrow> holds_ok P (f x)) \<Longrightarrow> holds_ok P (bindR m f)"
  by (cases m) simp_all

lemma keeps_fill: "holds_ok (pif_keeps r) (pif_fill p n v r)"
  unfolding pif_fill_def
proof (rule for_loop_holds)
  fix i r' assume "pif_keeps r r'"
  then show "holds_ok (pif_keeps r) (pif_set (p + i) v r')"
    using keeps_set [of r' "p + i" v] by (auto simp: holds_ok_iff intro: pif_keeps_trans)
qed simp

lemma keeps_input: "pif_keeps (r\<lparr>input := i\<rparr>) r' \<Longrightarrow> pif_keeps r r'"
  by (simp add: pif_keeps_def)

lemma keeps_input_holds: "holds_ok (pif_keeps (r\<lparr>input := i\<rparr>)) m \<Longrightarrow> holds_ok (pif_keeps r) m"
  by (auto simp: holds_ok_iff intro: keeps_input)

lemma keeps_command: "holds_ok (pif_keeps r) (process_controller_command cmd r)"
proof -
  have "holds_ok (pif_keeps r) (joybus_info cmd r)"
    by (auto simp: joybus_info_def joycon_type_def joycon_plugin_def intro!: keeps_bind keeps_set)
  moreover have "holds_ok (pif_keeps r) (joybus_read_controller cmd r)"
    unfolding joybus_read_controller_def joycon_type_def joybus_controller_type.case split_beta Let_def
    by (rule keeps_input_holds [of "snd (poll_n64_controller (input r))"]) (intro keeps_bind keeps_set)
  moreover have "holds_ok (pif_keeps r) (joybus_accessory_read cmd r)"
    unfolding joybus_accessory_read_def Let_def
    by (rule keeps_bind_val, rule keeps_bind [OF keeps_fill], rule keeps_bind_val, rule keeps_set)
  moreover have "holds_ok (pif_keeps r) (joybus_accessory_write cmd r)"
    by (auto simp: joybus_accessory_write_def intro!: keeps_bind_val keeps_set)
  ultimately show ?thesis
    unfolding process_controller_command_def by (intro keeps_bind_val) simp
qed

lemma keeps_loop: "holds_ok (pif_keeps r) (joybus_loop cursor channel r)"
proof (induction cursor channel r rule: joybus_loop.induct)
  case (1 cursor channel r)
  show ?case
  proof (cases "cursor < 64 \<and> cursor < bytes_len (pif_ram r)")
    case True
    then have b: "pif_get cursor r = Inr (bytes_at (pif_ram r) cursor)" by (simp add: pif_get_def)
    let ?b = "bytes_at (pif_ram r) cursor"
    show ?thesis
    proof (cases "?b \<in> {0x00, 0xFD, 0xFE, 0xFF, 0xB4, 0x56, 0xB8} \<or> \<not> channel < 4")
      case simple: True
      show ?thesis using simple True 1(1-3) b by (subst joybus_loop.simps) (auto simp: Let_def)
    next
      case command: False
      have "holds_ok (pif_keeps r) (bindR (process_controller_command cursor r) (\<lambda>r1.
          bindR (pif_get cursor r1) (\<lambda>tx. bindR (pif_get (cursor + 1) r1) (\<lambda>rx.
            joybus_loop (cursor + unat tx + unat (rx AND 0x3F) + 1 + 1) (channel + 1) r1))))"
        using command True b
        by (intro keeps_bind [OF keeps_command] keeps_bind_val 1(4)) auto
      then show ?thesis using command True b by (subst joybus_loop.simps) simp
    qed
  next
    case False
    then show ?thesis by (subst joybus_loop.simps) (auto simp: pif_get_def)
  qed
qed

lemma keeps_control_write: "holds_ok (pif_keeps r) (pif_control_write r)"
  unfolding pif_control_write_def by (intro keeps_bind_val) (simp add: keeps_loop)

section \<open>The DMA transfers\<close>

lemma map_si_frame [simp]:
  "mem (map_si f s) = mem s" "dcache (map_si f s) = dcache s" "si (map_si f s) = f (si s)"
  "mi (map_si f s) = mi s"
  by (simp_all add: map_si_def)

lemma si_finish_frame [simp]:
  "mem (si_finish s) = mem s" "dcache (si_finish s) = dcache s" "pending (si_finish s) (Suc 0)"
  "irq_line_ok (si_finish s)" "si (si_finish s) = (si s)\<lparr>si_dma_busy := False\<rparr>"
proof -
  show "irq_line_ok (si_finish s)" "pending (si_finish s) (Suc 0)"
    by (simp_all add: si_finish_def mi_ctl.pend_raise)
qed (simp_all add: si_finish_def raise_intr_def check_interrupt_def set_cause_def set_mi_intr_def)

lemma on_rdram_write_si [simp]:
  "si (on_rdram_write a l s) = si s" "si (check_framebuffers a l s) = si s"
  by (simp_all add: on_rdram_write_def check_framebuffers_def maybe_mark_vi_fb_dirty_def map_rdp_def Let_def)

lemma unat_add_small: "unat a + k < 0x1000000 \<Longrightarrow> unat ((a :: u32) + word_of_nat k) = unat a + k"
  by (simp add: unat_word_ariths unat_of_nat take_bit_eq_mod)

lemma masked_dst:
  assumes "unat (d :: u32) + 64 \<le> 0x800000" and "i < 64"
  shows "(d + word_of_nat i) AND RDRAM_SIZE_MASK = d + word_of_nat i"
    and "unat (d + word_of_nat i) = unat d + i"
proof -
  show u: "unat (d + word_of_nat i) = unat d + i"
    using assms by (simp add: unat_word_ariths unat_of_nat take_bit_eq_mod)
  then show "(d + word_of_nat i) AND RDRAM_SIZE_MASK = d + word_of_nat i"
    using assms mask_rdram [of "d + word_of_nat i"] by (simp add: word_unat_eq_iff)
qed

lemma dma_from_pif_result:
  assumes "mem_ok s" and "bytes_len (pif_ram (si s)) = 64"
    and d: "unat (si_dram_addr (si s)) + 64 \<le> 0x800000"
    and r: "pif_control_write ((si s)\<lparr>si_dma_busy := True\<rparr>) = Inr r"
  shows "\<exists>m. dma_from_pif_to_dram s =
      Inr (si_finish ((on_rdram_write (si_dram_addr r) 64 (s\<lparr>si := r\<rparr>))\<lparr>mem := (mem s)\<lparr>rdram := m\<rparr>\<rparr>)) \<and>
    si_dram_addr r = si_dram_addr (si s) \<and> bytes_len m = 0x800000 \<and>
    (\<forall>i<64. n64_byte m (si_dram_addr r + word_of_nat i) = bytes_at (pif_ram r) i) \<and>
    (\<forall>b. \<not> (unat (si_dram_addr r) \<le> unat b \<and> unat b < unat (si_dram_addr r) + 64) \<longrightarrow>
       n64_byte m b = n64_byte (rdram (mem s)) b)"
proof -
  have k: "si_dram_addr r = si_dram_addr (si s)" "bytes_len (pif_ram r) = 64"
    using keeps_control_write [of "(si s)\<lparr>si_dma_busy := True\<rparr>"] r assms(2) by (simp_all add: pif_keeps_def)
  let ?d = "si_dram_addr r"
  have d': "unat ?d + 64 \<le> 0x800000" using d k by simp
  have "bytes_len (rdram (mem s)) = 0x800000" using assms(1) by (simp add: mem_ok_def)
  from rdram_fill_ok [OF this, of 64 ?d "bytes_at (pif_ram r)"] obtain m where
    m: "rdram_fill ?d (bytes_at (pif_ram r)) 64 (rdram (mem s)) = Inr m" "bytes_len m = 0x800000"
      "\<forall>i<64. n64_byte m (rdram_dst ?d i) = bytes_at (pif_ram r) i"
      "\<forall>b. b \<notin> rdram_dst ?d ` {..<64} \<longrightarrow> n64_byte m b = n64_byte (rdram (mem s)) b" by auto
  have dst: "rdram_dst ?d i = ?d + word_of_nat i" if "i < 64" for i
    using masked_dst(1) [OF d' that] by (simp add: rdram_dst_def)
  have "for_loop 64 (\<lambda>i m. bindR (pif_get i r) (\<lambda>b. write_to_byte_array8 (?d + word_of_nat i) b m)) m0 =
      rdram_fill ?d (bytes_at (pif_ram r)) 64 m0" for m0
    unfolding rdram_fill_def by (rule for_loop_cong) (simp add: pif_get_def k(2) dst)
  then have "dma_from_pif_to_dram s =
      Inr (si_finish ((on_rdram_write ?d 64 (s\<lparr>si := r\<rparr>))\<lparr>mem := (mem s)\<lparr>rdram := m\<rparr>\<rparr>))"
    using r m(1) by (simp add: dma_from_pif_to_dram_def Let_def map_rdram_def)
  moreover have "b \<notin> rdram_dst ?d ` {..<64}"
    if "\<not> (unat ?d \<le> unat b \<and> unat b < unat ?d + 64)" for b
    using that masked_dst(2) [OF d'] dst by auto
  ultimately show ?thesis using m k dst by auto
qed

text \<open>C21: a read of the PIF stores the 64 bytes that joybus processing left in PIF RAM at the
  programmed address, in console byte order, changes no other byte of RDRAM, clears the busy
  flag and raises the SI interrupt.\<close>

theorem si_dma_read_copies:
  assumes "mem_ok s" and "bytes_len (pif_ram (si s)) = 64"
    and "unat (si_dram_addr (si s)) + 64 \<le> 0x800000"
    and "pif_control_write ((si s)\<lparr>si_dma_busy := True\<rparr>) = Inr r"
  shows "\<exists>s'. dma_from_pif_to_dram s = Inr s' \<and>
    (\<forall>i<64. n64_byte (rdram (mem s')) (si_dram_addr (si s) + word_of_nat i) = bytes_at (pif_ram r) i) \<and>
    (\<forall>b. \<not> (unat (si_dram_addr (si s)) \<le> unat b \<and> unat b < unat (si_dram_addr (si s)) + 64) \<longrightarrow>
       n64_byte (rdram (mem s')) b = n64_byte (rdram (mem s)) b) \<and>
    pif_ram (si s') = pif_ram r \<and> \<not> si_dma_busy (si s') \<and> pending s' INTR_SI \<and> irq_line_ok s'"
proof -
  from dma_from_pif_result [OF assms] obtain m where
    m: "dma_from_pif_to_dram s =
      Inr (si_finish ((on_rdram_write (si_dram_addr r) 64 (s\<lparr>si := r\<rparr>))\<lparr>mem := (mem s)\<lparr>rdram := m\<rparr>\<rparr>))"
    "si_dram_addr r = si_dram_addr (si s)"
    "\<forall>i<64. n64_byte m (si_dram_addr r + word_of_nat i) = bytes_at (pif_ram r) i"
    "\<forall>b. \<not> (unat (si_dram_addr r) \<le> unat b \<and> unat b < unat (si_dram_addr r) + 64) \<longrightarrow>
       n64_byte m b = n64_byte (rdram (mem s)) b" by blast
  show ?thesis by (rule exI, rule conjI, rule m(1)) (use m(2-4) in simp)
qed

lemma be_word_eq: "be_word a b c d = be_word a' b' c' d' \<longleftrightarrow> a = a' \<and> b = b' \<and> c = c' \<and> d = d'"
proof
  assume e: "be_word a b c d = be_word a' b' c' d'"
  show "a = a' \<and> b = b' \<and> c = c' \<and> d = d'"
    using e unfolding be_word_def by (metis byte_of_le32)
qed simp

lemma read32_eq_bytes:
  assumes "aligned4 a" "in_range m a" "in_range m' a" "k < 4"
    and "read_from_byte_array32 m' a = read_from_byte_array32 m a"
  shows "n64_byte m' (a + word_of_nat k) = n64_byte m (a + word_of_nat k)"
proof -
  have "k \<in> {0, 1, 2, 3}" using assms(4) by auto
  then show ?thesis using assms(5) by (auto simp: read32_n64_bytes [OF assms(1)] assms(2,3) be_word_eq)
qed

text \<open>A change of RDRAM that leaves the decode cache alone is harmless exactly when it changes no
  byte of a cached word.\<close>

lemma coherent_after_bytes:
  assumes coh: "code_coherent s" and dc: "dcache s' = dcache s"
    and len: "bytes_len (rdram (mem s)) = 0x800000" "bytes_len (rdram (mem s')) = 0x800000"
  shows "code_coherent s' \<longleftrightarrow>
    \<not> (\<exists>a k. aligned4 a \<and> unat a < 0x800000 \<and> k < 4 \<and> cached (dcache s) a \<noteq> None \<and>
        n64_byte (rdram (mem s')) (a + word_of_nat k) \<noteq> n64_byte (rdram (mem s)) (a + word_of_nat k))"
    (is "_ \<longleftrightarrow> \<not> ?hit")
proof
  assume c: "code_coherent s'"
  show "\<not> ?hit"
  proof
    assume ?hit
    then obtain a k where a: "aligned4 a" "unat a < 0x800000" "k < 4" "cached (dcache s) a \<noteq> None"
      "n64_byte (rdram (mem s')) (a + word_of_nat k) \<noteq> n64_byte (rdram (mem s)) (a + word_of_nat k)" by blast
    then obtain w h where w: "cached (dcache s) a = Some (w, h)" by auto
    have "read_from_byte_array32 (rdram (mem s')) a = read_from_byte_array32 (rdram (mem s)) a"
      using c coh a(1,2) w dc by (simp add: code_coherent_def)
    moreover have "in_range (rdram (mem s)) a" "in_range (rdram (mem s')) a"
      using a(2) len by (simp_all add: in_range_def word_sized_def)
    ultimately show False using read32_eq_bytes [OF a(1) _ _ a(3)] a(5) by blast
  qed
next
  assume n: "\<not> ?hit"
  have "read_from_byte_array32 (rdram (mem s')) a = Inr w \<and> decode w = Inr h"
    if a: "aligned4 a" "unat a < 0x800000" "cached (dcache s') a = Some (w, h)" for a w h
  proof -
    have "in_range (rdram (mem s)) a" "in_range (rdram (mem s')) a"
      using a(2) len by (simp_all add: in_range_def word_sized_def)
    moreover have "n64_byte (rdram (mem s')) (a + word_of_nat k) = n64_byte (rdram (mem s)) (a + word_of_nat k)"
      if "k < 4" for k
      using n a dc that by (metis option.distinct(1))
    ultimately have "read_from_byte_array32 (rdram (mem s')) a = read_from_byte_array32 (rdram (mem s)) a"
      by (rule read32_bytes_eq [OF a(1)])
    then show ?thesis using coh a dc by (simp add: code_coherent_def)
  qed
  then show "code_coherent s'" by (simp add: code_coherent_def)
qed

text \<open>The changed bytes of the cached words are the transferred bytes that differ.\<close>

lemma hit_bytes:
  assumes d: "unat d + 64 \<le> 0x800000"
    and new: "\<forall>i<64. n64_byte m (d + word_of_nat i) = p i"
    and old: "\<forall>b. \<not> (unat d \<le> unat b \<and> unat b < unat d + 64) \<longrightarrow> n64_byte m b = n64_byte m0 b"
  shows "(\<exists>a k. aligned4 a \<and> unat a < 0x800000 \<and> k < 4 \<and> C a \<and>
        n64_byte m (a + word_of_nat k) \<noteq> n64_byte m0 (a + word_of_nat k)) \<longleftrightarrow>
      (\<exists>i a. i < 64 \<and> p i \<noteq> n64_byte m0 (d + word_of_nat i) \<and>
        aligned4 a \<and> unat a \<le> unat d + i \<and> unat d + i < unat a + 4 \<and> C a)" (is "?l \<longleftrightarrow> ?r")
proof
  assume ?l
  then obtain a k where a: "aligned4 a" "unat a < 0x800000" "k < 4" "C a"
    "n64_byte m (a + word_of_nat k) \<noteq> n64_byte m0 (a + word_of_nat k)" by blast
  have ak: "unat (a + word_of_nat k) = unat a + k" using a(2,3) by (intro unat_add_small) auto
  then have r: "unat d \<le> unat a + k" "unat a + k < unat d + 64" using old a(5) by metis+
  let ?i = "unat a + k - unat d"
  have "unat (d + word_of_nat ?i) = unat d + ?i" using d r by (intro unat_add_small) auto
  then have e: "d + word_of_nat ?i = a + word_of_nat k" using ak r by (intro word_unat_eq_iff [THEN iffD2]) simp
  have "?i < 64" "unat a \<le> unat d + ?i" "unat d + ?i < unat a + 4" using r a(3) by auto
  moreover from this(1) have "p ?i = n64_byte m (d + word_of_nat ?i)" using new by metis
  ultimately show ?r using a e by metis
next
  assume ?r
  then obtain i a where a: "i < 64" "p i \<noteq> n64_byte m0 (d + word_of_nat i)" "aligned4 a" "unat a \<le> unat d + i"
    "unat d + i < unat a + 4" "C a" by blast
  let ?k = "unat d + i - unat a"
  have di: "unat (d + word_of_nat i) = unat d + i" using d a(1) by (intro unat_add_small) auto
  have lt: "unat a < 0x800000" "?k < 4" using a d by auto
  then have "unat (a + word_of_nat ?k) = unat a + ?k" by (intro unat_add_small) auto
  then have e: "d + word_of_nat i = a + word_of_nat ?k" using di a(4) by (intro word_unat_eq_iff [THEN iffD2]) simp
  have "n64_byte m (a + word_of_nat ?k) \<noteq> n64_byte m0 (a + word_of_nat ?k)"
    using new a(1,2) e by metis
  with lt a(3,6) show ?l by blast
qed

text \<open>C24: the read of the PIF does not invalidate the decode cache: starting from a coherent cache,
  it leaves a stale decoded instruction exactly when one of the 64 transferred bytes differs from the
  byte it replaces and lies in a cached word of RDRAM, at whatever address the transfer and the word are.\<close>

theorem si_dma_read_stale:
  assumes "mem_ok s" and "bytes_len (pif_ram (si s)) = 64"
    and "unat (si_dram_addr (si s)) + 64 \<le> 0x800000"
    and "pif_control_write ((si s)\<lparr>si_dma_busy := True\<rparr>) = Inr r"
    and "code_coherent s"
  shows "\<exists>s'. dma_from_pif_to_dram s = Inr s' \<and>
    (\<not> code_coherent s' \<longleftrightarrow>
      (\<exists>i a. i < 64 \<and> bytes_at (pif_ram r) i \<noteq> n64_byte (rdram (mem s)) (si_dram_addr (si s) + word_of_nat i) \<and>
        aligned4 a \<and> unat a \<le> unat (si_dram_addr (si s)) + i \<and> unat (si_dram_addr (si s)) + i < unat a + 4 \<and>
        cached (dcache s) a \<noteq> None))"
proof -
  let ?d = "si_dram_addr (si s)"
  from dma_from_pif_result [OF assms(1-4)] obtain m where
    m: "dma_from_pif_to_dram s =
      Inr (si_finish ((on_rdram_write ?d 64 (s\<lparr>si := r\<rparr>))\<lparr>mem := (mem s)\<lparr>rdram := m\<rparr>\<rparr>))"
    "bytes_len m = 0x800000" "\<forall>i<64. n64_byte m (?d + word_of_nat i) = bytes_at (pif_ram r) i"
    "\<forall>b. \<not> (unat ?d \<le> unat b \<and> unat b < unat ?d + 64) \<longrightarrow> n64_byte m b = n64_byte (rdram (mem s)) b"
    by auto
  let ?s' = "si_finish ((on_rdram_write ?d 64 (s\<lparr>si := r\<rparr>))\<lparr>mem := (mem s)\<lparr>rdram := m\<rparr>\<rparr>)"
  have len: "bytes_len (rdram (mem s)) = 0x800000" using assms(1) by (simp add: mem_ok_def)
  have "code_coherent ?s' \<longleftrightarrow>
    \<not> (\<exists>a k. aligned4 a \<and> unat a < 0x800000 \<and> k < 4 \<and> cached (dcache s) a \<noteq> None \<and>
        n64_byte m (a + word_of_nat k) \<noteq> n64_byte (rdram (mem s)) (a + word_of_nat k))"
    using coherent_after_bytes [OF assms(5), of ?s'] len m(2) by simp
  moreover have "(\<exists>a k. aligned4 a \<and> unat a < 0x800000 \<and> k < 4 \<and> cached (dcache s) a \<noteq> None \<and>
        n64_byte m (a + word_of_nat k) \<noteq> n64_byte (rdram (mem s)) (a + word_of_nat k)) \<longleftrightarrow>
      (\<exists>i a. i < 64 \<and> bytes_at (pif_ram r) i \<noteq> n64_byte (rdram (mem s)) (?d + word_of_nat i) \<and>
        aligned4 a \<and> unat a \<le> unat ?d + i \<and> unat ?d + i < unat a + 4 \<and> cached (dcache s) a \<noteq> None)"
    by (rule hit_bytes [OF assms(3) m(3,4)])
  ultimately show ?thesis using m(1) by blast
qed

end
