(* ===== verification/Tlb.thy ===== *)
theory Tlb
  imports SI
begin

text \<open>
  Address translation: the 32-entry TLB (\<open>src/mmu/tlb.cpp\<close>), the segments
  (\<open>src/mmu/mmu.cpp\<close>, \<open>include/mmu/mmu.h\<close>) and the direct-mapped cache of translations in
  front of them (\<open>src/mmu/soft_tlb.cpp\<close>).
\<close>

section \<open>State\<close>

datatype tlb_error = TLB_MISS | TLB_INVALID | TLB_MODIFICATION | TLB_DISALLOWED_ADDRESS

datatype bus_access = LOAD | STORE

record tlb_entry =
  is_valid :: bool
  global :: bool
  e_lo0 :: u32
  e_lo1 :: u32
  e_hi :: u64
  e_mask :: u32

record soft_entry =
  soft_vpn :: u32
  soft_pa :: u32

record tlb_regs =
  entries :: "u32 \<Rightarrow> tlb_entry"
  tlb_err :: tlb_error
  g_load :: "u32 \<Rightarrow> soft_entry"
  g_store :: "u32 \<Rightarrow> soft_entry"

record tlb_state = si_state +
  tlb :: tlb_regs

definition map_cop0 :: "(cop0_regs \<Rightarrow> cop0_regs) \<Rightarrow> 'a irq_state_scheme \<Rightarrow> 'a irq_state_scheme" where
  "map_cop0 f s = s\<lparr>cop0 := f (cop0 s)\<rparr>"

definition map_tlb :: "(tlb_regs \<Rightarrow> tlb_regs) \<Rightarrow> 'a tlb_state_scheme \<Rightarrow> 'a tlb_state_scheme" where
  "map_tlb f s = s\<lparr>tlb := f (tlb s)\<rparr>"

definition empty_entry :: tlb_entry where
  "empty_entry = \<lparr>is_valid = False, global = False, e_lo0 = 0, e_lo1 = 0, e_hi = 0, e_mask = 0\<rparr>"

section \<open>The soft TLB\<close>

definition soft_tlb_invalidate :: "'a tlb_state_scheme \<Rightarrow> 'a tlb_state_scheme" where
  "soft_tlb_invalidate = map_tlb (\<lambda>t. t\<lparr>
     g_load := (\<lambda>i. (g_load t i)\<lparr>soft_vpn := 0xFFFFFFFF\<rparr>),
     g_store := (\<lambda>i. (g_store t i)\<lparr>soft_vpn := 0xFFFFFFFF\<rparr>)\<rparr>)"

definition soft_index :: "u32 \<Rightarrow> u32" where
  "soft_index vpn = vpn AND 0xFFF"

definition soft_table :: "bus_access \<Rightarrow> tlb_regs \<Rightarrow> u32 \<Rightarrow> soft_entry" where
  "soft_table acc t = (case acc of LOAD \<Rightarrow> g_load t | STORE \<Rightarrow> g_store t)"

definition soft_tlb_note :: "bus_access \<Rightarrow> u32 \<Rightarrow> u32 \<Rightarrow> 'a tlb_state_scheme \<Rightarrow> 'a tlb_state_scheme" where
  "soft_tlb_note acc vaddr paddr =
     (let vpn = drop_bit 12 vaddr;
          e = \<lparr>soft_vpn = vpn, soft_pa = paddr AND NOT 0xFFF\<rparr>
      in map_tlb (\<lambda>t. case acc of
           LOAD \<Rightarrow> t\<lparr>g_load := (g_load t)(soft_index vpn := e)\<rparr>
         | STORE \<Rightarrow> t\<lparr>g_store := (g_store t)(soft_index vpn := e)\<rparr>))"

definition soft_tlb_lookup :: "u32 \<Rightarrow> u32 \<Rightarrow> bus_access \<Rightarrow> 'a tlb_state_scheme \<Rightarrow> u32 option" where
  "soft_tlb_lookup vaddr access_size acc s =
     (if access_size = 0 \<or> (vaddr AND 0xFFF) + access_size - 1 > 0xFFF then None
      else let vpn = drop_bit 12 vaddr; e = soft_table acc (tlb s) (soft_index vpn)
           in if soft_vpn e \<noteq> vpn then None else Some (soft_pa e OR (vaddr AND 0xFFF)))"

section \<open>The TLB\<close>

definition tlb_reset :: "'a tlb_state_scheme \<Rightarrow> 'a tlb_state_scheme" where
  "tlb_reset s = soft_tlb_invalidate (map_tlb (\<lambda>t. t\<lparr>entries := (\<lambda>_. empty_entry)\<rparr>) s)"

definition sign_extend_vaddr32 :: "u32 \<Rightarrow> u64" where
  "sign_extend_vaddr32 vaddr = sext32 vaddr"

text \<open>The range of Random: Wired to 31, or 0 to 63 when Wired is past the last entry.\<close>

definition random_lo :: "cop0_regs \<Rightarrow> u32" where
  "random_lo c = (let wired = c0_wired c AND 0x3F in if wired > 31 then 0 else wired)"

definition random_hi :: "cop0_regs \<Rightarrow> u32" where
  "random_hi c = (let wired = c0_wired c AND 0x3F in if wired > 31 then 63 else 31)"

definition advance_random :: "cop0_regs \<Rightarrow> cop0_regs" where
  "advance_random c =
     (let lo = random_lo c; hi = random_hi c; r = c0_random c
      in c\<lparr>c0_random := (if r < lo \<or> r > hi then lo else if r \<ge> hi then lo else r + 1)\<rparr>)"

text \<open>\<open>write_entry\<close> uses one bit of each pair of the page mask for both.\<close>

definition mask_field :: "u32 \<Rightarrow> u32" where
  "mask_field page_mask =
     (let f = drop_bit 13 (page_mask AND 0x01FFE000) AND 0xFFF; top = f AND 0b101010101010
      in top OR drop_bit 1 top)"

definition entry_of_cop0 :: "cop0_regs \<Rightarrow> tlb_entry" where
  "entry_of_cop0 c =
     (let f = mask_field (c0_page_mask c)
      in \<lparr>is_valid = True,
          global = bit (c0_entry_lo0 c) 0 \<and> bit (c0_entry_lo1 c) 0,
          e_lo0 = c0_entry_lo0 c AND 0x03FFFFFE,
          e_lo1 = c0_entry_lo1 c AND 0x03FFFFFE,
          e_hi = bf_set 13 27 (bf_get 13 27 (c0_entry_hi c) AND NOT (ucast f)) (c0_entry_hi c),
          e_mask = push_bit 13 f\<rparr>)"

definition write_entry :: "bool \<Rightarrow> 'a tlb_state_scheme \<Rightarrow> 'a tlb_state_scheme" where
  "write_entry random s =
     (let c = cop0 s;
          c1 = (if c0_random c < random_lo c \<or> c0_random c > random_hi c
                then c\<lparr>c0_random := random_lo c\<rparr> else c);
          (index, c2) = (if random then (c0_random c1 AND 0x1f, advance_random c1)
                         else (c0_index c AND 0x1f, c))
      in soft_tlb_invalidate
           (map_tlb (\<lambda>t. t\<lparr>entries := (entries t)(index := entry_of_cop0 c2)\<rparr>) (map_cop0 (\<lambda>_. c2) s)))"

definition read_entry :: "'a tlb_state_scheme \<Rightarrow> 'a tlb_state_scheme" where
  "read_entry s =
     (let e = entries (tlb s) (c0_index (cop0 s) AND 0x1f)
      in map_cop0 (\<lambda>c. c\<lparr>c0_page_mask := e_mask e, c0_entry_hi := e_hi e,
           c0_entry_lo0 := put_bit 0 (global e) (e_lo0 e),
           c0_entry_lo1 := put_bit 0 (global e) (e_lo1 e)\<rparr>) s)"

definition calculate_vpn :: "u64 \<Rightarrow> u32 \<Rightarrow> u64" where
  "calculate_vpn vaddr page_mask =
     (let m = ucast (page_mask OR 0x1fff) :: u64
      in ((vaddr AND 0xFFFFFFFFFF) OR (drop_bit 22 vaddr AND 0x30000000000)) AND NOT m)"

definition entry_matches :: "u64 \<Rightarrow> u64 \<Rightarrow> tlb_entry \<Rightarrow> bool" where
  "entry_matches entry_hi vaddr e \<longleftrightarrow>
     is_valid e \<and> calculate_vpn vaddr (e_mask e) = calculate_vpn (e_hi e) (e_mask e) \<and>
     (global e \<or> bf_get 0 8 entry_hi = bf_get 0 8 (e_hi e))"

text \<open>The loop over the entries: the first that matches.\<close>

definition lookup_tlb_entry_index :: "u64 \<Rightarrow> 'a tlb_state_scheme \<Rightarrow> u32 option" where
  "lookup_tlb_entry_index vaddr s =
     map_option word_of_nat
       (find (\<lambda>i. entry_matches (c0_entry_hi (cop0 s)) vaddr (entries (tlb s) (word_of_nat i))) [0..<32])"

definition probe_index :: "'a tlb_state_scheme \<Rightarrow> 'a tlb_state_scheme" where
  "probe_index s =
     (case lookup_tlb_entry_index (c0_entry_hi (cop0 s)) s of
        Some i \<Rightarrow> map_cop0 (\<lambda>c. c\<lparr>c0_index := i\<rparr>) s
      | None \<Rightarrow> map_cop0 (\<lambda>c. c\<lparr>c0_index := 0x80000000\<rparr>) s)"

text \<open>The translation that \<open>probe\<close> computes, or the error it records.\<close>

definition entry_offset_mask :: "tlb_entry \<Rightarrow> u32" where
  "entry_offset_mask e = push_bit 12 (drop_bit 13 (e_mask e)) OR 0x0FFF"

definition entry_lo_for :: "u32 \<Rightarrow> tlb_entry \<Rightarrow> u32" where
  "entry_lo_for vaddr e = (if vaddr AND (entry_offset_mask e + 1) \<noteq> 0 then e_lo1 e else e_lo0 e)"

definition tlb_translate :: "u32 \<Rightarrow> bus_access \<Rightarrow> 'a tlb_state_scheme \<Rightarrow> tlb_error + u32" where
  "tlb_translate vaddr acc s =
     (case lookup_tlb_entry_index (sign_extend_vaddr32 vaddr) s of
        None \<Rightarrow> Inl TLB_MISS
      | Some i \<Rightarrow>
          (let e = entries (tlb s) i;
               lo = entry_lo_for vaddr e;
               page_valid = bit lo 1; page_dirty = bit lo 2; pfn = bf_get 6 20 lo
           in if \<not> page_valid then Inl TLB_INVALID
              else if acc = STORE \<and> \<not> page_dirty then Inl TLB_MODIFICATION
              else Inr (push_bit 12 pfn OR (vaddr AND entry_offset_mask e))))"

definition tlb_probe ::
  "u32 \<Rightarrow> bus_access \<Rightarrow> 'a tlb_state_scheme \<Rightarrow> u32 option \<times> 'a tlb_state_scheme" where
  "tlb_probe vaddr acc s =
     (case tlb_translate vaddr acc s of
        Inl e \<Rightarrow> (None, map_tlb (\<lambda>t. t\<lparr>tlb_err := e\<rparr>) s)
      | Inr p \<Rightarrow> (Some p, s))"

definition on_tlb_exception :: "u64 \<Rightarrow> 'a irq_state_scheme \<Rightarrow> 'a irq_state_scheme" where
  "on_tlb_exception vaddr =
     (let vpn2 = drop_bit 13 vaddr AND 0x7FFFF;
          xvpn2 = drop_bit 13 vaddr AND 0x7FFFFFF;
          r = drop_bit 62 vaddr AND 0x3
      in map_cop0 (\<lambda>c. c\<lparr>c0_bad_vaddr := vaddr,
           c0_context := (c0_context c AND NOT 0x7FFFFF) OR push_bit 4 (vpn2 AND 0x7FFFF),
           c0_xcontext := (c0_xcontext c AND 0xFFFFFFFE00000000) OR push_bit 4 (xvpn2 AND 0x7FFFFFF)
                          OR push_bit 31 r,
           c0_entry_hi := (c0_entry_hi c AND 0xFF) OR push_bit 13 (xvpn2 AND 0x7FFFFFF)
                          OR push_bit 62 r\<rparr>))"

section \<open>Segments\<close>

definition try_direct_map :: "u32 \<Rightarrow> u32 option" where
  "try_direct_map vaddr =
     (let seg = drop_bit 29 vaddr
      in if seg = 4 \<or> seg = 5 then Some (vaddr AND 0x1FFFFFFF) else None)"

definition resolve_vaddr_slow ::
  "u32 \<Rightarrow> bus_access \<Rightarrow> 'a tlb_state_scheme \<Rightarrow> (u32 option \<times> 'a tlb_state_scheme) res" where
  "resolve_vaddr_slow vaddr acc s =
     (if vaddr \<le> 0x7FFFFFFF \<or> (0xC0000000 \<le> vaddr \<and> vaddr \<le> 0xDFFFFFFF) \<or> 0xE0000000 \<le> vaddr then
        (case tlb_probe vaddr acc s of
           (None, s1) \<Rightarrow> ok (None, on_tlb_exception (sext32 vaddr) s1)
         | (Some p, s1) \<Rightarrow> ok (Some p, s1))
      else Inl Aborted)"

definition resolve_vaddr ::
  "u32 \<Rightarrow> bus_access \<Rightarrow> 'a tlb_state_scheme \<Rightarrow> (u32 option \<times> 'a tlb_state_scheme) res" where
  "resolve_vaddr vaddr acc s =
     (case try_direct_map vaddr of
        Some p \<Rightarrow> ok (Some p, s)
      | None \<Rightarrow> resolve_vaddr_slow vaddr acc s)"

definition paddr_in_rdram :: "u32 \<Rightarrow> u32 \<Rightarrow> bool" where
  "paddr_in_rdram paddr access_size \<longleftrightarrow>
     paddr \<le> 0x007FFFFF \<and> paddr + (access_size - 1) \<le> 0x007FFFFF"

definition resolve_vaddr_cached ::
  "u32 \<Rightarrow> u32 \<Rightarrow> bus_access \<Rightarrow> 'a tlb_state_scheme \<Rightarrow> (u32 option \<times> 'a tlb_state_scheme) res" where
  "resolve_vaddr_cached vaddr access_size acc s =
     (case soft_tlb_lookup vaddr access_size acc s of
        Some p \<Rightarrow> ok (Some p, s)
      | None \<Rightarrow> bindR (resolve_vaddr vaddr acc s) (\<lambda>(r, s1).
          case r of
            None \<Rightarrow> ok (None, s1)
          | Some p \<Rightarrow> ok (Some p, if paddr_in_rdram p access_size then soft_tlb_note acc vaddr p s1 else s1)))"

section \<open>Translation is by page\<close>

text \<open>What the cache in front of the translation relies on.\<close>

definition same_page :: "u32 \<Rightarrow> u32 \<Rightarrow> bool" where
  "same_page a b \<longleftrightarrow> drop_bit 12 a = drop_bit 12 b"

definition in_page :: "u32 \<Rightarrow> u32 \<Rightarrow> u32" where
  "in_page pa vaddr = (pa AND NOT 0xFFF) OR (vaddr AND 0xFFF)"

lemma m12: "(0xFFF :: u32) = mask 12" "(0x0FFF :: u32) = mask 12"
  by (simp_all add: mask_eq_exp_minus_1)

lemma same_page_bit: "same_page a b \<Longrightarrow> 12 \<le> n \<Longrightarrow> bit a n = bit b n"
proof -
  assume "same_page a b" and n: "12 \<le> n"
  then have "bit (drop_bit 12 a) (n - 12) = bit (drop_bit 12 b) (n - 12)" by (simp only: same_page_def)
  with n show ?thesis by (simp add: bit_drop_bit_eq)
qed

lemma same_page_bitI: "(\<And>n. 12 \<le> n \<Longrightarrow> bit a n = bit b n) \<Longrightarrow> same_page a b"
  unfolding same_page_def by (rule bit_word_eqI) (simp add: bit_drop_bit_eq)

lemma bit_in_page: "bit (in_page pa v) n \<longleftrightarrow> (if n < 12 then bit v n else bit pa n)"
  unfolding in_page_def m12
  by (auto simp: bit_or_iff bit_and_iff bit_not_iff bit_mask_iff dest: bit_imp_le_length)

lemma same_page_in_page [simp]: "same_page (in_page pa v) pa"
  by (rule same_page_bitI) (simp add: bit_in_page)

lemma same_page_refl [simp]: "same_page a a"
  and same_page_sym: "same_page a b \<Longrightarrow> same_page b a"
  by (simp_all add: same_page_def)

lemma bit_sext32: "bit (sext32 v) n \<longleftrightarrow> n < 64 \<and> (if n < 32 then bit v n else bit v 31)"
  by (cases "n = 31") (auto simp: sext32_def bit_signed_iff min_def)

lemma calculate_vpn_page:
  assumes "same_page a b"
  shows "calculate_vpn (sext32 a) m = calculate_vpn (sext32 b) m"
proof (rule bit_word_eqI)
  fix n assume n: "n < LENGTH(64)"
  have low: "bit (ucast (m OR 0x1fff :: u32) :: u64) n" if "n < 13"
  proof -
    have m: "(0x1fff :: u32) = mask 13" by (simp add: mask_eq_exp_minus_1)
    show ?thesis unfolding m using that by (simp add: bit_ucast_iff bit_or_iff bit_mask_iff)
  qed
  have eq: "bit (sext32 a) k = bit (sext32 b) k" if "12 \<le> k" for k
    using same_page_bit [OF assms] that by (simp add: bit_sext32)
  show "bit (calculate_vpn (sext32 a) m) n = bit (calculate_vpn (sext32 b) m) n"
  proof (cases "n < 13")
    case True
    then show ?thesis using low by (simp add: calculate_vpn_def Let_def bit_and_iff bit_not_iff)
  next
    case False
    then show ?thesis
      by (simp add: calculate_vpn_def Let_def bit_and_iff bit_or_iff bit_drop_bit_eq eq)
  qed
qed

lemma offset_mask_succ: "entry_offset_mask e + 1 = push_bit 12 (drop_bit 13 (e_mask e) + 1)"
proof -
  have "entry_offset_mask e = push_bit 12 (drop_bit 13 (e_mask e)) + mask 12"
    unfolding entry_offset_mask_def m12
    by (rule disjunctive_add [symmetric]) (auto simp: bit_push_bit_iff bit_mask_iff)
  then show ?thesis by (simp add: push_bit_eq_mult mask_eq_exp_minus_1 distrib_right)
qed

lemma entry_lo_page: "same_page a b \<Longrightarrow> entry_lo_for a e = entry_lo_for b e"
proof -
  assume "same_page a b"
  then have "a AND push_bit 12 x = b AND push_bit 12 x" for x :: u32
    by (intro bit_word_eqI) (auto simp: bit_and_iff bit_push_bit_iff dest: same_page_bit)
  then show ?thesis by (simp add: entry_lo_for_def offset_mask_succ)
qed

lemma tlb_translate_page:
  assumes "tlb_translate a acc s = Inr p" and "same_page b a"
  shows "tlb_translate b acc s = Inr (in_page p b)"
proof -
  have look: "lookup_tlb_entry_index (sign_extend_vaddr32 b) s = lookup_tlb_entry_index (sign_extend_vaddr32 a) s"
    by (simp add: lookup_tlb_entry_index_def entry_matches_def sign_extend_vaddr32_def
        calculate_vpn_page [OF assms(2)])
  have off: "push_bit 12 x OR (b AND entry_offset_mask e) = in_page (push_bit 12 x OR (a AND entry_offset_mask e)) b"
    for x e
  proof (rule bit_word_eqI)
    fix n assume "n < LENGTH(32)"
    then show "bit (push_bit 12 x OR (b AND entry_offset_mask e)) n =
        bit (in_page (push_bit 12 x OR (a AND entry_offset_mask e)) b) n"
      using same_page_bit [OF assms(2), of n] unfolding bit_in_page entry_offset_mask_def m12
      by (auto simp: bit_or_iff bit_and_iff bit_push_bit_iff bit_mask_iff)
  qed
  show ?thesis
  proof (cases "lookup_tlb_entry_index (sign_extend_vaddr32 a) s")
    case None
    with assms(1) show ?thesis by (simp add: tlb_translate_def)
  next
    case (Some i)
    with assms(1) show ?thesis
      by (simp add: tlb_translate_def look entry_lo_page [OF assms(2)] Let_def split: if_splits)
        (auto simp: off)
  qed
qed

lemma direct_map_page:
  assumes "try_direct_map a = Some p" and "same_page b a"
  shows "try_direct_map b = Some (in_page p b)"
proof -
  have "drop_bit 29 b = drop_bit 29 a"
    by (rule bit_word_eqI) (simp add: bit_drop_bit_eq same_page_bit [OF assms(2)])
  moreover have "b AND 0x1FFFFFFF = in_page (a AND 0x1FFFFFFF) b"
  proof -
    have m: "(0x1FFFFFFF :: u32) = mask 29" by (simp add: mask_eq_exp_minus_1)
    show ?thesis unfolding m
      by (rule bit_word_eqI)
        (auto simp: bit_in_page bit_and_iff bit_mask_iff same_page_bit [OF assms(2)])
  qed
  ultimately show ?thesis using assms(1) by (auto simp: try_direct_map_def Let_def split: if_splits)
qed

lemma direct_map_none_page: "try_direct_map a = None \<Longrightarrow> same_page b a \<Longrightarrow> try_direct_map b = None"
  using direct_map_page same_page_sym by (metis not_None_eq)

text \<open>The segments are exhaustive, so \<open>resolve_vaddr\<close> is this function and never aborts.\<close>

definition translate :: "'a tlb_state_scheme \<Rightarrow> bus_access \<Rightarrow> u32 \<Rightarrow> u32 option" where
  "translate s acc vaddr =
     (case try_direct_map vaddr of
        Some p \<Rightarrow> Some p
      | None \<Rightarrow> (case tlb_translate vaddr acc s of Inl _ \<Rightarrow> None | Inr p \<Rightarrow> Some p))"

lemma segments_exhaustive:
  assumes "try_direct_map vaddr = None"
  shows "vaddr \<le> 0x7FFFFFFF \<or> (0xC0000000 \<le> vaddr \<and> vaddr \<le> 0xDFFFFFFF) \<or> 0xE0000000 \<le> vaddr"
proof (rule ccontr)
  assume "\<not> ?thesis"
  then have "unat vaddr > 0x7FFFFFFF" "unat vaddr < 0xC0000000 \<or> unat vaddr > 0xDFFFFFFF" "unat vaddr < 0xE0000000"
    by (auto simp: word_le_nat_alt not_le)
  then have u: "unat vaddr > 0x7FFFFFFF" "unat vaddr < 0xC0000000" by auto
  have "unat (drop_bit 29 vaddr) = unat vaddr div 0x20000000"
    by (simp add: drop_bit_eq_div unat_div_distrib)
  then have "unat (drop_bit 29 vaddr) = 4 \<or> unat (drop_bit 29 vaddr) = 5" using u by linarith
  then have "drop_bit 29 vaddr = 4 \<or> drop_bit 29 vaddr = 5"
    by (auto simp: word_unat_eq_iff)
  with assms show False by (auto simp: try_direct_map_def Let_def)
qed

lemma resolve_vaddr_eq:
  "resolve_vaddr vaddr acc s = Inr (translate s acc vaddr,
     (case try_direct_map vaddr of
        Some p \<Rightarrow> s
      | None \<Rightarrow> (case tlb_translate vaddr acc s of
           Inl e \<Rightarrow> on_tlb_exception (sext32 vaddr) (map_tlb (\<lambda>t. t\<lparr>tlb_err := e\<rparr>) s)
         | Inr p \<Rightarrow> s)))"
  using segments_exhaustive [of vaddr]
  by (auto simp: resolve_vaddr_def resolve_vaddr_slow_def translate_def tlb_probe_def
      split: option.splits sum.splits)

section \<open>The cache in front of the translation\<close>

definition soft_sound :: "(bus_access \<Rightarrow> u32 \<Rightarrow> u32 option) \<Rightarrow> tlb_regs \<Rightarrow> bool" where
  "soft_sound f t \<longleftrightarrow> (\<forall>acc i. soft_vpn (soft_table acc t i) \<noteq> 0xFFFFFFFF \<longrightarrow>
     f acc (push_bit 12 (soft_vpn (soft_table acc t i))) = Some (soft_pa (soft_table acc t i)) \<and>
     soft_pa (soft_table acc t i) AND 0xFFF = 0)"

lemma push_drop_page: "same_page (push_bit 12 (drop_bit 12 v)) v"
  by (rule same_page_bitI) (auto simp: bit_push_bit_iff bit_drop_bit_eq dest: bit_imp_le_length)

lemma vpn_not_empty: "drop_bit 12 v \<noteq> (0xFFFFFFFF :: u32)"
proof
  assume "drop_bit 12 v = (0xFFFFFFFF :: u32)"
  then have "bit (drop_bit 12 v) 31 = bit (0xFFFFFFFF :: u32) 31" by simp
  moreover have "\<not> bit (drop_bit 12 v) 31" by (auto simp: bit_drop_bit_eq dest: bit_imp_le_length)
  moreover have "bit (0xFFFFFFFF :: u32) 31" by simp
  ultimately show False by blast
qed

lemma in_page_zero: "pa AND 0xFFF = 0 \<Longrightarrow> in_page pa v = pa OR (v AND 0xFFF)"
proof -
  assume "pa AND 0xFFF = 0"
  then have eq: "bit (pa AND mask 12) n = bit (0 :: u32) n" for n by (simp only: m12)
  have z: "\<not> bit pa n" if "n < 12" for n
    using eq [of n] that by (simp add: bit_and_iff bit_mask_iff)
  show ?thesis
    by (rule bit_word_eqI) (use z in \<open>auto simp: bit_in_page m12 bit_or_iff bit_and_iff bit_mask_iff\<close>)
qed

lemma page_base: "in_page p (push_bit 12 x) = p AND NOT 0xFFF" "(p AND NOT 0xFFF) AND 0xFFF = (0 :: u32)"
proof -
  show "in_page p (push_bit 12 x) = p AND NOT 0xFFF"
    unfolding m12 by (rule bit_word_eqI)
      (auto simp: bit_in_page bit_push_bit_iff bit_and_iff bit_not_iff bit_mask_iff dest: bit_imp_le_length)
  show "(p AND NOT 0xFFF) AND 0xFFF = (0 :: u32)"
    unfolding m12 by (rule bit_word_eqI) (auto simp: bit_and_iff bit_not_iff bit_mask_iff)
qed

locale page_translation =
  fixes tr :: "'s \<Rightarrow> bus_access \<Rightarrow> u32 \<Rightarrow> u32 option"
  assumes tr_page: "tr s acc a = Some p \<Longrightarrow> same_page b a \<Longrightarrow> tr s acc b = Some (in_page p b)"
begin

lemma soft_hit:
  assumes "soft_sound (tr s) t" and "soft_vpn (soft_table acc t i) = drop_bit 12 v"
  shows "tr s acc v = Some (soft_pa (soft_table acc t i) OR (v AND 0xFFF))"
proof -
  let ?e = "soft_table acc t i"
  have "soft_vpn ?e \<noteq> 0xFFFFFFFF" using assms(2) vpn_not_empty by simp
  then have "tr s acc (push_bit 12 (soft_vpn ?e)) = Some (soft_pa ?e)" and z: "soft_pa ?e AND 0xFFF = 0"
    using assms(1) unfolding soft_sound_def by blast+
  then have "tr s acc (push_bit 12 (drop_bit 12 v)) = Some (soft_pa ?e)" using assms(2) by simp
  from tr_page [OF this(1) same_page_sym [OF push_drop_page]] show ?thesis
    by (simp add: in_page_zero [OF z])
qed

lemma note_entry:
  assumes "tr s acc v = Some p"
  shows "tr s acc (push_bit 12 (drop_bit 12 v)) = Some (p AND NOT 0xFFF)"
  using tr_page [OF assms push_drop_page] by (simp only: page_base(1))

lemma same_offset:
  "tr s acc a = Some p \<Longrightarrow> same_page b a \<Longrightarrow> \<exists>q. tr s acc b = Some q \<and> same_page q p"
  using tr_page by (metis same_page_in_page)

end

lemma translate_page:
  "translate s acc a = Some p \<Longrightarrow> same_page b a \<Longrightarrow> translate s acc b = Some (in_page p b)"
  by (auto simp: translate_def direct_map_none_page split: option.splits sum.splits
      dest: direct_map_page tlb_translate_page)

interpretation mmu: page_translation translate
  by unfold_locales (rule translate_page)

definition soft_ok :: "'a tlb_state_scheme \<Rightarrow> bool" where
  "soft_ok s \<longleftrightarrow> soft_sound (translate s) (tlb s)"

text \<open>Translation depends on the entries and on the current address space only.\<close>

definition asid :: "'a irq_state_scheme \<Rightarrow> u64" where
  "asid s = bf_get 0 8 (c0_entry_hi (cop0 s))"

lemma translate_cong:
  assumes "entries (tlb s) = entries (tlb t)" and "asid s = asid t"
  shows "translate s = translate t"
proof -
  have "lookup_tlb_entry_index v s = lookup_tlb_entry_index v t" for v
    using assms by (simp add: lookup_tlb_entry_index_def entry_matches_def asid_def)
  then show ?thesis using assms(1)
    by (simp add: fun_eq_iff translate_def tlb_translate_def split: option.split)
qed

lemma soft_ok_cong:
  assumes "entries (tlb s) = entries (tlb t)" "asid s = asid t" "g_load (tlb s) = g_load (tlb t)"
    "g_store (tlb s) = g_store (tlb t)"
  shows "soft_ok s = soft_ok t"
proof -
  have "soft_table acc (tlb s) i = soft_table acc (tlb t) i" for acc i
    using assms(3,4) by (cases acc) (simp_all add: soft_table_def)
  then show ?thesis by (simp add: soft_ok_def soft_sound_def translate_cong [OF assms(1,2)])
qed

lemma map_tlb_simps [simp]:
  "tlb (map_tlb f s) = f (tlb s)" "cop0 (map_tlb f s) = cop0 s" "mem (map_tlb f s) = mem s"
  "asid (map_tlb f s) = asid s" "mi (map_tlb f s) = mi s" "dcache (map_tlb f s) = dcache s"
  by (simp_all add: map_tlb_def asid_def)

lemma map_cop0_simps [simp]:
  "cop0 (map_cop0 f s) = f (cop0 s)" "tlb (map_cop0 f t) = tlb t" "mem (map_cop0 f u) = mem u"
  "mi (map_cop0 f s) = mi s" "dcache (map_cop0 f u) = dcache u"
  by (simp_all add: map_cop0_def)

lemma soft_ok_invalidate [simp]: "soft_ok (soft_tlb_invalidate s)"
  by (simp add: soft_ok_def soft_sound_def soft_tlb_invalidate_def soft_table_def split: bus_access.split)

lemma soft_ok_note:
  assumes "soft_ok s" and "translate s acc v = Some p"
  shows "soft_ok (soft_tlb_note acc v p s)"
proof -
  have tr: "translate (soft_tlb_note acc v p s) = translate s"
    by (rule translate_cong) (simp_all add: soft_tlb_note_def Let_def split: bus_access.split)
  note n = mmu.note_entry [OF assms(2)] page_base(2) [of p]
  show ?thesis
    using assms(1) n unfolding soft_ok_def soft_sound_def tr
    by (cases acc) (auto simp: soft_tlb_note_def soft_table_def Let_def split: bus_access.splits)
qed

lemma asid_tlb_exception [simp]: "asid (on_tlb_exception v s) = asid s"
proof -
  have m8: "(0xFF :: u64) = mask 8" by (simp add: mask_eq_exp_minus_1)
  show ?thesis
    unfolding asid_def on_tlb_exception_def Let_def m8
    by (rule bit_word_eqI)
      (auto simp: bit_bf_get bit_or_iff bit_and_iff bit_mask_iff bit_push_bit_iff)
qed

lemma on_tlb_exception_tlb [simp]: "tlb (on_tlb_exception v s) = tlb s"
  by (simp add: on_tlb_exception_def Let_def)

text \<open>C1: the cached translation used for every instruction fetch and memory access returns exactly
  what the architectural translation of the address returns, whatever is in the cache, and keeps
  the cache sound; a successful translation changes nothing but the cache.\<close>

theorem resolve_cached_correct:
  assumes "soft_ok s"
  shows "\<exists>s'. resolve_vaddr_cached vaddr n acc s = Inr (translate s acc vaddr, s') \<and> soft_ok s' \<and>
    (translate s acc vaddr \<noteq> None \<longrightarrow> cop0 s' = cop0 s \<and> entries (tlb s') = entries (tlb s))"
proof (cases "soft_tlb_lookup vaddr n acc s")
  case (Some p)
  then have "translate s acc vaddr = Some p"
    using mmu.soft_hit [of s "tlb s" acc] assms
    by (auto simp: soft_tlb_lookup_def soft_ok_def Let_def split: if_splits)
  with Some assms show ?thesis by (simp add: resolve_vaddr_cached_def)
next
  case None
  show ?thesis
  proof (cases "translate s acc vaddr")
    case (Some p)
    then have r: "resolve_vaddr vaddr acc s = Inr (Some p, s)"
      by (auto simp: resolve_vaddr_eq translate_def split: option.splits sum.splits)
    let ?s' = "if paddr_in_rdram p n then soft_tlb_note acc vaddr p s else s"
    have "soft_ok ?s'" using assms soft_ok_note [OF assms Some] by simp
    moreover have "cop0 ?s' = cop0 s" "entries (tlb ?s') = entries (tlb s)"
      by (simp_all add: soft_tlb_note_def Let_def split: bus_access.split)
    ultimately show ?thesis using None Some r by (simp add: resolve_vaddr_cached_def)
  next
    case fault: None
    obtain e where e: "tlb_translate vaddr acc s = Inl e" "try_direct_map vaddr = None"
      using fault by (auto simp: translate_def split: option.splits sum.splits)
    let ?t = "on_tlb_exception (sext32 vaddr) (map_tlb (\<lambda>t. t\<lparr>tlb_err := e\<rparr>) s)"
    have "soft_ok ?t" using assms soft_ok_cong [of ?t s] by simp
    then show ?thesis using None fault e by (simp add: resolve_vaddr_cached_def resolve_vaddr_eq)
  qed
qed

end
