(* ===== verification/Cop0.thy ===== *)
theory Cop0
  imports Tlb
begin

text \<open>
  The system control coprocessor (\<open>src/cpu/cop0.cpp\<close>): register reads and writes by number, reset,
  the Count timer (\<open>Cpu::add_count\<close>), and what the writes keep of the soft TLB and of Random.
  The calls that tell the debugger about a write change nothing here and are left out.
\<close>

section \<open>Register access\<close>

definition cop0_read :: "u8 \<Rightarrow> 'a irq_state_scheme \<Rightarrow> u64 res" where
  "cop0_read reg_num s =
     (let c = cop0 s
      in if reg_num = 0 then ok (ucast (c0_index c))
         else if reg_num = 1 then ok (ucast (c0_random c))
         else if reg_num = 2 then ok (ucast (c0_entry_lo0 c))
         else if reg_num = 3 then ok (ucast (c0_entry_lo1 c))
         else if reg_num = 4 then ok (c0_context c)
         else if reg_num = 5 then ok (ucast (c0_page_mask c))
         else if reg_num = 6 then ok (ucast (c0_wired c))
         else if reg_num = 8 then ok (c0_bad_vaddr c)
         else if reg_num = 9 then ok (drop_bit 1 (c0_count c))
         else if reg_num = 10 then ok (c0_entry_hi c)
         else if reg_num = 11 then ok (ucast (c0_compare c))
         else if reg_num = 12 then ok (ucast (c0_status c))
         else if reg_num = 13 then ok (ucast (c0_cause c))
         else if reg_num = 14 then ok (c0_epc c)
         else if reg_num = 15 then ok (ucast (c0_prid c))
         else if reg_num = 16 then ok (ucast (c0_config c))
         else if reg_num = 17 then ok (ucast (c0_lladdr c))
         else if reg_num = 18 then ok (ucast (c0_watch_lo c))
         else if reg_num = 19 then ok (ucast (c0_watch_hi c))
         else if reg_num = 20 then ok (c0_xcontext c)
         else if reg_num = 26 then ok (ucast (c0_parity_error c))
         else if reg_num = 27 then ok (ucast (c0_cache_error c))
         else if reg_num = 28 then ok (ucast (c0_tag_lo c))
         else if reg_num = 29 then ok (ucast (c0_tag_hi c))
         else if reg_num = 30 then ok (c0_error_epc c)
         else Inl Aborted)"

definition se32_to_64 :: "u32 \<Rightarrow> u64" where
  "se32_to_64 v = sext32 v"

text \<open>A 64-bit value, or the sign extension of a value that fits 32 bits.\<close>

definition context_value :: "u64 \<Rightarrow> u64" where
  "context_value v = (if v > 0xFFFFFFFF then v else se32_to_64 (ucast v))"

definition write_wired :: "u64 \<Rightarrow> cop0_regs \<Rightarrow> cop0_regs" where
  "write_wired v c =
     (let wired = ucast (v AND 0x3F);
          lo = (if wired > 31 then 0 else wired); hi = (if wired > 31 then 63 else 31)
      in c\<lparr>c0_wired := wired,
           c0_random := (if c0_random c < lo \<or> c0_random c > hi then lo else c0_random c)\<rparr>)"

definition entry_hi_value :: "u64 \<Rightarrow> u64" where
  "entry_hi_value value =
     (if value \<le> 0xFFFFFFFF then
        (let v = ucast value :: u32;
             r = (if v <s 0 then 3 else 0) :: u64;
             vpn2 = ucast (drop_bit 13 v AND 0x7FFFF) :: u64;
             asid = ucast (v AND 0xFF) :: u64
         in push_bit 62 r OR push_bit 13 vpn2 OR asid)
      else value AND 0xC00000FFFFFFE0FF)"

definition cop0_write :: "u8 \<Rightarrow> u64 \<Rightarrow> 'a tlb_state_scheme \<Rightarrow> 'a tlb_state_scheme res" where
  "cop0_write reg_num value s =
     (if reg_num = 0 then ok (map_cop0 (\<lambda>c. c\<lparr>c0_index := ucast value\<rparr>) s)
      else if reg_num = 1 then ok s
      else if reg_num = 2 then ok (map_cop0 (\<lambda>c. c\<lparr>c0_entry_lo0 := ucast (value AND 0x3FFFFFFF)\<rparr>) s)
      else if reg_num = 3 then ok (map_cop0 (\<lambda>c. c\<lparr>c0_entry_lo1 := ucast (value AND 0x3FFFFFFF)\<rparr>) s)
      else if reg_num = 4 then
        ok (map_cop0 (\<lambda>c. c\<lparr>c0_context := (context_value value AND 0xFFFFFFFFFF800000)
              OR (c0_context c AND 0x7FFFFF)\<rparr>) s)
      else if reg_num = 5 then ok (map_cop0 (\<lambda>c. c\<lparr>c0_page_mask := ucast (value AND 0x1FFE000)\<rparr>) s)
      else if reg_num = 6 then ok (map_cop0 (write_wired value) s)
      else if reg_num = 8 then ok s
      else if reg_num = 9 then
        ok (map_cop0 (\<lambda>c. c\<lparr>c0_count := push_bit 1 (ucast (ucast value :: u32)) AND 0x1FFFFFFFF\<rparr>) s)
      else if reg_num = 10 then
        (let old_asid = bf_get 0 8 (c0_entry_hi (cop0 s));
             s1 = map_cop0 (\<lambda>c. c\<lparr>c0_entry_hi := entry_hi_value value\<rparr>) s
         in ok (if bf_get 0 8 (c0_entry_hi (cop0 s1)) \<noteq> old_asid then soft_tlb_invalidate s1 else s1))
      else if reg_num = 11 then
        ok (check_interrupt (map_cop0 (\<lambda>c. c\<lparr>c0_compare := ucast value,
              c0_cause := put_bit CA_IP7 False (c0_cause c)\<rparr>) s))
      else if reg_num = 12 then
        ok (check_interrupt (map_cop0 (\<lambda>c. c\<lparr>c0_status := ucast value\<rparr>) s))
      else if reg_num = 13 then
        ok (check_interrupt (map_cop0 (\<lambda>c. c\<lparr>c0_cause :=
              put_bit CA_IP1 (bit value 9) (put_bit CA_IP0 (bit value 8) (c0_cause c))\<rparr>) s))
      else if reg_num = 14 then ok (map_cop0 (\<lambda>c. c\<lparr>c0_epc := value\<rparr>) s)
      else if reg_num = 15 then ok (map_cop0 (\<lambda>c. c\<lparr>c0_prid := ucast value\<rparr>) s)
      else if reg_num = 16 then ok (map_cop0 (\<lambda>c. c\<lparr>c0_config := ucast value\<rparr>) s)
      else if reg_num = 17 then ok (map_cop0 (\<lambda>c. c\<lparr>c0_lladdr := ucast value\<rparr>) s)
      else if reg_num = 18 then ok (map_cop0 (\<lambda>c. c\<lparr>c0_watch_lo := ucast value\<rparr>) s)
      else if reg_num = 19 then ok (map_cop0 (\<lambda>c. c\<lparr>c0_watch_hi := ucast value\<rparr>) s)
      else if reg_num = 20 then
        ok (map_cop0 (\<lambda>c. c\<lparr>c0_xcontext := (context_value value AND 0xFFFFFFFE00000000)
              OR (c0_xcontext c AND 0x1FFFFFFFF)\<rparr>) s)
      else if reg_num = 26 then ok (map_cop0 (\<lambda>c. c\<lparr>c0_parity_error := ucast value\<rparr>) s)
      else if reg_num = 27 then ok (map_cop0 (\<lambda>c. c\<lparr>c0_cache_error := ucast value\<rparr>) s)
      else if reg_num = 28 then ok (map_cop0 (\<lambda>c. c\<lparr>c0_tag_lo := ucast value\<rparr>) s)
      else if reg_num = 29 then ok (map_cop0 (\<lambda>c. c\<lparr>c0_tag_hi := ucast value\<rparr>) s)
      else if reg_num = 30 then ok (map_cop0 (\<lambda>c. c\<lparr>c0_error_epc := value\<rparr>) s)
      else Inl Aborted)"

definition cop0_reset :: "'a irq_state_scheme \<Rightarrow> 'a irq_state_scheme" where
  "cop0_reset = map_cop0 (\<lambda>c. c\<lparr>c0_cause := 0xB000007C,
     c0_status := put_bit ST_FR True (put_bit ST_CU1 True (put_bit ST_CU0 True 0)),
     c0_prid := 0x00000B22, c0_config := 0x7006E463, c0_epc := - 1, c0_error_epc := - 1,
     c0_wired := 0, c0_index := 63, c0_bad_vaddr := - 1, c0_context := 0, c0_xcontext := 0,
     c0_entry_hi := 0, c0_random := 31, llbit := False\<rparr>)"

section \<open>The Count timer\<close>

definition compare_target :: "cop0_regs \<Rightarrow> u64" where
  "compare_target c = push_bit 1 (ucast (c0_compare c)) AND 0x1FFFFFFFF"

definition add_count :: "u32 \<Rightarrow> 'a irq_state_scheme \<Rightarrow> 'a irq_state_scheme" where
  "add_count n s =
     (if n = 0 then s
      else let before = c0_count (cop0 s);
               s1 = map_cop0 (\<lambda>c. c\<lparr>c0_count := (before + ucast n) AND 0x1FFFFFFFF\<rparr>) s;
               dist = (compare_target (cop0 s) - before) AND 0x1FFFFFFFF
           in if dist \<le> ucast n
              then check_interrupt (map_cop0 (\<lambda>c. c\<lparr>c0_cause := put_bit CA_IP7 True (c0_cause c)\<rparr>) s1)
              else s1)"

text \<open>Adding to Count as one update: a crossing of Compare sets IP7 and refreshes IP2.\<close>

definition timer_step :: "bool \<Rightarrow> u32 \<Rightarrow> cop0_regs \<Rightarrow> cop0_regs" where
  "timer_step ip2 n c =
     c\<lparr>c0_count := take_bit 33 (c0_count c + ucast n),
       c0_cause := (if take_bit 33 (compare_target c - c0_count c) \<le> ucast n
                    then put_bit CA_IP2 ip2 (put_bit CA_IP7 True (c0_cause c)) else c0_cause c)\<rparr>"

lemma m33: "x AND 0x1FFFFFFFF = take_bit 33 (x :: u64)"
  by (simp add: take_bit_eq_mask mask_eq_exp_minus_1)

lemma add_count_timer_step:
  "n \<noteq> 0 \<Longrightarrow> add_count n s = map_cop0 (timer_step (mi_intr (mi s) AND mi_intr_mask (mi s) \<noteq> 0) n) s"
  by (simp add: add_count_def Let_def m33 timer_step_def map_cop0_def check_interrupt_def set_cause_def)

lemma take_bit_add_left: "take_bit 33 (take_bit 33 x + y) = take_bit 33 (x + y)" for x y :: u64
  by (simp add: word_uint_eq_iff uint_word_ariths unsigned_take_bit_eq take_bit_eq_mod [where 'a = int] mod_mod_cancel
      mod_simps)

lemma take_bit_diff_left: "take_bit 33 (take_bit 33 x - y) = take_bit 33 (x - y)"
  and take_bit_diff_right: "take_bit 33 (x - take_bit 33 y) = take_bit 33 (x - y)" for x y :: u64
  by (simp_all add: word_uint_eq_iff uint_word_ariths unsigned_take_bit_eq take_bit_eq_mod [where 'a = int] mod_mod_cancel
      mod_simps)

lemma timer_step_add:
  assumes "unat m + unat n < 2 ^ 32"
  shows "timer_step q n (timer_step q m c) = timer_step q (m + n) c"
proof -
  let ?b = "c0_count c" and ?t = "compare_target c"
  let ?d = "take_bit 33 (?t - ?b)"
  have t [simp]: "compare_target (timer_step q m c) = ?t"
    by (simp add: compare_target_def timer_step_def)
  have mn: "ucast (m + n) = (ucast m + ucast n :: u64)"
    using assms by (simp add: word_unat_eq_iff unat_up unat_word_ariths)
  have c: "take_bit 33 (take_bit 33 (?b + ucast m) + ucast n) = take_bit 33 (?b + ucast (m + n))"
    unfolding mn take_bit_add_left by (simp add: add.assoc)
  have d2: "take_bit 33 (?t - take_bit 33 (?b + ucast m)) = take_bit 33 (?d - ucast m)"
    by (simp add: take_bit_diff_left take_bit_diff_right diff_diff_eq)
  have u: "unat (ucast m + ucast n :: u64) = unat m + unat n"
    using assms by (simp add: unat_word_ariths unat_up)
  have dl: "unat ?d < 2 ^ 33" by (simp add: unsigned_take_bit_eq take_bit_eq_mod [where 'a = nat])
  have "take_bit 33 (?d - ucast m) = ?d - ucast m" if "\<not> ?d \<le> ucast m"
  proof -
    have "?d - ucast m \<le> ?d" using that by (simp add: word_le_nat_alt unat_sub)
    then have "unat (?d - ucast m) < 2 ^ 33" using dl by (simp add: word_le_nat_alt)
    then show ?thesis by (simp add: word_unat_eq_iff unsigned_take_bit_eq take_bit_eq_mod [where 'a = nat])
  qed
  moreover have "?d - ucast m \<le> ucast n \<longleftrightarrow> ?d \<le> ucast (m + n)" if "\<not> ?d \<le> ucast m"
    using that u unfolding mn by (auto simp add: word_le_nat_alt unat_sub unat_up)
  moreover have "?d \<le> ucast m \<Longrightarrow> ?d \<le> ucast (m + n)"
    using u unfolding mn by (simp add: word_le_nat_alt unat_up)
  moreover have "put_bit 10 q (put_bit 15 True (put_bit 10 q (put_bit 15 True x))) =
      put_bit 10 q (put_bit 15 True x)" for x :: u32
    by (rule bit_word_eqI) (simp add: bit_put_bit)
  ultimately show ?thesis
    unfolding timer_step_def [of q n "timer_step q m c"] t
    by (simp add: timer_step_def c d2 cong: if_cong)
qed

text \<open>C28: advancing the Count timer in one batch, as the batching interpreter does, leaves exactly
  the machine that advancing it in two steps leaves: no crossing of Compare is lost or invented.\<close>

theorem add_count_batch:
  assumes "unat m + unat n < 2 ^ 32"
  shows "add_count n (add_count m s) = add_count (m + n) s"
proof (cases "m = 0 \<or> n = 0")
  case False
  then have "m + n \<noteq> 0" using assms by (auto simp: word_unat_eq_iff unat_word_ariths)
  with False show ?thesis
    using timer_step_add [OF assms]
    by (simp add: add_count_timer_step map_cop0_def)
qed (auto simp: add_count_def)

section \<open>Random\<close>

definition random_ok :: "cop0_regs \<Rightarrow> bool" where
  "random_ok c \<longleftrightarrow> random_lo c \<le> c0_random c \<and> c0_random c \<le> random_hi c"

lemma random_bounds: "random_lo c \<le> random_hi c"
proof -
  have "c0_wired c AND 0x3F \<le> 0x3F" by (rule word_and_le1)
  then show ?thesis by (simp add: random_lo_def random_hi_def Let_def) (simp add: not_less)
qed

lemma random_ok_advance: "random_ok c \<Longrightarrow> random_ok (advance_random c)"
  using random_bounds [of c]
  by (auto simp: random_ok_def advance_random_def Let_def random_lo_def random_hi_def not_less
      word_le_nat_alt word_less_nat_alt unat_word_ariths split: if_splits)

lemma random_ok_reset: "random_ok (cop0 (cop0_reset s))"
  by (simp add: cop0_reset_def random_ok_def random_lo_def random_hi_def)

lemma write_wired_ok: "random_ok (write_wired v c)"
proof -
  have "(ucast (v AND 0x3F) :: u32) AND 0x3F = ucast (v AND 0x3F)"
    by (rule bit_word_eqI) (auto simp: bit_and_iff bit_ucast_iff)
  then show ?thesis
    using random_bounds [of "write_wired v c"]
    by (auto simp: random_ok_def write_wired_def Let_def random_lo_def random_hi_def not_less)
qed

lemma check_interrupt_frame [simp]:
  "c0_wired (cop0 (check_interrupt s)) = c0_wired (cop0 s)"
  "c0_random (cop0 (check_interrupt s)) = c0_random (cop0 s)"
  "c0_entry_hi (cop0 (check_interrupt s)) = c0_entry_hi (cop0 s)"
  "c0_status (cop0 (check_interrupt s)) = c0_status (cop0 s)"
  "tlb (check_interrupt t) = tlb t"
  by (simp_all add: check_interrupt_def set_cause_def)

lemma soft_tlb_invalidate_cop0 [simp]: "cop0 (soft_tlb_invalidate s) = cop0 s"
  by (simp add: soft_tlb_invalidate_def)

lemma cop0_write_random:
  "cop0_write n v s = Inr s' \<Longrightarrow> n \<noteq> 6 \<Longrightarrow>
   c0_wired (cop0 s') = c0_wired (cop0 s) \<and> c0_random (cop0 s') = c0_random (cop0 s)"
  by (simp add: cop0_write_def Let_def split: if_splits) (auto split: if_splits)

lemma cop0_write_tlb:
  "cop0_write n v s = Inr s' \<Longrightarrow> n \<noteq> 10 \<Longrightarrow>
   tlb s' = tlb s \<and> c0_entry_hi (cop0 s') = c0_entry_hi (cop0 s)"
  by (simp add: cop0_write_def Let_def split: if_splits) (auto simp: write_wired_def Let_def)

text \<open>No register write takes Random out of its range (Wired to 31, or 0 to 63 when Wired is
  past the last entry); neither does a TLBWR, which also leaves Random in range when it starts
  from any value.\<close>

theorem random_stays_in_range:
  assumes "random_ok (cop0 s)"
  shows "holds_ok (\<lambda>s'. random_ok (cop0 s')) (cop0_write n v s) \<and>
    random_ok (cop0 (write_entry True t))"
proof
  have "random_ok (cop0 s')" if w: "cop0_write n v s = Inr s'" for s'
  proof (cases "n = 6")
    case True
    with w show ?thesis by (simp add: cop0_write_def) (auto simp: write_wired_ok)
  next
    case False
    with cop0_write_random [OF w] assms show ?thesis
      by (simp add: random_ok_def random_lo_def random_hi_def)
  qed
  then show "holds_ok (\<lambda>s'. random_ok (cop0 s')) (cop0_write n v s)"
    by (simp add: holds_ok_iff)
  let ?c = "cop0 t"
  let ?c1 = "if c0_random ?c < random_lo ?c \<or> c0_random ?c > random_hi ?c
             then ?c\<lparr>c0_random := random_lo ?c\<rparr> else ?c"
  have "random_ok ?c1"
    using random_bounds [of ?c] by (auto simp: random_ok_def random_lo_def random_hi_def Let_def not_less)
  then show "random_ok (cop0 (write_entry True t))"
    by (simp add: write_entry_def Let_def random_ok_advance)
qed

text \<open>No COP0 register write makes the soft TLB wrong: a change of the address space drops
  every cached translation.\<close>

theorem cop0_write_soft_ok:
  assumes "soft_ok s"
  shows "holds_ok soft_ok (cop0_write n v s)"
proof -
  have "soft_ok s'" if w: "cop0_write n v s = Inr s'" for s'
  proof (cases "n = 10")
    case True
    let ?s1 = "map_cop0 (\<lambda>c. c\<lparr>c0_entry_hi := entry_hi_value v\<rparr>) s"
    have "soft_ok ?s1" if "asid ?s1 = asid s"
      using assms that soft_ok_cong [of ?s1 s] by simp
    with w True show ?thesis
      by (auto simp: cop0_write_def Let_def asid_def split: if_splits)
  next
    case False
    with cop0_write_tlb [OF w] have "tlb s' = tlb s" "asid s' = asid s" by (simp_all add: asid_def)
    with assms soft_ok_cong [of s' s] show ?thesis by simp
  qed
  then show ?thesis by (simp add: holds_ok_iff)
qed

section \<open>TLB instructions\<close>

lemma msb_word: "0x80000000 \<le> (v :: u32) \<longleftrightarrow> bit v 31"
proof -
  have "bit v 31 \<longleftrightarrow> bit (unat v) 31" by (simp add: bit_unsigned_iff)
  also have "\<dots> \<longleftrightarrow> 1 \<le> unat v div 2147483648"
  proof -
    have "unat v div 2147483648 < 2" using u32_less [of v] by (simp add: less_mult_imp_div_less)
    then have "unat v div 2147483648 = 0 \<or> unat v div 2147483648 = 1" by linarith
    then show ?thesis by (auto simp: bit_iff_odd)
  qed
  finally show ?thesis by (simp add: word_le_nat_alt Suc_le_eq div_greater_zero_iff)
qed

lemma entry_hi_32 [simp]: "\<not> bit (entry_hi_value (ucast (w :: u32))) 35"
proof -
  have "unat (ucast w :: u64) \<le> unat (0xFFFFFFFF :: u64)"
    using u32_less [of w] by (simp add: unat_up)
  then have "(ucast w :: u64) \<le> 0xFFFFFFFF" by (simp add: word_le_nat_alt)
  then show ?thesis
    by (auto simp: entry_hi_value_def Let_def bit_or_iff bit_push_bit_iff bit_ucast_iff bit_and_iff
        dest: bit_imp_le_length)
qed

text \<open>A TLB entry whose EntryHi was written by MTC0 never matches an address of the kernel half:
  the write keeps 19 bits of the page number, the lookup compares the 27 bits of the sign-extended
  address.\<close>

theorem mtc0_entry_misses_kernel:
  assumes "0x80000000 \<le> v"
  shows "case cop0_write 10 (ucast (w :: u32)) s of Inl _ \<Rightarrow> False
    | Inr s' \<Rightarrow> \<not> entry_matches entry_hi (sext32 v) (entry_of_cop0 (cop0 s'))"
proof -
  let ?hi = "entry_hi_value (ucast w)"
  have "bit (calculate_vpn (sext32 v) m) 35" for m
    using assms
    by (auto simp: calculate_vpn_def Let_def bit_and_iff bit_or_iff bit_not_iff bit_ucast_iff bit_sext32
        msb_word dest: bit_imp_le_length)
  moreover have "\<not> bit (calculate_vpn (e_hi (entry_of_cop0 c)) m) 35" if "c0_entry_hi c = ?hi" for c m
    using that
    by (simp add: entry_of_cop0_def Let_def calculate_vpn_def bit_and_iff bit_or_iff bit_bf_set bit_bf_get
        bit_drop_bit_eq)
  ultimately have "\<not> entry_matches h (sext32 v) (entry_of_cop0 c)" if "c0_entry_hi c = ?hi" for h c
    using that unfolding entry_matches_def by (metis)
  then show ?thesis by (simp add: cop0_write_def Let_def)
qed

lemma bit_mask_field:
  "bit (mask_field m) n \<longleftrightarrow> n < 12 \<and> bit m (13 + (if even n then n + 1 else n))"
proof -
  have "bit (0b101010101010 :: u32) k \<longleftrightarrow> odd k" if "k < 12" for k
  proof -
    from that have "k = 0 \<or> k = 1 \<or> k = 2 \<or> k = 3 \<or> k = 4 \<or> k = 5 \<or> k = 6 \<or> k = 7 \<or> k = 8 \<or> k = 9
        \<or> k = 10 \<or> k = 11" by presburger
    then show ?thesis by (elim disjE) simp_all
  qed
  moreover have "(0b101010101010 :: u32) = take_bit 12 0b101010101010" by simp
  then have "bit (0b101010101010 :: u32) k \<Longrightarrow> k < 12" for k by (metis bit_take_bit_iff)
  ultimately have top: "bit (0b101010101010 :: u32) k \<longleftrightarrow> k < 12 \<and> odd k" for k by blast
  have m12: "(0xFFF :: u32) = mask 12" by (simp add: mask_eq_exp_minus_1)
  have m25: "(0x01FFE000 :: u32) = push_bit 13 (mask 12)" by (simp add: mask_eq_exp_minus_1 push_bit_eq_mult)
  define f where "f = drop_bit 13 (m AND 0x01FFE000) AND 0xFFF"
  define k :: u32 where "k = 0b101010101010"
  have f: "bit f i \<longleftrightarrow> i < 12 \<and> bit m (13 + i)" for i
    unfolding f_def m12 m25 by (auto simp: bit_and_iff bit_drop_bit_eq bit_push_bit_iff bit_mask_iff add.commute
        dest: bit_imp_le_length)
  have k: "bit k i \<longleftrightarrow> i < 12 \<and> odd i" for i unfolding k_def by (rule top)
  have "mask_field m = (f AND k) OR drop_bit 1 (f AND k)"
    by (simp only: mask_field_def f_def k_def Let_def)
  moreover have "n < 12 \<Longrightarrow> even n \<Longrightarrow> Suc n < 12" by presburger
  ultimately show ?thesis by (auto simp: bit_or_iff bit_drop_bit_eq bit_and_iff f k)
qed

lemma mask_field_idem: "mask_field (push_bit 13 (mask_field m)) = mask_field m"
  by (rule bit_word_eqI) (auto simp: bit_mask_field bit_push_bit_iff)

lemma vpn_again:
  "bf_set 13 27 (bf_get 13 27 (bf_set 13 27 (x AND k) y) AND k) (bf_set 13 27 (x AND k) y) =
   bf_set 13 27 (x AND k) (y :: u64)"
  by (rule bit_word_eqI) (auto simp: bit_bf_set bit_bf_get bit_and_iff simp del: bf_get_set_same)

text \<open>TLBWI followed by TLBR and another TLBWI leaves the entry as the first one wrote it: what
  TLBR reads back is the entry in a form that writes the same entry again.\<close>

theorem tlbwi_tlbr_roundtrip:
  "entry_of_cop0 (cop0 (read_entry (write_entry False s))) = entry_of_cop0 (cop0 s)"
proof -
  let ?c = "cop0 s"
  let ?e = "entry_of_cop0 ?c"
  have lo: "put_bit 0 g (x AND 0x03FFFFFE) AND 0x03FFFFFE = x AND (0x03FFFFFE :: u32)" for g x
    by (rule bit_word_eqI) (auto simp: bit_and_iff bit_put_bit)
  have r: "cop0 (read_entry (write_entry False s)) = ?c\<lparr>c0_page_mask := e_mask ?e, c0_entry_hi := e_hi ?e,
      c0_entry_lo0 := put_bit 0 (global ?e) (e_lo0 ?e), c0_entry_lo1 := put_bit 0 (global ?e) (e_lo1 ?e)\<rparr>"
    by (simp add: read_entry_def write_entry_def Let_def soft_tlb_invalidate_def)
  show ?thesis
    unfolding r
    by (simp add: entry_of_cop0_def Let_def mask_field_idem lo vpn_again del: bf_get_set_same)
qed

lemma bf_set_get_id: "bf_set lo w (bf_get lo w x) (x :: 'a::len word) = x"
  by (rule bit_word_eqI) (auto simp: bit_bf_set bit_bf_get)

lemma find_upt_unique:
  "i < n \<Longrightarrow> (\<And>j. j < n \<Longrightarrow> P j \<longleftrightarrow> j = i) \<Longrightarrow> find P [0..<n] = Some i"
  by (auto simp: find_Some_iff intro!: exI [of _ i])

lemma vpn_mtc0:
  assumes "v < 0x80000000"
  shows "calculate_vpn (sext32 v) 0 = calculate_vpn (entry_hi_value (ucast v)) 0"
proof -
  have b31: "\<not> bit v 31" using assms unfolding msb_word [symmetric] by (simp only: not_le)
  have "unat (ucast v :: u64) \<le> unat (0xFFFFFFFF :: u64)" using u32_less [of v] by (simp add: unat_up)
  then have le: "(ucast v :: u64) \<le> 0xFFFFFFFF" by (simp add: word_le_nat_alt)
  have ud: "ucast (ucast v :: u64) = v" by (rule bit_word_eqI) (auto simp: bit_ucast_iff)
  have m19: "(0x7FFFF :: u32) = mask 19" and m8: "(0xFF :: u32) = mask 8"
    and m40: "(0xFFFFFFFFFF :: u64) = mask 40" and m13: "ucast (0 OR 0x1fff :: u32) = (mask 13 :: u64)"
    by (simp_all add: mask_eq_exp_minus_1)
  have hi: "entry_hi_value (ucast v) = push_bit 13 (ucast (drop_bit 13 v AND mask 19)) OR ucast (v AND mask 8)"
    using le b31 ud by (simp add: entry_hi_value_def Let_def sless_0_iff m19 m8)
  show ?thesis
    unfolding calculate_vpn_def Let_def m40 m13 hi
    by (rule bit_word_eqI)
      (use b31 in \<open>auto simp: bit_and_iff bit_or_iff bit_not_iff bit_push_bit_iff bit_ucast_iff bit_drop_bit_eq
        bit_mask_iff bit_sext32 dest: bit_imp_le_length\<close>)
qed

lemma same_page_bits: "drop_bit 13 w = drop_bit 13 v \<Longrightarrow> 13 \<le> n \<Longrightarrow> bit w n = bit v n" for v w :: u32
proof -
  assume e: "drop_bit 13 w = drop_bit 13 v" and n: "13 \<le> n"
  from e have "bit (drop_bit 13 w) (n - 13) = bit (drop_bit 13 v) (n - 13)" by (rule arg_cong)
  with n show ?thesis by (simp add: bit_drop_bit_eq)
qed

lemma vpn_same_page:
  assumes "drop_bit 13 w = drop_bit 13 (v :: u32)" "v < 0x80000000"
  shows "calculate_vpn (sext32 v) 0 = calculate_vpn (entry_hi_value (ucast w)) 0"
proof -
  have b: "bit w n = bit v n" if "13 \<le> n" for n using same_page_bits [OF assms(1) that] .
  then have "w < 0x80000000"
    using assms(2) msb_word [of v] msb_word [of w] by (auto simp: not_le [symmetric])
  from vpn_mtc0 [OF this] have "calculate_vpn (entry_hi_value (ucast w)) 0 = calculate_vpn (sext32 w) 0" ..
  also have "\<dots> = calculate_vpn (sext32 v) 0"
  proof -
    have m40: "(0xFFFFFFFFFF :: u64) = mask 40" and m13: "ucast (0 OR 0x1fff :: u32) = (mask 13 :: u64)"
      by (simp_all add: mask_eq_exp_minus_1)
    show ?thesis unfolding calculate_vpn_def Let_def m40 m13
      by (rule bit_word_eqI) (auto simp: bit_and_iff bit_or_iff bit_not_iff bit_mask_iff bit_drop_bit_eq bit_sext32 b)
  qed
  finally show ?thesis ..
qed

lemma and_bit_12: "(v AND 0x1000 = 0) = (\<not> bit (v :: u32) 12)"
  by (simp add: and_exp_eq_0_iff_not_bit [of v 12, simplified])

lemma pfn_masked: "bf_get 6 20 (x AND 0x03FFFFFE) = bf_get 6 20 (x :: u32)"
  by (simp add: bf_get_def drop_bit_and take_bit_eq_mask mask_eq_exp_minus_1 ac_simps)

lemma user_not_direct: "v < 0x80000000 \<Longrightarrow> try_direct_map v = None"
proof -
  assume "v < 0x80000000"
  then have "unat v div 536870912 < 4" by (simp add: word_less_nat_alt less_mult_imp_div_less)
  then have "unat (drop_bit 29 v) < 4" by (simp add: drop_bit_eq_div unat_div_distrib)
  then have "drop_bit 29 v \<noteq> 4 \<and> drop_bit 29 v \<noteq> 5" by auto
  then show ?thesis by (simp add: try_direct_map_def)
qed

text \<open>C26: after TLBWI has written a 4 KB entry, a user-segment address of its pair of pages translates
  to the frame and offset the EntryLo register of its page gives, provided the page is valid (and
  writable, for a store), the entry's address space is the current one and no other entry matches.\<close>

theorem tlbwi_maps_page:
  fixes s :: "'a tlb_state_scheme" and v w :: u32
  defines "c \<equiv> cop0 s"
  defines "lo \<equiv> if bit v 12 then c0_entry_lo1 c else c0_entry_lo0 c"
  assumes "c0_page_mask c = 0" and "c0_entry_hi c = entry_hi_value (ucast w)"
    and "drop_bit 13 w = drop_bit 13 v" and "v < 0x80000000"
    and "bit lo 1" and "acc = STORE \<Longrightarrow> bit lo 2"
    and "\<And>j. j < 32 \<Longrightarrow> word_of_nat j \<noteq> c0_index c AND 0x1f \<Longrightarrow>
      \<not> entry_matches (c0_entry_hi c) (sext32 v) (entries (tlb s) (word_of_nat j))"
  shows "translate (write_entry False s) acc v = Some (push_bit 12 (bf_get 6 20 lo) OR (v AND 0xFFF))"
proof -
  let ?i = "c0_index c AND 0x1f" and ?s = "write_entry False s"
  have e: "entry_of_cop0 c = \<lparr>is_valid = True, global = bit (c0_entry_lo0 c) 0 \<and> bit (c0_entry_lo1 c) 0,
      e_lo0 = c0_entry_lo0 c AND 0x03FFFFFE, e_lo1 = c0_entry_lo1 c AND 0x03FFFFFE,
      e_hi = c0_entry_hi c, e_mask = 0\<rparr>"
    using assms(3) by (simp add: entry_of_cop0_def mask_field_def Let_def bf_set_get_id)
  have s: "entries (tlb ?s) = (entries (tlb s))(?i := entry_of_cop0 c)" "cop0 ?s = c"
    by (simp_all add: write_entry_def Let_def soft_tlb_invalidate_def c_def)
  have "?i \<le> 0x1f" by (rule word_and_le1)
  then have i: "unat ?i < 32" by (simp add: word_le_nat_alt)
  have j: "word_of_nat j = ?i \<longleftrightarrow> j = unat ?i" if "j < 32" for j
  proof -
    have "unat (word_of_nat j :: u32) = j" using that by (simp add: unat_of_nat)
    then show ?thesis by (metis word_nat_cases word_unat_eq_iff)
  qed
  have m: "entry_matches (c0_entry_hi c) (sext32 v) (entry_of_cop0 c)"
    using vpn_same_page [OF assms(5,6)] assms(4) by (simp add: entry_matches_def e)
  have "lookup_tlb_entry_index (sext32 v) ?s = Some ?i"
    unfolding lookup_tlb_entry_index_def s
    by (subst find_upt_unique [OF i]) (use m assms(9) j in \<open>auto simp: fun_upd_apply\<close>)
  moreover have "entry_lo_for v (entry_of_cop0 c) = lo AND 0x03FFFFFE"
    by (simp add: entry_lo_for_def entry_offset_mask_def e lo_def and_bit_12)
  moreover have "bit (lo AND 0x03FFFFFE) 1" "acc = STORE \<Longrightarrow> bit (lo AND 0x03FFFFFE) 2"
    "bf_get 6 20 (lo AND 0x03FFFFFE) = bf_get 6 20 lo"
    using assms(7,8) by (simp_all add: bit_and_iff pfn_masked)
  moreover have "try_direct_map v = None"
    using assms(6) by (simp add: user_not_direct)
  ultimately show ?thesis
    by (simp add: translate_def tlb_translate_def sign_extend_vaddr32_def s entry_offset_mask_def e Let_def)
qed

text \<open>C33: TLBR can load another address space into EntryHi without dropping the cached translations.
  Starting from a sound soft TLB that serves \<open>v\<close>, when no entry of the TLB maps \<open>v\<close> in the address
  space of the entry that TLBR reads, the architecture faults on \<open>v\<close> after the TLBR, but the
  emulator still serves the physical address of the old space, and its soft TLB is no longer sound;
  with the invalidation that MTC0 does on the same change the access faults as it should.\<close>

theorem tlbr_keeps_stale:
  assumes "soft_ok s" and "soft_tlb_lookup v n acc s = Some p" and "try_direct_map v = None"
    and "list_all (\<lambda>j. \<not> entry_matches (e_hi (entries (tlb s) (c0_index (cop0 s) AND 0x1f))) (sext32 v)
           (entries (tlb s) (word_of_nat j))) [0..<32]"
  shows "translate s acc v = Some p \<and> translate (read_entry s) acc v = None \<and>
    resolve_vaddr_cached v n acc (read_entry s) = Inr (Some p, read_entry s) \<and> \<not> soft_ok (read_entry s) \<and>
    (\<exists>t. resolve_vaddr_cached v n acc (soft_tlb_invalidate (read_entry s)) = Inr (None, t))"
proof -
  have hit: "translate t acc v = Some p" if "soft_ok t" "soft_tlb_lookup v n acc t = Some p"
    for t :: "'a tlb_state_scheme"
    using that mmu.soft_hit [of t "tlb t" acc]
    by (auto simp: soft_tlb_lookup_def soft_ok_def Let_def split: if_splits)
  have t: "tlb (read_entry s) = tlb s" by (simp add: read_entry_def Let_def)
  then have l: "soft_tlb_lookup v n acc (read_entry s) = Some p"
    using assms(2) by (simp only: soft_tlb_lookup_def)
  have "c0_entry_hi (cop0 (read_entry s)) = e_hi (entries (tlb s) (c0_index (cop0 s) AND 0x1f))"
    by (simp add: read_entry_def Let_def)
  then have "lookup_tlb_entry_index (sext32 v) (read_entry s) = None"
    using assms(4) by (auto simp: lookup_tlb_entry_index_def find_None_iff t list_all_iff)
  then have n: "translate (read_entry s) acc v = None"
    using assms(3) by (simp add: translate_def tlb_translate_def sign_extend_vaddr32_def)
  let ?u = "soft_tlb_invalidate (read_entry s)"
  have "entries (tlb ?u) = entries (tlb (read_entry s))" "asid ?u = asid (read_entry s)"
    by (simp_all add: soft_tlb_invalidate_def)
  then have "translate ?u acc v = None" using n translate_cong [of ?u "read_entry s"] by simp
  moreover from this have "soft_tlb_lookup v n acc ?u = None"
    by (cases "soft_tlb_lookup v n acc ?u")
      (use mmu.soft_hit [of ?u "tlb ?u" acc] in
        \<open>auto simp: soft_tlb_lookup_def soft_ok_def [symmetric] Let_def split: if_splits\<close>)
  ultimately have "\<exists>t. resolve_vaddr_cached v n acc ?u = Inr (None, t)"
    by (simp add: resolve_vaddr_cached_def resolve_vaddr_eq)
  moreover have "\<not> soft_ok (read_entry s)" using hit [OF _ l] n by auto
  ultimately show ?thesis using hit [OF assms(1,2)] l n by (simp add: resolve_vaddr_cached_def)
qed

end
