(* ===== verification/Cpu.thy ===== *)
theory Cpu
  imports Cop0
begin

text \<open>
  The CPU core (\<open>src/cpu/cpu.cpp\<close>, \<open>include/cpu/cpu.h\<close>): general registers, the three program
  counters and the delay-slot flags, exception entry, and the COP1 register file
  (\<open>src/cpu/cop1.cpp\<close>). Branches are in theory \<open>Branch\<close>, because a branch to itself looks at
  memory.
\<close>

section \<open>State\<close>

record cpu_regs =
  gpr :: "u32 \<Rightarrow> u64"
  lo :: u64
  hi :: u64
  delay_slot :: bool
  prev_delay_slot :: bool
  prev_pc :: u64
  pc :: u64
  next_pc :: u64

record cop1_regs =
  fcr0 :: u32
  fcr31 :: u32
  fgr :: "u32 \<Rightarrow> u64"

record idle_ctx =
  budget_left :: int
  pending_skip :: int
  idle_active :: bool

record cpu_state = tlb_state +
  cpu :: cpu_regs
  cop1 :: cop1_regs
  idle :: idle_ctx

definition map_cpu :: "(cpu_regs \<Rightarrow> cpu_regs) \<Rightarrow> 'a cpu_state_scheme \<Rightarrow> 'a cpu_state_scheme" where
  "map_cpu f s = s\<lparr>cpu := f (cpu s)\<rparr>"

lemma map_cpu_simps [simp]:
  "cpu (map_cpu f s) = f (cpu s)" "cop0 (map_cpu f s) = cop0 s" "mi (map_cpu f s) = mi s"
  "tlb (map_cpu f s) = tlb s" "mem (map_cpu f s) = mem s" "dcache (map_cpu f s) = dcache s"
  "cop1 (map_cpu f s) = cop1 s" "idle (map_cpu f s) = idle s" "sched (map_cpu f s) = sched s"
  by (simp_all add: map_cpu_def)

lemma map_cop0_cpu [simp]:
  "cpu (map_cop0 f s) = cpu s" "cop1 (map_cop0 f s) = cop1 s" "idle (map_cop0 f s) = idle s"
  "sched (map_cop0 f t) = sched t"
  by (simp_all add: map_cop0_def)

section \<open>General registers\<close>

text \<open>Register numbers are 5-bit instruction fields, so the bounds assertion cannot fail.\<close>

definition gpr_read :: "u32 \<Rightarrow> 'a cpu_state_scheme \<Rightarrow> u64" where
  "gpr_read r s = (if r = 0 then 0 else gpr (cpu s) r)"

definition gpr_write :: "u32 \<Rightarrow> u64 \<Rightarrow> 'a cpu_state_scheme \<Rightarrow> 'a cpu_state_scheme" where
  "gpr_write r v s = (if r \<noteq> 0 then map_cpu (\<lambda>c. c\<lparr>gpr := (gpr c)(r := v)\<rparr>) s else s)"

definition set_lo_hi :: "u64 \<Rightarrow> u64 \<Rightarrow> 'a cpu_state_scheme \<Rightarrow> 'a cpu_state_scheme" where
  "set_lo_hi l h = map_cpu (\<lambda>c. c\<lparr>lo := l, hi := h\<rparr>)"

lemma gpr_read_write [simp]:
  "gpr_read r (gpr_write r' v s) = (if r = r' \<and> r \<noteq> 0 then v else gpr_read r s)"
  by (simp add: gpr_read_def gpr_write_def)

lemma gpr_write_frame [simp]:
  "cop0 (gpr_write r v s) = cop0 s" "tlb (gpr_write r v s) = tlb s" "mem (gpr_write r v s) = mem s"
  "pc (cpu (gpr_write r v s)) = pc (cpu s)" "next_pc (cpu (gpr_write r v s)) = next_pc (cpu s)"
  "prev_pc (cpu (gpr_write r v s)) = prev_pc (cpu s)" "lo (cpu (gpr_write r v s)) = lo (cpu s)"
  "hi (cpu (gpr_write r v s)) = hi (cpu s)"
  "delay_slot (cpu (gpr_write r v s)) = delay_slot (cpu s)"
  by (simp_all add: gpr_write_def)

section \<open>Program counters\<close>

definition set_pc64 :: "u64 \<Rightarrow> 'a cpu_state_scheme \<Rightarrow> 'a cpu_state_scheme" where
  "set_pc64 v = map_cpu (\<lambda>c. c\<lparr>prev_pc := pc c, pc := v, next_pc := v + 4\<rparr>)"

definition set_pc32 :: "u32 \<Rightarrow> 'a cpu_state_scheme \<Rightarrow> 'a cpu_state_scheme" where
  "set_pc32 v = map_cpu (\<lambda>c. c\<lparr>prev_pc := pc c, pc := sext32 v, next_pc := sext32 v + 4\<rparr>)"

definition advance_pc :: "'a cpu_state_scheme \<Rightarrow> 'a cpu_state_scheme" where
  "advance_pc = map_cpu (\<lambda>c. c\<lparr>prev_pc := pc c, pc := next_pc c, next_pc := next_pc c + 4\<rparr>)"

text \<open>The start of a step: what was the current instruction is now the previous one.\<close>

definition shift_delay_slot :: "'a cpu_state_scheme \<Rightarrow> 'a cpu_state_scheme" where
  "shift_delay_slot = map_cpu (\<lambda>c. c\<lparr>prev_delay_slot := delay_slot c, delay_slot := False\<rparr>)"

definition advance_pc_no_fetch :: "'a cpu_state_scheme \<Rightarrow> 'a cpu_state_scheme" where
  "advance_pc_no_fetch s = advance_pc (shift_delay_slot s)"

definition link :: "u32 \<Rightarrow> 'a cpu_state_scheme \<Rightarrow> 'a cpu_state_scheme" where
  "link r s = gpr_write r (pc (cpu s) + 4) s"

section \<open>COP1 registers\<close>

definition fr_low :: "u64 \<Rightarrow> u32" where
  "fr_low v = ucast v"

definition fr_high :: "u64 \<Rightarrow> u32" where
  "fr_high v = ucast (drop_bit 32 v)"

definition set_fr_low :: "u32 \<Rightarrow> u64 \<Rightarrow> u64" where
  "set_fr_low w v = (v AND NOT (mask 32)) OR ucast w"

definition set_fr_high :: "u32 \<Rightarrow> u64 \<Rightarrow> u64" where
  "set_fr_high w v = (v AND mask 32) OR push_bit 32 (ucast w)"

definition get_fgr_word :: "u32 \<Rightarrow> bool \<Rightarrow> cop1_regs \<Rightarrow> u32" where
  "get_fgr_word r fr c =
     (if fr then fr_low (fgr c r)
      else if r AND 1 \<noteq> 0 then fr_high (fgr c (r AND NOT 1)) else fr_low (fgr c r))"

definition put_fgr :: "u32 \<Rightarrow> u64 \<Rightarrow> cop1_regs \<Rightarrow> cop1_regs" where
  "put_fgr r v c = c\<lparr>fgr := (fgr c)(r := v)\<rparr>"

definition set_fgr_word :: "u32 \<Rightarrow> u32 \<Rightarrow> bool \<Rightarrow> cop1_regs \<Rightarrow> cop1_regs" where
  "set_fgr_word r w fr c =
     (if fr then put_fgr r (set_fr_low w (fgr c r)) c
      else if r AND 1 \<noteq> 0 then
        put_fgr (r AND NOT 1) (set_fr_high w (fgr c (r AND NOT 1))) c
      else put_fgr r (set_fr_low w (fgr c r)) c)"

definition get_fgr_dword :: "u32 \<Rightarrow> bool \<Rightarrow> cop1_regs \<Rightarrow> u64" where
  "get_fgr_dword r fr c = fgr c (if \<not> fr then r AND NOT 1 else r)"

definition set_fgr_dword :: "u32 \<Rightarrow> u64 \<Rightarrow> bool \<Rightarrow> cop1_regs \<Rightarrow> cop1_regs" where
  "set_fgr_dword r v fr = put_fgr (if \<not> fr then r AND NOT 1 else r) v"

definition get_fgr_word_arith :: "u32 \<Rightarrow> bool \<Rightarrow> cop1_regs \<Rightarrow> u32" where
  "get_fgr_word_arith r fr c = fr_low (fgr c (if \<not> fr then r AND NOT 1 else r))"

definition set_fgr_word_arith :: "u32 \<Rightarrow> u32 \<Rightarrow> bool \<Rightarrow> cop1_regs \<Rightarrow> cop1_regs" where
  "set_fgr_word_arith r w fr c =
     (let i = (if \<not> fr then r AND NOT 1 else r) in put_fgr i (set_fr_low w (fgr c i)) c)"

definition cop1_reset :: "cop1_regs \<Rightarrow> cop1_regs" where
  "cop1_reset c = c\<lparr>fcr0 := 0x00000B00, fcr31 := 0, fgr := (\<lambda>_. 0)\<rparr>"

definition cpu_reset :: "'a cpu_state_scheme \<Rightarrow> 'a cpu_state_scheme" where
  "cpu_reset s =
     (let s1 = map_cpu (\<lambda>c. c\<lparr>delay_slot := False, prev_delay_slot := False\<rparr>) s;
          s2 = cop0_reset s1;
          s3 = s2\<lparr>cop1 := cop1_reset (cop1 s2)\<rparr>
      in map_cpu (\<lambda>c. c\<lparr>prev_pc := 0, pc := 0, next_pc := 4\<rparr>) s3)"

section \<open>Exceptions\<close>

datatype exception_code =
    INTERRUPT | EX_TLB_MODIFICATION | TLB_MISS_LOAD | TLB_MISS_STORE
  | ADDRESS_ERROR_LOAD | ADDRESS_ERROR_STORE | BUS_ERROR_INS_FETCH | BUS_ERROR_LOAD_STORE
  | SYSCALL | BREAKPOINT | RESERVED_INSTR | COPROCESSOR_UNUSABLE | ARITHMETIC_OVERFLOW
  | TRAP | FLOATING_POINT | WATCH

fun exc_code :: "exception_code \<Rightarrow> u32" where
  "exc_code INTERRUPT = 0"
| "exc_code EX_TLB_MODIFICATION = 1"
| "exc_code TLB_MISS_LOAD = 2"
| "exc_code TLB_MISS_STORE = 3"
| "exc_code ADDRESS_ERROR_LOAD = 4"
| "exc_code ADDRESS_ERROR_STORE = 5"
| "exc_code BUS_ERROR_INS_FETCH = 6"
| "exc_code BUS_ERROR_LOAD_STORE = 7"
| "exc_code SYSCALL = 8"
| "exc_code BREAKPOINT = 9"
| "exc_code RESERVED_INSTR = 10"
| "exc_code COPROCESSOR_UNUSABLE = 11"
| "exc_code ARITHMETIC_OVERFLOW = 12"
| "exc_code TRAP = 13"
| "exc_code FLOATING_POINT = 15"
| "exc_code WATCH = 23"

definition get_tlb_exception_code :: "bus_access \<Rightarrow> 'a tlb_state_scheme \<Rightarrow> exception_code" where
  "get_tlb_exception_code acc s =
     (case tlb_err (tlb s) of
        TLB_MISS \<Rightarrow> if acc = LOAD then TLB_MISS_LOAD else TLB_MISS_STORE
      | TLB_INVALID \<Rightarrow> if acc = LOAD then TLB_MISS_LOAD else TLB_MISS_STORE
      | TLB_MODIFICATION \<Rightarrow> EX_TLB_MODIFICATION
      | TLB_DISALLOWED_ADDRESS \<Rightarrow> if acc = LOAD then ADDRESS_ERROR_LOAD else ADDRESS_ERROR_STORE)"

definition is_xtlb_miss :: "u64 \<Rightarrow> u32 \<Rightarrow> bool res" where
  "is_xtlb_miss bad_vaddr status =
     (let r = drop_bit 62 bad_vaddr AND 3
      in if r = 0 then ok (bit status ST_UX)
         else if r = 1 then ok (bit status ST_SX)
         else if r = 3 then ok (bit status ST_KX)
         else Inl Aborted)"

definition should_service_interrupt :: "'a irq_state_scheme \<Rightarrow> bool" where
  "should_service_interrupt s =
     (let c = cop0 s;
          interrupts_pending = (bf_get 8 8 (c0_status c) AND bf_get 8 8 (c0_cause c) \<noteq> 0)
      in interrupts_pending \<and> bit (c0_status c) ST_IE \<and> \<not> bit (c0_status c) ST_EXL
         \<and> \<not> bit (c0_status c) ST_ERL)"

text \<open>The part of \<open>handle_exception\<close> before the vector is chosen.\<close>

definition enter_exception ::
  "exception_code \<Rightarrow> u32 \<Rightarrow> bool \<Rightarrow> 'a cpu_state_scheme \<Rightarrow> 'a cpu_state_scheme" where
  "enter_exception code coprocessor_error use_prev_pc s =
     (let r = cpu s; epc = (if use_prev_pc then prev_pc r else pc r);
          s1 = (if \<not> bit (c0_status (cop0 s)) ST_EXL then
                  map_cop0 (\<lambda>c. c\<lparr>c0_cause := put_bit CA_BD (prev_delay_slot r) (c0_cause c),
                    c0_status := put_bit ST_EXL True (c0_status c),
                    c0_epc := (if prev_delay_slot r then epc - 4 else epc)\<rparr>) s
                else s)
      in map_cop0 (\<lambda>c. c\<lparr>c0_cause :=
           bf_set 2 5 (exc_code code) (bf_set 28 2 coprocessor_error (c0_cause c))\<rparr>) s1)"

text \<open>The vector of a TLB refill depends on the state before entry (\<open>old_exl\<close>) and after it.\<close>

definition exception_vector :: "exception_code \<Rightarrow> bool \<Rightarrow> 'a tlb_state_scheme \<Rightarrow> u32 res" where
  "exception_vector code old_exl s =
     (if code = TLB_MISS_LOAD \<or> code = TLB_MISS_STORE then
        (if old_exl \<or> tlb_err (tlb s) = TLB_INVALID then ok 0x80000180
         else bindR (is_xtlb_miss (c0_bad_vaddr (cop0 s)) (c0_status (cop0 s)))
                (\<lambda>x. ok (if x then 0x80000080 else 0x80000000)))
      else ok 0x80000180)"

definition handle_exception ::
  "exception_code \<Rightarrow> u32 \<Rightarrow> bool \<Rightarrow> 'a cpu_state_scheme \<Rightarrow> 'a cpu_state_scheme res" where
  "handle_exception code coprocessor_error use_prev_pc s =
     (let old_exl = bit (c0_status (cop0 s)) ST_EXL;
          s1 = enter_exception code coprocessor_error use_prev_pc s
      in if bit (c0_status (cop0 s1)) ST_BEV then Inl Unimplemented
         else bindR (exception_vector code old_exl s1) (\<lambda>vector. ok (set_pc32 vector s1)))"

definition eret :: "'a cpu_state_scheme \<Rightarrow> 'a cpu_state_scheme" where
  "eret s =
     (let s1 = (if bit (c0_status (cop0 s)) ST_ERL
                then map_cop0 (\<lambda>c. c\<lparr>c0_status := put_bit ST_ERL False (c0_status c)\<rparr>)
                       (set_pc64 (c0_error_epc (cop0 s)) s)
                else map_cop0 (\<lambda>c. c\<lparr>c0_status := put_bit ST_EXL False (c0_status c)\<rparr>)
                       (set_pc64 (c0_epc (cop0 s)) s))
      in map_cop0 (\<lambda>c. c\<lparr>llbit := False\<rparr>) s1)"

section \<open>Exception entry and return\<close>

lemma set_pc_frame [simp]:
  "cop0 (set_pc32 v s) = cop0 s" "tlb (set_pc32 v s) = tlb s" "mem (set_pc32 v s) = mem s"
  "cop0 (set_pc64 w s) = cop0 s" "tlb (set_pc64 w s) = tlb s" "mem (set_pc64 w s) = mem s"
  "pc (cpu (set_pc32 v s)) = sext32 v" "next_pc (cpu (set_pc32 v s)) = sext32 v + 4"
  "pc (cpu (set_pc64 w s)) = w" "next_pc (cpu (set_pc64 w s)) = w + 4"
  "gpr (cpu (set_pc32 v s)) = gpr (cpu s)" "gpr (cpu (set_pc64 w s)) = gpr (cpu s)"
  by (simp_all add: set_pc32_def set_pc64_def)

lemma enter_exception_frame [simp]:
  "cpu (enter_exception code ce b s) = cpu s" "tlb (enter_exception code ce b s) = tlb s"
  "mem (enter_exception code ce b s) = mem s" "mi (enter_exception code ce b s) = mi s"
  "c0_bad_vaddr (cop0 (enter_exception code ce b s)) = c0_bad_vaddr (cop0 s)"
  "c0_status (cop0 (enter_exception code ce b s)) = put_bit ST_EXL True (c0_status (cop0 s))"
  by (auto simp: enter_exception_def Let_def intro!: bit_word_eqI) (auto simp: bit_put_bit split: if_splits dest: bit_imp_le_length)

lemma enter_exception_epc:
  "c0_epc (cop0 (enter_exception code ce b s)) =
     (if bit (c0_status (cop0 s)) ST_EXL then c0_epc (cop0 s)
      else (if b then prev_pc (cpu s) else pc (cpu s)) - (if prev_delay_slot (cpu s) then 4 else 0))"
  by (simp add: enter_exception_def Let_def)

lemma enter_exception_cause:
  "bf_get 2 5 (c0_cause (cop0 (enter_exception code ce b s))) = exc_code code"
  "bit (c0_cause (cop0 (enter_exception code ce b s))) CA_BD \<longleftrightarrow>
     (if bit (c0_status (cop0 s)) ST_EXL then bit (c0_cause (cop0 s)) CA_BD else prev_delay_slot (cpu s))"
  "bf_get 8 8 (c0_cause (cop0 (enter_exception code ce b s))) = bf_get 8 8 (c0_cause (cop0 s))"
proof -
  have "take_bit 5 (exc_code code) = exc_code code" by (cases code) simp_all
  then show "bf_get 2 5 (c0_cause (cop0 (enter_exception code ce b s))) = exc_code code"
    by (simp add: enter_exception_def Let_def)
qed (simp_all add: enter_exception_def Let_def)

lemma handle_exception_cases:
  assumes "handle_exception code ce b s = Inr s'"
  obtains vector where "s' = set_pc32 vector (enter_exception code ce b s)"
    "exception_vector code (bit (c0_status (cop0 s)) ST_EXL) (enter_exception code ce b s) = Inr vector"
  using assms by (auto simp: handle_exception_def Let_def bindR_eq_Inr split: if_splits)

text \<open>An exception handler starts with interrupts held off: after any exception entry no
  interrupt is serviced, whatever is pending and enabled.\<close>

theorem exception_holds_interrupts:
  "holds_ok (\<lambda>s'. \<not> should_service_interrupt s' \<and> bit (c0_status (cop0 s')) ST_EXL)
     (handle_exception code ce b s)"
  by (auto simp: holds_ok_iff should_service_interrupt_def Let_def elim!: handle_exception_cases)

text \<open>C27: an exception taken outside a handler and an ERET that follows it at once give back the
  whole machine, as one equation: Status, the general registers, HI and LO, the delay-slot flags, COP1,
  the TLB, memory and the devices are what they were; only the program counters (which resume at the
  interrupted instruction, or at the branch when that was in a delay slot), EPC (that address), the
  Cause register and the cleared LL bit differ, and in Cause only the exception code, the coprocessor
  number and the branch-delay bit.\<close>

theorem exception_eret_roundtrip:
  assumes "handle_exception code ce use_prev s = Inr s1"
    and "\<not> bit (c0_status (cop0 s)) ST_EXL" and "\<not> bit (c0_status (cop0 s)) ST_ERL"
  shows "let resume = (if use_prev then prev_pc (cpu s) else pc (cpu s)) - (if prev_delay_slot (cpu s) then 4 else 0);
      cause = bf_set 2 5 (exc_code code) (bf_set 28 2 ce (put_bit CA_BD (prev_delay_slot (cpu s)) (c0_cause (cop0 s))))
    in eret s1 = s\<lparr>
         cpu := (cpu s)\<lparr>prev_pc := pc (cpu s1), pc := resume, next_pc := resume + 4\<rparr>,
         cop0 := (cop0 s)\<lparr>c0_cause := cause, c0_epc := resume, llbit := False\<rparr>\<rparr>"
proof -
  from assms(1) obtain vector where s1: "s1 = set_pc32 vector (enter_exception code ce use_prev s)"
    by (rule handle_exception_cases)
  have st: "put_bit ST_EXL False (put_bit ST_EXL True (c0_status (cop0 s))) = c0_status (cop0 s)"
    using assms(2) by (intro bit_word_eqI) (auto simp: bit_put_bit)
  show ?thesis
    using assms(2,3) st
    by (simp add: s1 eret_def Let_def enter_exception_def set_pc32_def set_pc64_def map_cpu_def map_cop0_def)
qed

text \<open>C31: the vector and the saved state on every branch: a nested exception keeps EPC and goes to the
  general vector; a TLB refill outside a handler goes to its own vector, the 64-bit one when the
  segment of the faulting address uses 64-bit addressing; everything else goes to the general
  vector.\<close>

theorem exception_vectors:
  "holds_ok (\<lambda>s'.
     pc (cpu s') = sext32
       (if bit (c0_status (cop0 s)) ST_EXL \<or> tlb_err (tlb s) = TLB_INVALID then 0x80000180
        else if code \<notin> {TLB_MISS_LOAD, TLB_MISS_STORE} then 0x80000180
        else if is_xtlb_miss (c0_bad_vaddr (cop0 s)) (c0_status (cop0 s)) = Inr True then 0x80000080
        else 0x80000000) \<and>
     c0_epc (cop0 s') =
       (if bit (c0_status (cop0 s)) ST_EXL then c0_epc (cop0 s)
        else (if use_prev then prev_pc (cpu s) else pc (cpu s)) - (if prev_delay_slot (cpu s) then 4 else 0)) \<and>
     bit (c0_cause (cop0 s')) CA_BD =
       (if bit (c0_status (cop0 s)) ST_EXL then bit (c0_cause (cop0 s)) CA_BD else prev_delay_slot (cpu s)) \<and>
     bf_get 2 5 (c0_cause (cop0 s')) = exc_code code)
   (handle_exception code ce use_prev s)"
proof -
  have x: "is_xtlb_miss v (put_bit (Suc 0) True st) = is_xtlb_miss v st" for v st
    by (simp add: is_xtlb_miss_def Let_def)
  show ?thesis
    by (auto simp: holds_ok_iff enter_exception_epc enter_exception_cause exception_vector_def bindR_eq_Inr x
        elim!: handle_exception_cases split: if_splits)
qed

section \<open>Floating-point register pairs\<close>

lemma fr_parts [simp]:
  "fr_low (set_fr_low w v) = w" "fr_high (set_fr_low w v) = fr_high v"
  "fr_low (set_fr_high w v) = fr_low v" "fr_high (set_fr_high w v) = w"
  by (rule bit_word_eqI; force simp: fr_low_def fr_high_def set_fr_low_def set_fr_high_def bit_ucast_iff
      bit_or_iff bit_and_iff bit_not_iff bit_mask_iff bit_push_bit_iff bit_drop_bit_eq
      dest: bit_imp_le_length)+

text \<open>In either FR mode a COP1 register gives back the word written to it, and in the FR=0 mode
  the two words of an even-odd pair are exactly the halves of the doubleword of the pair: writing
  one leaves the other alone.\<close>

theorem fgr_pairs:
  "get_fgr_word r fr (set_fgr_word r w fr c) = w \<and>
   get_fgr_dword r False (set_fgr_word (r OR 1) w False (set_fgr_word (r AND NOT 1) v False c)) =
     push_bit 32 (ucast w) OR ucast v \<and>
   get_fgr_word (r OR 1) False (set_fgr_word (r AND NOT 1) v False c) = get_fgr_word (r OR 1) False c"
proof -
  have odd: "(r OR 1) AND 1 \<noteq> 0" "(r OR 1) AND NOT 1 = r AND NOT 1" "(r AND NOT 1) AND 1 = 0"
    "(r AND NOT 1) AND NOT 1 = r AND NOT 1"
  proof -
    have "(r OR 1) AND 1 = 1" by (rule bit_word_eqI) (auto simp: bit_or_iff bit_and_iff bit_1_iff)
    then show "(r OR 1) AND 1 \<noteq> 0" by simp
  qed (rule bit_word_eqI; auto simp: bit_or_iff bit_and_iff bit_not_iff bit_1_iff)+
  have halves: "set_fr_high w (set_fr_low v x) = push_bit 32 (ucast w) OR ucast v" for x
    by (rule bit_word_eqI)
      (auto simp: set_fr_low_def set_fr_high_def bit_ucast_iff bit_or_iff bit_and_iff bit_not_iff
        bit_mask_iff bit_push_bit_iff dest: bit_imp_le_length)
  show ?thesis
    using odd halves
    by (auto simp: get_fgr_word_def set_fgr_word_def get_fgr_dword_def put_fgr_def)
qed

end
