(* ===== verification/Alu.thy ===== *)
theory Alu
  imports Cpu "HOL-Library.Signed_Division"
begin

text \<open>
  The instructions that only touch general registers, HI and LO
  (\<open>src/cpu/cpu_instruction_impl.cpp\<close>): one definition per handler, with the C conversions
  written out (\<open>lo32\<close> truncates to 32 bits, \<open>sext32\<close> and \<open>sext16\<close> extend, arithmetic shifts are
  \<open>signed_drop_bit\<close>, \<open>sdiv\<close> and \<open>smod\<close> are the division of C; where the source subtracts or
  multiplies signed integers, a result out of range is \<open>UndefinedOverflow\<close>). The theorems compare them with
  integer arithmetic.
\<close>

section \<open>Operands\<close>

definition assert_encoding_is_valid :: "bool \<Rightarrow> 'a res \<Rightarrow> 'a res" where
  "assert_encoding_is_valid validity k = (if validity then k else Inl BadEncoding)"

abbreviation (input) rs_val :: "u32 \<Rightarrow> 'a cpu_state_scheme \<Rightarrow> u64" where
  "rs_val inst s \<equiv> gpr_read (r_rs inst) s"

abbreviation (input) rt_val :: "u32 \<Rightarrow> 'a cpu_state_scheme \<Rightarrow> u64" where
  "rt_val inst s \<equiv> gpr_read (r_rt inst) s"

definition sa_of :: "u32 \<Rightarrow> nat" where
  "sa_of inst = unat (r_sa inst)"

definition low5 :: "u64 \<Rightarrow> nat" where
  "low5 v = unat (v AND 0b11111)"

text \<open>Where the source computes with signed integers, a result that does not fit is undefined in C++.\<close>

definition fits_int32 :: "int \<Rightarrow> bool" where
  "fits_int32 k \<longleftrightarrow> - 0x80000000 \<le> k \<and> k \<le> 0x7FFFFFFF"

definition fits_int64 :: "int \<Rightarrow> bool" where
  "fits_int64 k \<longleftrightarrow> - 0x8000000000000000 \<le> k \<and> k \<le> 0x7FFFFFFFFFFFFFFF"

section \<open>Handlers\<close>

definition op_add :: "u32 \<Rightarrow> 'a cpu_state_scheme \<Rightarrow> 'a cpu_state_scheme res" where
  "op_add inst s =
     assert_encoding_is_valid (r_sa inst = 0)
       (ok (gpr_write (r_rd inst) (sext32 (lo32 (rs_val inst s) + lo32 (rt_val inst s))) s))"

definition op_addu :: "u32 \<Rightarrow> 'a cpu_state_scheme \<Rightarrow> 'a cpu_state_scheme res" where
  "op_addu inst s =
     assert_encoding_is_valid (r_sa inst = 0)
       (ok (gpr_write (r_rd inst) (sext32 (lo32 (rs_val inst s) + lo32 (rt_val inst s))) s))"

definition op_dadd :: "u32 \<Rightarrow> 'a cpu_state_scheme \<Rightarrow> 'a cpu_state_scheme res" where
  "op_dadd inst s =
     ok (gpr_write (r_rd inst) (rs_val inst s + rt_val inst s) s)"

definition op_daddu :: "u32 \<Rightarrow> 'a cpu_state_scheme \<Rightarrow> 'a cpu_state_scheme res" where
  "op_daddu inst s =
     ok (gpr_write (r_rd inst) (rs_val inst s + rt_val inst s) s)"

definition op_sub :: "u32 \<Rightarrow> 'a cpu_state_scheme \<Rightarrow> 'a cpu_state_scheme res" where
  "op_sub inst s =
     assert_encoding_is_valid (r_sa inst = 0)
       (let res = sint (lo32 (rs_val inst s)) - sint (lo32 (rt_val inst s))
        in if fits_int32 res then ok (gpr_write (r_rd inst) (word_of_int res) s)
           else Inl UndefinedOverflow)"

definition op_subu :: "u32 \<Rightarrow> 'a cpu_state_scheme \<Rightarrow> 'a cpu_state_scheme res" where
  "op_subu inst s =
     assert_encoding_is_valid (r_sa inst = 0)
       (ok (gpr_write (r_rd inst) (sext32 (lo32 (rs_val inst s) - lo32 (rt_val inst s))) s))"

definition op_dsub :: "u32 \<Rightarrow> 'a cpu_state_scheme \<Rightarrow> 'a cpu_state_scheme res" where
  "op_dsub inst s =
     (let diff = sint (rs_val inst s) - sint (rt_val inst s)
      in if fits_int64 diff then ok (gpr_write (r_rd inst) (word_of_int diff) s)
         else Inl UndefinedOverflow)"

definition op_dsubu :: "u32 \<Rightarrow> 'a cpu_state_scheme \<Rightarrow> 'a cpu_state_scheme res" where
  "op_dsubu inst s =
     ok (gpr_write (r_rd inst) (rs_val inst s - rt_val inst s) s)"

text \<open>A 64-bit product whose halves are sign-extended into LO and HI.\<close>

definition set_product :: "u64 \<Rightarrow> 'a cpu_state_scheme \<Rightarrow> 'a cpu_state_scheme" where
  "set_product res = set_lo_hi (sext32 (lo32 (res AND 0xFFFFFFFF)))
     (sext32 (lo32 (drop_bit 32 res AND 0xFFFFFFFF)))"

definition mul_unsigned_hi :: "u64 \<Rightarrow> u64 \<Rightarrow> u64" where
  "mul_unsigned_hi a b = ucast (drop_bit 64 ((ucast a :: 128 word) * ucast b))"

definition mul_signed_hi :: "u64 \<Rightarrow> u64 \<Rightarrow> u64" where
  "mul_signed_hi a b = ucast (drop_bit 64 ((scast a :: 128 word) * scast b))"

definition op_mult :: "u32 \<Rightarrow> 'a cpu_state_scheme \<Rightarrow> 'a cpu_state_scheme res" where
  "op_mult inst s =
     assert_encoding_is_valid (r_sa inst = 0)
       (ok (set_product (sext32 (lo32 (rs_val inst s)) * sext32 (lo32 (rt_val inst s))) s))"

definition op_multu :: "u32 \<Rightarrow> 'a cpu_state_scheme \<Rightarrow> 'a cpu_state_scheme res" where
  "op_multu inst s =
     assert_encoding_is_valid (r_sa inst = 0)
       (ok (set_product ((rs_val inst s AND 0xFFFFFFFF) * (rt_val inst s AND 0xFFFFFFFF)) s))"

definition op_dmult :: "u32 \<Rightarrow> 'a cpu_state_scheme \<Rightarrow> 'a cpu_state_scheme res" where
  "op_dmult inst s =
     ok (set_lo_hi (rs_val inst s * rt_val inst s) (mul_signed_hi (rs_val inst s) (rt_val inst s)) s)"

definition op_dmultu :: "u32 \<Rightarrow> 'a cpu_state_scheme \<Rightarrow> 'a cpu_state_scheme res" where
  "op_dmultu inst s =
     (let lower = sint (rs_val inst s) * sint (rt_val inst s)
      in if fits_int64 lower
         then ok (set_lo_hi (word_of_int lower) (mul_unsigned_hi (rs_val inst s) (rt_val inst s)) s)
         else Inl UndefinedOverflow)"

definition op_div :: "u32 \<Rightarrow> 'a cpu_state_scheme \<Rightarrow> 'a cpu_state_scheme res" where
  "op_div inst s =
     (let dividend = sint (lo32 (rs_val inst s)); divisor = sint (lo32 (rt_val inst s))
      in if divisor = 0 then
           ok (set_lo_hi (if dividend \<ge> 0 then - 1 else 1) (word_of_int dividend) s)
         else ok (set_lo_hi (sext32 (word_of_int (dividend sdiv divisor)))
                    (sext32 (word_of_int (dividend smod divisor))) s))"

definition op_divu :: "u32 \<Rightarrow> 'a cpu_state_scheme \<Rightarrow> 'a cpu_state_scheme res" where
  "op_divu inst s =
     (let dividend = lo32 (rs_val inst s); divisor = lo32 (rt_val inst s)
      in if divisor = 0 then ok (set_lo_hi 0xFFFFFFFFFFFFFFFF (sext32 dividend) s)
         else ok (set_lo_hi (sext32 (dividend div divisor)) (sext32 (dividend mod divisor)) s))"

definition op_ddiv :: "u32 \<Rightarrow> 'a cpu_state_scheme \<Rightarrow> 'a cpu_state_scheme res" where
  "op_ddiv inst s =
     (let dividend = sint (rs_val inst s); divisor = sint (rt_val inst s)
      in if divisor = 0 then Inl Unimplemented
         else if divisor = - 1 \<and> dividend = - (2 ^ 63) then Inl Unimplemented
         else ok (set_lo_hi (word_of_int (dividend sdiv divisor)) (word_of_int (dividend smod divisor)) s))"

definition op_ddivu :: "u32 \<Rightarrow> 'a cpu_state_scheme \<Rightarrow> 'a cpu_state_scheme res" where
  "op_ddivu inst s =
     (let dividend = rs_val inst s; divisor = rt_val inst s
      in if divisor = 0 then ok (set_lo_hi 0xFFFFFFFFFFFFFFFF dividend s)
         else ok (set_lo_hi (dividend div divisor) (dividend mod divisor) s))"

definition op_sll :: "u32 \<Rightarrow> 'a cpu_state_scheme \<Rightarrow> 'a cpu_state_scheme res" where
  "op_sll inst s =
     assert_encoding_is_valid (r_rs inst = 0)
       (ok (gpr_write (r_rd inst) (sext32 (lo32 (push_bit (sa_of inst) (rt_val inst s)))) s))"

definition op_srl :: "u32 \<Rightarrow> 'a cpu_state_scheme \<Rightarrow> 'a cpu_state_scheme res" where
  "op_srl inst s =
     ok (gpr_write (r_rd inst) (sext32 (drop_bit (sa_of inst) (lo32 (rt_val inst s)))) s)"

definition op_sra :: "u32 \<Rightarrow> 'a cpu_state_scheme \<Rightarrow> 'a cpu_state_scheme res" where
  "op_sra inst s =
     ok (gpr_write (r_rd inst) (sext32 (lo32 (signed_drop_bit (sa_of inst) (rt_val inst s)))) s)"

definition op_srav :: "u32 \<Rightarrow> 'a cpu_state_scheme \<Rightarrow> 'a cpu_state_scheme res" where
  "op_srav inst s =
     ok (gpr_write (r_rd inst) (sext32 (lo32 (signed_drop_bit (low5 (rs_val inst s)) (rt_val inst s)))) s)"

definition op_sllv :: "u32 \<Rightarrow> 'a cpu_state_scheme \<Rightarrow> 'a cpu_state_scheme res" where
  "op_sllv inst s =
     assert_encoding_is_valid (r_sa inst = 0)
       (ok (gpr_write (r_rd inst) (sext32 (push_bit (low5 (rs_val inst s)) (lo32 (rt_val inst s)))) s))"

definition op_srlv :: "u32 \<Rightarrow> 'a cpu_state_scheme \<Rightarrow> 'a cpu_state_scheme res" where
  "op_srlv inst s =
     assert_encoding_is_valid (r_sa inst = 0)
       (ok (gpr_write (r_rd inst) (sext32 (drop_bit (low5 (rs_val inst s)) (lo32 (rt_val inst s)))) s))"

definition op_slt :: "u32 \<Rightarrow> 'a cpu_state_scheme \<Rightarrow> 'a cpu_state_scheme res" where
  "op_slt inst s =
     ok (gpr_write (r_rd inst) (if rs_val inst s <s rt_val inst s then 1 else 0) s)"

definition op_sltu :: "u32 \<Rightarrow> 'a cpu_state_scheme \<Rightarrow> 'a cpu_state_scheme res" where
  "op_sltu inst s =
     assert_encoding_is_valid (r_sa inst = 0)
       (ok (gpr_write (r_rd inst) (if rs_val inst s < rt_val inst s then 1 else 0) s))"

definition op_slti :: "u32 \<Rightarrow> 'a cpu_state_scheme \<Rightarrow> 'a cpu_state_scheme res" where
  "op_slti inst s =
     ok (gpr_write (i_rt inst) (if gpr_read (i_rs inst) s <s sext16 (i_imm inst) then 1 else 0) s)"

definition op_sltiu :: "u32 \<Rightarrow> 'a cpu_state_scheme \<Rightarrow> 'a cpu_state_scheme res" where
  "op_sltiu inst s =
     ok (gpr_write (i_rt inst) (if gpr_read (i_rs inst) s < sext16 (i_imm inst) then 1 else 0) s)"

definition op_and :: "u32 \<Rightarrow> 'a cpu_state_scheme \<Rightarrow> 'a cpu_state_scheme res" where
  "op_and inst s =
     assert_encoding_is_valid (r_sa inst = 0)
       (ok (gpr_write (r_rd inst) (rs_val inst s AND rt_val inst s) s))"

definition op_or :: "u32 \<Rightarrow> 'a cpu_state_scheme \<Rightarrow> 'a cpu_state_scheme res" where
  "op_or inst s =
     assert_encoding_is_valid (r_sa inst = 0)
       (ok (gpr_write (r_rd inst) (rs_val inst s OR rt_val inst s) s))"

definition op_xor :: "u32 \<Rightarrow> 'a cpu_state_scheme \<Rightarrow> 'a cpu_state_scheme res" where
  "op_xor inst s =
     assert_encoding_is_valid (r_sa inst = 0)
       (ok (gpr_write (r_rd inst) (rs_val inst s XOR rt_val inst s) s))"

definition op_nor :: "u32 \<Rightarrow> 'a cpu_state_scheme \<Rightarrow> 'a cpu_state_scheme res" where
  "op_nor inst s =
     ok (gpr_write (r_rd inst) (NOT (rs_val inst s OR rt_val inst s)) s)"

definition op_mfhi :: "u32 \<Rightarrow> 'a cpu_state_scheme \<Rightarrow> 'a cpu_state_scheme res" where
  "op_mfhi inst s =
     assert_encoding_is_valid (r_rs inst = 0 \<and> r_rt inst = 0 \<and> r_sa inst = 0)
       (ok (gpr_write (r_rd inst) (hi (cpu s)) s))"

definition op_mflo :: "u32 \<Rightarrow> 'a cpu_state_scheme \<Rightarrow> 'a cpu_state_scheme res" where
  "op_mflo inst s =
     assert_encoding_is_valid (r_rs inst = 0 \<and> r_rt inst = 0 \<and> r_sa inst = 0)
       (ok (gpr_write (r_rd inst) (lo (cpu s)) s))"

definition op_mthi :: "u32 \<Rightarrow> 'a cpu_state_scheme \<Rightarrow> 'a cpu_state_scheme res" where
  "op_mthi inst s =
     ok (set_lo_hi (lo (cpu s)) (rs_val inst s) s)"

definition op_mtlo :: "u32 \<Rightarrow> 'a cpu_state_scheme \<Rightarrow> 'a cpu_state_scheme res" where
  "op_mtlo inst s =
     ok (set_lo_hi (rs_val inst s) (hi (cpu s)) s)"

definition op_dsll :: "u32 \<Rightarrow> 'a cpu_state_scheme \<Rightarrow> 'a cpu_state_scheme res" where
  "op_dsll inst s =
     ok (gpr_write (r_rd inst) (push_bit (sa_of inst) (rt_val inst s)) s)"

definition op_dsrl :: "u32 \<Rightarrow> 'a cpu_state_scheme \<Rightarrow> 'a cpu_state_scheme res" where
  "op_dsrl inst s =
     ok (gpr_write (r_rd inst) (drop_bit (sa_of inst) (rt_val inst s)) s)"

definition op_dsra :: "u32 \<Rightarrow> 'a cpu_state_scheme \<Rightarrow> 'a cpu_state_scheme res" where
  "op_dsra inst s =
     ok (gpr_write (r_rd inst) (signed_drop_bit (sa_of inst) (rt_val inst s)) s)"

definition op_dsll32 :: "u32 \<Rightarrow> 'a cpu_state_scheme \<Rightarrow> 'a cpu_state_scheme res" where
  "op_dsll32 inst s =
     ok (gpr_write (r_rd inst) (push_bit (sa_of inst + 32) (rt_val inst s)) s)"

definition op_dsrl32 :: "u32 \<Rightarrow> 'a cpu_state_scheme \<Rightarrow> 'a cpu_state_scheme res" where
  "op_dsrl32 inst s =
     ok (gpr_write (r_rd inst) (drop_bit (sa_of inst + 32) (rt_val inst s)) s)"

definition op_dsra32 :: "u32 \<Rightarrow> 'a cpu_state_scheme \<Rightarrow> 'a cpu_state_scheme res" where
  "op_dsra32 inst s =
     ok (gpr_write (r_rd inst) (signed_drop_bit (sa_of inst + 32) (rt_val inst s)) s)"

definition op_sync :: "u32 \<Rightarrow> 'a cpu_state_scheme \<Rightarrow> 'a cpu_state_scheme res" where
  "op_sync inst s =
     ok s"

definition op_lui :: "u32 \<Rightarrow> 'a cpu_state_scheme \<Rightarrow> 'a cpu_state_scheme res" where
  "op_lui inst s =
     assert_encoding_is_valid (i_rs inst = 0)
       (ok (gpr_write (i_rt inst) (sext16 (i_imm inst) * 65536) s))"

definition op_addi :: "u32 \<Rightarrow> 'a cpu_state_scheme \<Rightarrow> 'a cpu_state_scheme res" where
  "op_addi inst s =
     ok (gpr_write (i_rt inst) (sext32 (lo32 (gpr_read (i_rs inst) s) + lo32 (sext16 (i_imm inst)))) s)"

definition op_addiu :: "u32 \<Rightarrow> 'a cpu_state_scheme \<Rightarrow> 'a cpu_state_scheme res" where
  "op_addiu inst s =
     ok (gpr_write (i_rt inst) (sext32 (lo32 (gpr_read (i_rs inst) s) + lo32 (sext16 (i_imm inst)))) s)"

definition op_daddi :: "u32 \<Rightarrow> 'a cpu_state_scheme \<Rightarrow> 'a cpu_state_scheme res" where
  "op_daddi inst s =
     ok (gpr_write (i_rt inst) (gpr_read (i_rs inst) s + sext16 (i_imm inst)) s)"

definition op_daddiu :: "u32 \<Rightarrow> 'a cpu_state_scheme \<Rightarrow> 'a cpu_state_scheme res" where
  "op_daddiu inst s =
     ok (gpr_write (i_rt inst) (gpr_read (i_rs inst) s + sext16 (i_imm inst)) s)"

definition op_andi :: "u32 \<Rightarrow> 'a cpu_state_scheme \<Rightarrow> 'a cpu_state_scheme res" where
  "op_andi inst s =
     ok (gpr_write (i_rt inst) (gpr_read (i_rs inst) s AND ucast (i_imm inst)) s)"

definition op_ori :: "u32 \<Rightarrow> 'a cpu_state_scheme \<Rightarrow> 'a cpu_state_scheme res" where
  "op_ori inst s =
     ok (gpr_write (i_rt inst) (gpr_read (i_rs inst) s OR ucast (i_imm inst)) s)"

definition op_xori :: "u32 \<Rightarrow> 'a cpu_state_scheme \<Rightarrow> 'a cpu_state_scheme res" where
  "op_xori inst s =
     ok (gpr_write (i_rt inst) (gpr_read (i_rs inst) s XOR ucast (i_imm inst)) s)"

definition op_cache :: "u32 \<Rightarrow> 'a cpu_state_scheme \<Rightarrow> 'a cpu_state_scheme res" where
  "op_cache inst s =
     ok s"

fun exec_alu :: "alu_op \<Rightarrow> u32 \<Rightarrow> 'a cpu_state_scheme \<Rightarrow> 'a cpu_state_scheme res" where
  "exec_alu Op_add inst s = op_add inst s"
| "exec_alu Op_addu inst s = op_addu inst s"
| "exec_alu Op_dadd inst s = op_dadd inst s"
| "exec_alu Op_daddu inst s = op_daddu inst s"
| "exec_alu Op_sub inst s = op_sub inst s"
| "exec_alu Op_subu inst s = op_subu inst s"
| "exec_alu Op_dsub inst s = op_dsub inst s"
| "exec_alu Op_dsubu inst s = op_dsubu inst s"
| "exec_alu Op_mult inst s = op_mult inst s"
| "exec_alu Op_multu inst s = op_multu inst s"
| "exec_alu Op_dmult inst s = op_dmult inst s"
| "exec_alu Op_dmultu inst s = op_dmultu inst s"
| "exec_alu Op_div inst s = op_div inst s"
| "exec_alu Op_divu inst s = op_divu inst s"
| "exec_alu Op_ddiv inst s = op_ddiv inst s"
| "exec_alu Op_ddivu inst s = op_ddivu inst s"
| "exec_alu Op_sll inst s = op_sll inst s"
| "exec_alu Op_srl inst s = op_srl inst s"
| "exec_alu Op_sra inst s = op_sra inst s"
| "exec_alu Op_srav inst s = op_srav inst s"
| "exec_alu Op_sllv inst s = op_sllv inst s"
| "exec_alu Op_srlv inst s = op_srlv inst s"
| "exec_alu Op_slt inst s = op_slt inst s"
| "exec_alu Op_sltu inst s = op_sltu inst s"
| "exec_alu Op_slti inst s = op_slti inst s"
| "exec_alu Op_sltiu inst s = op_sltiu inst s"
| "exec_alu Op_and inst s = op_and inst s"
| "exec_alu Op_or inst s = op_or inst s"
| "exec_alu Op_xor inst s = op_xor inst s"
| "exec_alu Op_nor inst s = op_nor inst s"
| "exec_alu Op_mfhi inst s = op_mfhi inst s"
| "exec_alu Op_mflo inst s = op_mflo inst s"
| "exec_alu Op_mthi inst s = op_mthi inst s"
| "exec_alu Op_mtlo inst s = op_mtlo inst s"
| "exec_alu Op_dsll inst s = op_dsll inst s"
| "exec_alu Op_dsrl inst s = op_dsrl inst s"
| "exec_alu Op_dsra inst s = op_dsra inst s"
| "exec_alu Op_dsll32 inst s = op_dsll32 inst s"
| "exec_alu Op_dsrl32 inst s = op_dsrl32 inst s"
| "exec_alu Op_dsra32 inst s = op_dsra32 inst s"
| "exec_alu Op_sync inst s = op_sync inst s"
| "exec_alu Op_lui inst s = op_lui inst s"
| "exec_alu Op_addi inst s = op_addi inst s"
| "exec_alu Op_addiu inst s = op_addiu inst s"
| "exec_alu Op_daddi inst s = op_daddi inst s"
| "exec_alu Op_daddiu inst s = op_daddiu inst s"
| "exec_alu Op_andi inst s = op_andi inst s"
| "exec_alu Op_ori inst s = op_ori inst s"
| "exec_alu Op_xori inst s = op_xori inst s"
| "exec_alu Op_cache inst s = op_cache inst s"

lemmas alu_op_defs = op_add_def op_addu_def op_dadd_def op_daddu_def op_sub_def op_subu_def
    op_dsub_def op_dsubu_def op_mult_def op_multu_def op_dmult_def op_dmultu_def op_div_def op_divu_def
    op_ddiv_def op_ddivu_def op_sll_def op_srl_def op_sra_def op_srav_def op_sllv_def op_srlv_def
    op_slt_def op_sltu_def op_slti_def op_sltiu_def op_and_def op_or_def op_xor_def op_nor_def
    op_mfhi_def op_mflo_def op_mthi_def op_mtlo_def op_dsll_def op_dsrl_def op_dsra_def op_dsll32_def
    op_dsrl32_def op_dsra32_def op_sync_def op_lui_def op_addi_def op_addiu_def op_daddi_def
    op_daddiu_def op_andi_def op_ori_def op_xori_def op_cache_def
  assert_encoding_is_valid_def set_product_def

end
