(* ===== verification/Alu_Spec.thy ===== *)
theory Alu_Spec
  imports Alu
begin

text \<open>
  The register instructions against integer arithmetic: \<open>alu_int\<close> gives the result of each
  instruction as an integer computed from the signed values of the operands, without machine words;
  multiplication and division are related to the exact product, quotient and remainder.
\<close>

section \<open>Two's complement values\<close>

definition s32 :: "int \<Rightarrow> int" where
  "s32 k = signed_take_bit 31 k"

definition s64 :: "int \<Rightarrow> int" where
  "s64 k = signed_take_bit 63 k"

lemma s32_s64 [simp]: "s32 (s64 k) = s32 k" "s32 (s32 k) = s32 k" "s64 (s64 k) = s64 k"
  by (simp_all add: s32_def s64_def)

lemma word_of_sint: "sint (w :: u64) = k \<Longrightarrow> w = word_of_int k"
  by auto

lemma sint_s64 [simp]: "s64 (sint (w :: u64)) = sint w" "s32 (sint (v :: u32)) = sint v"
  by (simp_all add: s64_def s32_def sint_uint)

lemma sint_sext32 [simp]: "sint (sext32 w) = sint w"
  unfolding sext32_def signed_scast_eq by (simp add: sint_uint)

lemma fits_s32: "- (2 ^ 31) \<le> k \<and> k < 2 ^ 31 \<Longrightarrow> s32 k = k"
  by (simp add: s32_def signed_take_bit_int_eq_self)

lemma fits_s64: "- (2 ^ 63) \<le> k \<and> k < 2 ^ 63 \<Longrightarrow> s64 k = k"
  by (simp add: s64_def signed_take_bit_int_eq_self)

lemma sint_lo32: "sint (lo32 w) = s32 (sint w)"
  unfolding lo32_def s32_def signed_ucast_eq by (simp add: sint_uint)

lemma lo32_hom:
  "lo32 (a + b) = lo32 a + lo32 b" "lo32 (a - b) = lo32 a - lo32 b" "lo32 (a * b) = lo32 a * lo32 b"
  by (simp_all add: lo32_def word_uint_eq_iff unsigned_ucast_eq uint_word_ariths take_bit_eq_mod
      mod_mod_cancel mod_simps)

lemma sint_arith [simp]:
  "sint (a + b :: u64) = s64 (sint a + sint b)" "sint (a - b :: u64) = s64 (sint a - sint b)"
  "sint (a * b :: u64) = s64 (sint a * sint b)"
  by (simp_all add: s64_def sint_word_add sint_word_diff sint_word_mult)

lemma sint_arith32 [simp]:
  "sint (a + b :: u32) = s32 (sint a + sint b)" "sint (a - b :: u32) = s32 (sint a - sint b)"
  by (simp_all add: s32_def sint_word_add sint_word_diff)

lemma sext_lo [simp]: "sint (sext32 (lo32 w)) = s32 (sint w)"
  by (simp add: sint_lo32)

lemma uint_of_sint: "uint (w :: u64) = sint w mod 2 ^ 64" "uint (v :: u32) = sint v mod 2 ^ 32"
  "uint (i :: u16) = sint i mod 2 ^ 16"
  by (simp_all add: uint_sint take_bit_eq_mod)

lemma sint_of_int: "sint (word_of_int k :: u64) = s64 k" "sint (word_of_int k :: u32) = s32 k"
  by (simp_all add: s64_def s32_def sint_sbintrunc')

lemma sint_push [simp]: "sint (push_bit n w :: u64) = s64 (sint w * 2 ^ n)"
  "sint (push_bit n v :: u32) = s32 (sint v * 2 ^ n)"
proof -
  have "push_bit n w = word_of_int (sint w * 2 ^ n)" by (simp add: push_bit_eq_mult)
  then show "sint (push_bit n w :: u64) = s64 (sint w * 2 ^ n)" by (simp only: sint_of_int)
  have "push_bit n v = word_of_int (sint v * 2 ^ n)" by (simp add: push_bit_eq_mult)
  then show "sint (push_bit n v :: u32) = s32 (sint v * 2 ^ n)" by (simp only: sint_of_int)
qed

lemma drop_bit_int: "drop_bit n w = word_of_int (uint w div 2 ^ n)" for w :: "'a::len word"
proof -
  have "drop_bit n w = word_of_int (drop_bit n (uint w))"
    by (rule bit_word_eqI) (auto simp: bit_drop_bit_eq bit_uint_iff bit_word_of_int_iff dest: bit_imp_le_length)
  then show ?thesis by (simp only: drop_bit_eq_div)
qed

lemma uint_drop: "uint (drop_bit n w) = uint w div 2 ^ n" for w :: "'a::len word"
proof -
  have "uint (drop_bit n w) = drop_bit n (uint w)"
    by (rule bit_eqI) (auto simp: bit_drop_bit_eq bit_uint_iff dest: bit_imp_le_length)
  then show ?thesis by (simp only: drop_bit_eq_div)
qed

lemma sint_drop [simp]: "sint (drop_bit n w :: u64) = s64 (sint w mod 2 ^ 64 div 2 ^ n)"
  "sint (drop_bit n v :: u32) = s32 (sint v mod 2 ^ 32 div 2 ^ n)"
  by (simp_all only: drop_bit_int sint_of_int uint_of_sint)

lemma sint_sar [simp]: "sint (signed_drop_bit n w :: u64) = sint w div 2 ^ n"
  by (simp add: sint_signed_drop_bit_eq drop_bit_eq_div)

lemma s32_mod: "s32 (k mod 2 ^ 32) = s32 k" "s32 k mod 2 ^ 32 = k mod 2 ^ 32"
  "s32 (s32 k * m) = s32 (k * m)" "s32 (s32 k + s32 m) = s32 (k + m)" "s32 (s32 k - s32 m) = s32 (k - m)"
proof -
  have m: "s32 k = s32 m" if "k mod 2 ^ 32 = m mod 2 ^ 32" for k m
    using that unfolding s32_def signed_take_bit_eq_take_bit_shift take_bit_eq_mod
    by (simp add: mod_simps mod_add_cong)
  show r: "s32 k mod 2 ^ 32 = k mod 2 ^ 32" for k
  proof -
    have "take_bit 32 (signed_take_bit 31 k) = take_bit 32 k" by (simp add: take_bit_signed_take_bit)
    then show ?thesis by (simp add: take_bit_eq_mod s32_def)
  qed
  show "s32 (k mod 2 ^ 32) = s32 k" by (rule m) simp
  show "s32 (s32 k * m) = s32 (k * m)" by (rule m) (metis r mod_mult_left_eq)
  show "s32 (s32 k + s32 m) = s32 (k + m)" by (rule m) (metis r mod_add_eq)
  show "s32 (s32 k - s32 m) = s32 (k - m)" by (rule m) (metis r mod_diff_eq)
qed

lemma sint_sext16: "sint (sext16 i) = sint i" "sint (lo32 (sext16 i)) = sint i"
  "sint (ucast i :: u64) = sint i mod 2 ^ 16"
proof -
  show "sint (sext16 i) = sint i"
    unfolding sext16_def signed_scast_eq by (simp add: sint_uint)
  have "sint i = s32 (sint i)" by (simp add: s32_def sint_uint)
  then show "sint (lo32 (sext16 i)) = sint i"
    using \<open>sint (sext16 i) = sint i\<close> by (simp add: sint_lo32)
  have small: "uint i < 2 ^ 16" "0 \<le> uint i" using uint_lt2p [of i] by simp_all
  have "signed_take_bit 63 k = k" if "k < 2 ^ 16" "0 \<le> k" for k :: int
    using that by (intro signed_take_bit_int_eq_self) simp_all
  from this [OF small] show "sint (ucast i :: u64) = sint i mod 2 ^ 16"
    unfolding signed_ucast_eq uint_of_sint(3) [symmetric] by simp
qed

lemma sint_not [simp]: "sint (NOT w :: u64) = NOT (sint w)"
  by (rule bit_eqI) (auto simp: bit_sint_iff bit_not_iff dest: bit_imp_le_length)

lemma low5_int: "int (low5 w) = sint w mod 32" "low5 w = nat (sint w mod 32)"
proof -
  have "uint (w AND 0b11111) = uint w mod 32"
  proof -
    have "w AND 0b11111 = take_bit 5 w" by (simp add: take_bit_eq_mask mask_eq_exp_minus_1)
    then show ?thesis by (simp add: unsigned_take_bit_eq take_bit_eq_mod [where 'a = int])
  qed
  then show "int (low5 w) = sint w mod 32"
    by (simp add: low5_def uint_of_sint(1) mod_mod_cancel)
  then show "low5 w = nat (sint w mod 32)" by linarith
qed

section \<open>The results of the register instructions\<close>

text \<open>\<open>a\<close> and \<open>b\<close> are the signed values of the source registers, \<open>imm\<close> of the immediate, \<open>h\<close> and \<open>l\<close> of HI and LO.\<close>

fun alu_int :: "alu_op \<Rightarrow> nat \<Rightarrow> int \<Rightarrow> int \<Rightarrow> int \<Rightarrow> int \<Rightarrow> int \<Rightarrow> int option" where
  "alu_int Op_add sa a b imm h l = Some (s32 (a + b))"
| "alu_int Op_addu sa a b imm h l = Some (s32 (a + b))"
| "alu_int Op_dadd sa a b imm h l = Some (s64 (a + b))"
| "alu_int Op_daddu sa a b imm h l = Some (s64 (a + b))"
| "alu_int Op_sub sa a b imm h l = Some (s32 a - s32 b)"
| "alu_int Op_subu sa a b imm h l = Some (s32 (a - b))"
| "alu_int Op_dsub sa a b imm h l = Some (a - b)"
| "alu_int Op_dsubu sa a b imm h l = Some (s64 (a - b))"
| "alu_int Op_sll sa a b imm h l = Some (s32 (b * 2 ^ sa))"
| "alu_int Op_srl sa a b imm h l = Some (s32 (b mod 2 ^ 32 div 2 ^ sa))"
| "alu_int Op_sra sa a b imm h l = Some (s32 (b div 2 ^ sa))"
| "alu_int Op_sllv sa a b imm h l = Some (s32 (b * 2 ^ nat (a mod 32)))"
| "alu_int Op_srlv sa a b imm h l = Some (s32 (b mod 2 ^ 32 div 2 ^ nat (a mod 32)))"
| "alu_int Op_srav sa a b imm h l = Some (s32 (b div 2 ^ nat (a mod 32)))"
| "alu_int Op_slt sa a b imm h l = Some (if a < b then 1 else 0)"
| "alu_int Op_sltu sa a b imm h l = Some (if a mod 2 ^ 64 < b mod 2 ^ 64 then 1 else 0)"
| "alu_int Op_slti sa a b imm h l = Some (if a < imm then 1 else 0)"
| "alu_int Op_sltiu sa a b imm h l = Some (if a mod 2 ^ 64 < imm mod 2 ^ 64 then 1 else 0)"
| "alu_int Op_and sa a b imm h l = Some (a AND b)"
| "alu_int Op_or sa a b imm h l = Some (a OR b)"
| "alu_int Op_xor sa a b imm h l = Some (a XOR b)"
| "alu_int Op_nor sa a b imm h l = Some (NOT (a OR b))"
| "alu_int Op_dsll sa a b imm h l = Some (s64 (b * 2 ^ sa))"
| "alu_int Op_dsrl sa a b imm h l = Some (s64 (b mod 2 ^ 64 div 2 ^ sa))"
| "alu_int Op_dsra sa a b imm h l = Some (b div 2 ^ sa)"
| "alu_int Op_dsll32 sa a b imm h l = Some (s64 (b * 2 ^ (sa + 32)))"
| "alu_int Op_dsrl32 sa a b imm h l = Some (s64 (b mod 2 ^ 64 div 2 ^ (sa + 32)))"
| "alu_int Op_dsra32 sa a b imm h l = Some (b div 2 ^ (sa + 32))"
| "alu_int Op_lui sa a b imm h l = Some (imm * 65536)"
| "alu_int Op_addi sa a b imm h l = Some (s32 (a + imm))"
| "alu_int Op_addiu sa a b imm h l = Some (s32 (a + imm))"
| "alu_int Op_daddi sa a b imm h l = Some (s64 (a + imm))"
| "alu_int Op_daddiu sa a b imm h l = Some (s64 (a + imm))"
| "alu_int Op_andi sa a b imm h l = Some (a AND imm mod 2 ^ 16)"
| "alu_int Op_ori sa a b imm h l = Some (a OR imm mod 2 ^ 16)"
| "alu_int Op_xori sa a b imm h l = Some (a XOR imm mod 2 ^ 16)"
| "alu_int Op_mfhi sa a b imm h l = Some h"
| "alu_int Op_mflo sa a b imm h l = Some l"
| "alu_int _ sa a b imm h l = None"

definition immediate_ops :: "alu_op list" where
  "immediate_ops = [Op_slti, Op_sltiu, Op_lui, Op_addi, Op_addiu, Op_daddi, Op_daddiu, Op_andi, Op_ori, Op_xori]"

definition alu_dest :: "alu_op \<Rightarrow> u32 \<Rightarrow> u32" where
  "alu_dest op inst = (if op \<in> set immediate_ops then i_rt inst else r_rd inst)"

lemma gpr_write_int: "sint w = k \<Longrightarrow> gpr_write r w s = gpr_write r (word_of_int k) s"
  by auto

lemma same_fields: "i_rs inst = r_rs inst" "i_rt inst = r_rt inst"
  by (simp_all add: inst_fields)

lemma holds_assert [simp]:
  "holds_ok P (assert_encoding_is_valid v k) \<longleftrightarrow> (v \<longrightarrow> holds_ok P k)"
  by (simp add: assert_encoding_is_valid_def)

text \<open>C25: an instruction with a register result that returns writes exactly the value integer
  arithmetic gives to its destination register and changes nothing else, not even the zero register;
  the others leave the general registers alone. Sums (ADD, ADDI, DADD and DADDI included, for which
  the source has no overflow exception yet) and unsigned differences wrap to 32 or 64 bits, 32-bit
  results are sign-extended; SUB and DSUB never wrap: when they return, the difference is exact.\<close>

theorem alu_reference:
  "holds_ok (\<lambda>s'.
     case alu_int op (sa_of inst) (sint (gpr_read (r_rs inst) s)) (sint (gpr_read (r_rt inst) s))
            (sint (i_imm inst)) (sint (hi (cpu s))) (sint (lo (cpu s))) of
       Some k \<Rightarrow> s' = gpr_write (alu_dest op inst) (word_of_int k) s
     | None \<Rightarrow> gpr (cpu s') = gpr (cpu s))
   (exec_alu op inst s)"
  by (cases op) (auto simp: alu_op_defs alu_dest_def immediate_ops_def set_lo_hi_def Let_def s32_mod s32_mod [simplified]
      same_fields sext16_def [symmetric]
      sint_lo32 sint_sext16 low5_int word_sless_alt word_less_def uint_of_sint signed_and_eq signed_or_eq
      signed_xor_eq intro!: gpr_write_int)

section \<open>Multiplication\<close>

lemma signed_mod:
  "s32 k = (k + 2 ^ 31) mod 2 ^ 32 - 2 ^ 31" "s64 k = (k + 2 ^ 63) mod 2 ^ 64 - 2 ^ 63"
  "signed_take_bit 127 k = (k + 2 ^ 127) mod 2 ^ 128 - 2 ^ 127"
  by (simp_all add: s32_def s64_def signed_take_bit_eq_take_bit_shift take_bit_eq_mod)

text \<open>Shifting by the sign weight only touches the upper half.\<close>

lemma mod_halves:
  fixes k m :: int
  assumes "0 < m"
  shows "(k + h * m) mod (m * m) = m * ((k div m + h) mod m) + k mod m"
proof -
  have "(k + h * m) mod (m * m) = m * ((k + h * m) div m mod m) + (k + h * m) mod m"
    using assms by (intro zmod_zmult2_eq) simp
  moreover have "(k + h * m) div m = k div m + h" using assms by simp
  ultimately show ?thesis by simp
qed

lemma signed_halves:
  "s64 k = s32 (k div 2 ^ 32) * 2 ^ 32 + k mod 2 ^ 32"
  "signed_take_bit 127 k = s64 (k div 2 ^ 64) * 2 ^ 64 + k mod 2 ^ 64"
proof -
  have n: "(2 :: int) ^ 31 * 2 ^ 32 = 2 ^ 63" "(2 :: int) ^ 32 * 2 ^ 32 = 2 ^ 64"
    "(2 :: int) ^ 63 * 2 ^ 64 = 2 ^ 127" "(2 :: int) ^ 64 * 2 ^ 64 = 2 ^ 128" by simp_all
  have l: "2 ^ 32 * q + r - 2 ^ 63 = (q - 2 ^ 31) * 2 ^ 32 + r"
    "2 ^ 64 * q + r - 2 ^ 127 = (q - 2 ^ 63) * 2 ^ 64 + r" for q r :: int by simp_all
  have p: "(0 :: int) < 2 ^ 32" "(0 :: int) < 2 ^ 64" by simp_all
  show "s64 k = s32 (k div 2 ^ 32) * 2 ^ 32 + k mod 2 ^ 32"
    unfolding signed_mod mod_halves [OF p(1), of k "2 ^ 31", unfolded n] by (rule l(1))
  show "signed_take_bit 127 k = s64 (k div 2 ^ 64) * 2 ^ 64 + k mod 2 ^ 64"
    unfolding signed_mod mod_halves [OF p(2), of k "2 ^ 63", unfolded n] by (rule l(2))
qed

lemma product_bound:
  fixes a b :: int
  assumes "- (2 ^ n) \<le> a" "a < 2 ^ n" "- (2 ^ n) \<le> b" "b < 2 ^ n"
  shows "- (2 ^ Suc (n + n)) \<le> a * b" "a * b < 2 ^ Suc (n + n)"
proof -
  have "\<bar>a\<bar> \<le> 2 ^ n" "\<bar>b\<bar> \<le> 2 ^ n" using assms by auto
  then have "\<bar>a * b\<bar> \<le> 2 ^ (n + n)" unfolding abs_mult power_add by (intro mult_mono) auto
  moreover have "(2 :: int) ^ (n + n) < 2 ^ Suc (n + n)" by simp
  ultimately show "- (2 ^ Suc (n + n)) \<le> a * b" "a * b < 2 ^ Suc (n + n)" by linarith+
qed

lemma exact_product32: "s64 (sint (a :: u32) * sint (b :: u32)) = sint a * sint b"
  using product_bound [of 31 "sint a" "sint b"] sint_ge [of a] sint_lt [of a] sint_ge [of b] sint_lt [of b]
  by (simp add: s64_def signed_take_bit_int_eq_self)

lemma exact_product64: "signed_take_bit 127 (sint (a :: u64) * sint (b :: u64)) = sint a * sint b"
  using product_bound [of 63 "sint a" "sint b"] sint_ge [of a] sint_lt [of a] sint_ge [of b] sint_lt [of b]
  by (simp add: signed_take_bit_int_eq_self)

lemma lo_and_mask: "lo32 (p AND 0xFFFFFFFF) = lo32 p"
proof -
  have m: "(0xFFFFFFFF :: u64) = mask 32" by (simp add: mask_eq_exp_minus_1)
  show ?thesis unfolding m lo32_def
    by (rule bit_word_eqI) (auto simp: bit_ucast_iff bit_and_iff bit_mask_iff)
qed

lemma uint_lo32: "uint (lo32 p) = uint p mod 2 ^ 32"
  by (simp add: lo32_def unsigned_ucast_eq take_bit_eq_mod)

lemma sint_high32: "sint (lo32 (drop_bit 32 p)) * 2 ^ 32 + uint (lo32 p) = sint p"
proof -
  have "sint (lo32 (drop_bit 32 p)) = s32 (uint p div 2 ^ 32)"
    by (simp only: sint_lo32 drop_bit_int sint_of_int s32_s64)
  moreover have "sint p = s64 (uint p)" by (simp add: s64_def sint_uint)
  ultimately show ?thesis using signed_halves(1) [of "uint p"] by (simp only: uint_lo32)
qed

lemma uint_high32: "uint (lo32 (drop_bit 32 p)) * 2 ^ 32 + uint (lo32 p) = uint p"
proof -
  have "uint p < 2 ^ 32 * 2 ^ 32" using uint_lt2p [of p] by simp
  then have "uint p div 2 ^ 32 < 2 ^ 32" "0 \<le> uint p div 2 ^ 32"
    by (simp_all add: div_less_iff_less_mult pos_imp_zdiv_nonneg_iff)
  then have "uint p div 2 ^ 32 mod 2 ^ 32 = uint p div 2 ^ 32" by (rule mod_pos_pos_trivial [rotated])
  then show ?thesis
    by (simp add: uint_lo32 drop_bit_int uint_word_of_int mod_mod_cancel)
qed

lemma uint_ucast128: "uint (ucast (a :: u64) :: 128 word) = uint a"
  by (rule bit_eqI) (auto simp: bit_uint_iff bit_ucast_iff dest: bit_imp_le_length)

lemma mul_unsigned_hi: "uint (mul_unsigned_hi a b) * 2 ^ 64 + uint (a * b) = uint a * uint b"
proof -
  have b: "uint a * uint b < 2 ^ 128"
    using uint_lt2p [of a] uint_lt2p [of b] mult_strict_mono [of "uint a" "2 ^ 64" "uint b" "2 ^ 64"]
    by simp
  have u: "uint ((ucast a :: 128 word) * ucast b) = uint a * uint b"
  proof -
    have "uint ((ucast a :: 128 word) * ucast b) = uint a * uint b mod 2 ^ 128"
      by (simp add: uint_word_ariths uint_ucast128)
    then show ?thesis using b by (simp add: mod_pos_pos_trivial)
  qed
  have "uint a * uint b div 2 ^ 64 < 2 ^ 64" "0 \<le> uint a * uint b div 2 ^ 64"
    using b by (simp_all add: div_less_iff_less_mult pos_imp_zdiv_nonneg_iff)
  then have "uint a * uint b div 2 ^ 64 mod 2 ^ 64 = uint a * uint b div 2 ^ 64" by (rule mod_pos_pos_trivial [rotated])
  then have "uint (mul_unsigned_hi a b) = uint a * uint b div 2 ^ 64"
    unfolding mul_unsigned_hi_def unsigned_ucast_eq uint_drop u by (simp add: take_bit_eq_mod)
  then show ?thesis by (simp add: uint_word_ariths)
qed

lemma mul_signed_hi: "sint (mul_signed_hi a b) * 2 ^ 64 + uint (a * b) = sint a * sint b"
proof -
  let ?k = "sint a * sint b"
  have p: "(scast a :: 128 word) * scast b = word_of_int ?k" by simp
  have u: "uint ((scast a :: 128 word) * scast b) = ?k mod 2 ^ 128"
    unfolding p by (simp only: uint_word_of_int) simp
  have "sint (mul_signed_hi a b) = s64 (?k mod 2 ^ 128 div 2 ^ 64)"
    unfolding mul_signed_hi_def signed_ucast_eq uint_drop u by (simp add: s64_def)
  also have "?k mod 2 ^ 128 div 2 ^ 64 = ?k div 2 ^ 64 mod 2 ^ 64"
    using zmod_zmult2_eq [of "2 ^ 64" ?k "2 ^ 64"] by simp
  also have "s64 (?k div 2 ^ 64 mod 2 ^ 64) = s64 (?k div 2 ^ 64)"
  proof -
    have "x mod 2 ^ 64 = take_bit 64 x" for x :: int by (simp add: take_bit_eq_mod)
    then show ?thesis by (simp only: s64_def signed_take_bit_take_bit) simp
  qed
  finally have "sint (mul_signed_hi a b) = s64 (?k div 2 ^ 64)" .
  moreover have "uint (a * b) = ?k mod 2 ^ 64"
    using take_bit_signed_take_bit [of 64 63 ?k] by (simp add: uint_of_sint(1) s64_def take_bit_eq_mod)
  ultimately show ?thesis using signed_halves(2) [of ?k] exact_product64 [of a b] by simp
qed

lemma uint_product32: "uint ((a AND 0xFFFFFFFF) * (b AND 0xFFFFFFFF)) = uint (lo32 a) * uint (lo32 b)"
proof -
  have m: "x AND 0xFFFFFFFF = take_bit 32 x" for x :: u64 by (simp add: take_bit_eq_mask mask_eq_exp_minus_1)
  have u: "uint (x AND 0xFFFFFFFF) = uint (lo32 x)" for x :: u64
    unfolding m by (simp add: unsigned_take_bit_eq uint_lo32 take_bit_eq_mod [where 'a = int])
  have "uint (lo32 a) * uint (lo32 b) < 2 ^ 64"
    using uint_lt2p [of "lo32 a"] uint_lt2p [of "lo32 b"]
      mult_strict_mono [of "uint (lo32 a)" "2 ^ 32" "uint (lo32 b)" "2 ^ 32"] by simp
  then show ?thesis unfolding uint_word_ariths(3) u by (simp add: mod_pos_pos_trivial)
qed

text \<open>C30: the multiplications leave the exact product of the operands in HI and LO, as two 32-bit
  halves (each sign-extended) or two 64-bit halves; DMULTU whenever it returns (its lower half is
  computed by a signed multiplication in the source, whose overflow is undefined).\<close>

theorem multiply_exact:
  "holds_ok (\<lambda>s'. sint (lo32 (hi (cpu s'))) * 2 ^ 32 + uint (lo32 (lo (cpu s'))) =
       sint (lo32 (gpr_read (r_rs inst) s)) * sint (lo32 (gpr_read (r_rt inst) s)) \<and>
     is_sext32 (hi (cpu s')) \<and> is_sext32 (lo (cpu s')))
     (exec_alu Op_mult inst s) \<and>
   holds_ok (\<lambda>s'. uint (lo32 (hi (cpu s'))) * 2 ^ 32 + uint (lo32 (lo (cpu s'))) =
       uint (lo32 (gpr_read (r_rs inst) s)) * uint (lo32 (gpr_read (r_rt inst) s)) \<and>
     is_sext32 (hi (cpu s')) \<and> is_sext32 (lo (cpu s')))
     (exec_alu Op_multu inst s) \<and>
   holds_ok (\<lambda>s'. sint (hi (cpu s')) * 2 ^ 64 + uint (lo (cpu s')) =
       sint (gpr_read (r_rs inst) s) * sint (gpr_read (r_rt inst) s))
     (exec_alu Op_dmult inst s) \<and>
   holds_ok (\<lambda>s'. uint (hi (cpu s')) * 2 ^ 64 + uint (lo (cpu s')) =
       uint (gpr_read (r_rs inst) s) * uint (gpr_read (r_rt inst) s))
     (exec_alu Op_dmultu inst s)"
  by (simp add: alu_op_defs Let_def set_lo_hi_def lo_and_mask sint_high32 [simplified] uint_high32 [simplified]
      mul_signed_hi [simplified] mul_unsigned_hi [simplified] exact_product32 uint_product32)

section \<open>Division\<close>

definition quotient_of :: "int \<Rightarrow> int \<Rightarrow> int \<Rightarrow> int \<Rightarrow> bool" where
  "quotient_of n d q r \<longleftrightarrow> q * d + r = n \<and> \<bar>r\<bar> < \<bar>d\<bar> \<and> (r = 0 \<or> sgn r = sgn n)"

lemma smod_le: "\<bar>n smod d\<bar> \<le> \<bar>n :: int\<bar>"
  using zmod_le_nonneg_dividend [of "\<bar>n\<bar>" "\<bar>d\<bar>"]
  by (cases "d = 0") (auto simp: signed_modulo_int_def abs_mult sgn_if)

lemma smod_sgn: "n smod d = 0 \<or> sgn (n smod d) = sgn (n :: int)"
proof (cases "d = 0 \<or> n smod d = 0")
  case False
  then have "0 < \<bar>n\<bar> mod \<bar>d\<bar>" using pos_mod_sign [of "\<bar>d\<bar>" "\<bar>n\<bar>"]
    by (auto simp: smod_int_alt_def order_less_le simp del: pos_mod_sign)
  then show ?thesis unfolding smod_int_alt_def sgn_mult by simp
qed auto

lemma quotient_of_sdiv:
  assumes "d \<noteq> 0"
  shows "quotient_of n d (n sdiv d) (n smod d)"
proof -
  have "\<bar>n smod d\<bar> < \<bar>d\<bar>" using smod_int_range [OF assms, of n] by auto
  moreover have "n smod d = 0 \<or> sgn (n smod d) = sgn n"
    by (rule smod_sgn)
  ultimately show ?thesis by (simp add: quotient_of_def sdiv_mult_smod_eq)
qed

text \<open>The results fit the operand width, apart from the least value divided by -1.\<close>

lemma sdiv_fits:
  fixes n d m :: int
  assumes "- m \<le> n" "n < m" "\<not> (n = - m \<and> d = - 1)"
  shows "- m \<le> n sdiv d \<and> n sdiv d < m" and "- m \<le> n smod d \<and> n smod d < m"
proof -
  have q: "- \<bar>n\<bar> \<le> n sdiv d" "n sdiv d \<le> \<bar>n\<bar>" using sdiv_int_range [of n d] by auto
  show "- m \<le> n sdiv d \<and> n sdiv d < m"
  proof (cases "n = - m")
    case True
    with assms have "n \<noteq> 0" "d \<noteq> - 1" by auto
    then have "n sdiv d \<noteq> - n" by simp
    with True q assms show ?thesis by linarith
  qed (use q assms in linarith)
  have "n smod d \<noteq> m"
  proof
    assume "n smod d = m"
    then have "0 < n smod d" using assms by linarith
    with smod_sgn [of n d] have "0 < n" by (simp add: sgn_if split: if_splits)
    with \<open>n smod d = m\<close> assms smod_le [of n d] show False by linarith
  qed
  with smod_le [of n d] assms show "- m \<le> n smod d \<and> n smod d < m" by linarith
qed

lemma sint32_range: "- (2 ^ 31) \<le> sint (w :: u32)" "sint w < 2 ^ 31"
  using sint_ge [of w] sint_lt [of w] by simp_all

lemma sint64_range: "- (2 ^ 63) \<le> sint (w :: u64)" "sint w < 2 ^ 63"
  using sint_ge [of w] sint_lt [of w] by simp_all

lemma op_div_values:
  assumes "d \<noteq> 0" "op_div inst s = Inr s'"
    "n = sint (lo32 (gpr_read (r_rs inst) s))" "d = sint (lo32 (gpr_read (r_rt inst) s))"
  shows "sint (lo (cpu s')) = (if n = - (2 ^ 31) \<and> d = - 1 then n else n sdiv d)"
    and "sint (hi (cpu s')) = n smod d"
proof -
  have r: "sint (lo (cpu s')) = s32 (n sdiv d)" "sint (hi (cpu s')) = s32 (n smod d)"
    using assms by (auto simp: op_div_def Let_def set_lo_hi_def sint_of_int)
  have n: "- (2 ^ 31) \<le> n" "n < 2 ^ 31" using sint32_range assms(3) by auto
  show "sint (lo (cpu s')) = (if n = - (2 ^ 31) \<and> d = - 1 then n else n sdiv d)"
  proof (cases "n = - (2 ^ 31) \<and> d = - 1")
    case True
    have "s32 (2 ^ 31) = - (2 ^ 31)" by (simp add: signed_mod)
    with True r show ?thesis by simp
  next
    case False
    with r fits_s32 [OF sdiv_fits(1) [OF n False]] show ?thesis by simp
  qed
  show "sint (hi (cpu s')) = n smod d"
  proof (cases "n = - (2 ^ 31) \<and> d = - 1")
    case True
    with r show ?thesis by (simp add: s32_def signed_modulo_int_def)
  next
    case False
    with r fits_s32 [OF sdiv_fits(2) [OF n False]] show ?thesis by simp
  qed
qed

lemma op_ddiv_values:
  assumes "op_ddiv inst s = Inr s'"
    "n = sint (gpr_read (r_rs inst) s)" "d = sint (gpr_read (r_rt inst) s)"
  shows "d \<noteq> 0" "sint (lo (cpu s')) = n sdiv d" "sint (hi (cpu s')) = n smod d"
proof -
  have n: "- (2 ^ 63) \<le> n" "n < 2 ^ 63" using sint64_range assms(2) by auto
  from assms have d: "d \<noteq> 0" "\<not> (n = - (2 ^ 63) \<and> d = - 1)"
    and r: "sint (lo (cpu s')) = s64 (n sdiv d)" "sint (hi (cpu s')) = s64 (n smod d)"
    by (auto simp: op_ddiv_def Let_def set_lo_hi_def sint_of_int split: if_splits)
  show "d \<noteq> 0" by (rule d(1))
  show "sint (lo (cpu s')) = n sdiv d" "sint (hi (cpu s')) = n smod d"
    using r fits_s64 [OF sdiv_fits(1) [OF n d(2)]] fits_s64 [OF sdiv_fits(2) [OF n d(2)]] by simp_all
qed

lemma smod_one [simp]: "n smod - 1 = (0 :: int)" "n smod 1 = (0 :: int)"
  by (simp_all add: signed_modulo_int_def)

lemma uint_div_mod: "d \<noteq> 0 \<Longrightarrow>
    uint (n div d) * uint d + uint (n mod d) = uint n \<and> uint (n mod d) < uint d" for n d :: "'a::len word"
  using pos_mod_bound [of "uint d" "uint n"] by (simp add: uint_div uint_mod word_gt_0 word_less_def [symmetric])
    (simp add: uint_mod [symmetric] word_less_def [symmetric] word_mod_less_divisor word_gt_0)

lemma lo32_ones: "lo32 0xFFFFFFFFFFFFFFFF = - 1"
  by (simp add: lo32_def)

text \<open>C29: the divisions leave quotient and remainder in LO and HI: the quotient rounds to zero and
  the remainder has the sign of the dividend; dividing by zero leaves the dividend in HI and all
  ones (or 1 for a negative signed dividend) in LO; the least 32-bit value divided by -1 wraps to
  itself; a 64-bit signed division that returns is exact.\<close>

theorem divide_exact:
  "holds_ok (\<lambda>s'. let n = sint (lo32 (gpr_read (r_rs inst) s)); d = sint (lo32 (gpr_read (r_rt inst) s));
       q = sint (lo (cpu s')); r = sint (hi (cpu s'))
     in if d = 0 then r = n \<and> q = (if n \<ge> 0 then - 1 else 1)
        else if n = - (2 ^ 31) \<and> d = - 1 then q = n \<and> r = 0
        else quotient_of n d q r) (exec_alu Op_div inst s) \<and>
   holds_ok (\<lambda>s'. let n = lo32 (gpr_read (r_rs inst) s); d = lo32 (gpr_read (r_rt inst) s);
       q = lo32 (lo (cpu s')); r = lo32 (hi (cpu s'))
     in if d = 0 then r = n \<and> q = - 1
        else uint q * uint d + uint r = uint n \<and> uint r < uint d) (exec_alu Op_divu inst s) \<and>
   holds_ok (\<lambda>s'. quotient_of (sint (gpr_read (r_rs inst) s)) (sint (gpr_read (r_rt inst) s))
       (sint (lo (cpu s'))) (sint (hi (cpu s')))) (exec_alu Op_ddiv inst s) \<and>
   holds_ok (\<lambda>s'. let n = gpr_read (r_rs inst) s; d = gpr_read (r_rt inst) s;
       q = lo (cpu s'); r = hi (cpu s')
     in if d = 0 then r = n \<and> q = - 1
        else uint q * uint d + uint r = uint n \<and> uint r < uint d) (exec_alu Op_ddivu inst s)"
proof (intro conjI)
  show "holds_ok (\<lambda>s'. let n = sint (lo32 (gpr_read (r_rs inst) s)); d = sint (lo32 (gpr_read (r_rt inst) s));
       q = sint (lo (cpu s')); r = sint (hi (cpu s'))
     in if d = 0 then r = n \<and> q = (if n \<ge> 0 then - 1 else 1)
        else if n = - (2 ^ 31) \<and> d = - 1 then q = n \<and> r = 0
        else quotient_of n d q r) (exec_alu Op_div inst s)"
  proof (cases "sint (lo32 (gpr_read (r_rt inst) s)) = 0")
    case True
    have "s64 (s32 k) = s32 k" for k
      using sint_sext32 [of "word_of_int k"] sint_s64(1) [of "sext32 (word_of_int k)"] by (simp add: sint_of_int)
    with True show ?thesis by (simp add: op_div_def Let_def set_lo_hi_def sint_of_int sint_lo32)
  next
    case False
    then show ?thesis
      by (auto simp: holds_ok_iff op_div_values [OF False] Let_def quotient_of_sdiv)
  qed
qed (auto simp: lo32_ones holds_ok_iff op_ddiv_values quotient_of_sdiv op_divu_def op_ddivu_def Let_def set_lo_hi_def
    uint_div_mod split: if_splits)

section \<open>Errors\<close>

definition error_of :: "'a res \<Rightarrow> halt option" where
  "error_of r = (case r of Inl e \<Rightarrow> Some e | Inr x \<Rightarrow> None)"

lemma error_of_simps [simp]: "error_of (Inl e) = Some e" "error_of (Inr x) = None"
  by (simp_all add: error_of_def)

definition sa_zero_ops :: "alu_op list" where
  "sa_zero_ops = [Op_add, Op_addu, Op_sub, Op_subu, Op_mult, Op_multu, Op_sllv, Op_srlv, Op_sltu,
     Op_and, Op_or, Op_xor]"

definition alu_encoding_ok :: "alu_op \<Rightarrow> u32 \<Rightarrow> bool" where
  "alu_encoding_ok op inst =
     (if op \<in> set sa_zero_ops then r_sa inst = 0
      else if op \<in> {Op_sll, Op_lui} then r_rs inst = 0
      else if op \<in> {Op_mfhi, Op_mflo} then r_rs inst = 0 \<and> r_rt inst = 0 \<and> r_sa inst = 0
      else True)"

text \<open>Which results the source computes with signed integers.\<close>

definition alu_overflows :: "alu_op \<Rightarrow> int \<Rightarrow> int \<Rightarrow> bool" where
  "alu_overflows op a b \<longleftrightarrow>
     op = Op_sub \<and> (s32 a - s32 b < - (2 ^ 31) \<or> 2 ^ 31 \<le> s32 a - s32 b) \<or>
     op = Op_dsub \<and> (a - b < - (2 ^ 63) \<or> 2 ^ 63 \<le> a - b) \<or>
     op = Op_dmultu \<and> (a * b < - (2 ^ 63) \<or> 2 ^ 63 \<le> a * b)"

text \<open>C32: an ALU instruction stops the emulator in exactly three situations: a reserved field of its
  encoding is not zero; a 64-bit signed division is by zero or overflows; or the signed arithmetic
  of SUB, DSUB or DMULTU overflows, which is undefined in C++. Every other instruction returns.\<close>

theorem alu_errors:
  "error_of (exec_alu op inst s) =
     (if \<not> alu_encoding_ok op inst then Some BadEncoding
      else if op = Op_ddiv \<and> (sint (gpr_read (r_rt inst) s) = 0
          \<or> sint (gpr_read (r_rt inst) s) = - 1 \<and> sint (gpr_read (r_rs inst) s) = - (2 ^ 63))
      then Some Unimplemented
      else if alu_overflows op (sint (gpr_read (r_rs inst) s)) (sint (gpr_read (r_rt inst) s))
      then Some UndefinedOverflow else None)"
  by (cases op) (auto simp: alu_op_defs Let_def alu_encoding_ok_def sa_zero_ops_def same_fields
      alu_overflows_def fits_int32_def fits_int64_def sint_lo32)

end
