(* ===== verification/Witnesses.thy ===== *)
theory Witnesses
  imports Alu_Spec
begin

text \<open>
  Concrete machines on which the hypotheses of the properties hold, and for each property with
  hypotheses the instance at such a machine.
\<close>

definition zero_cop0 :: cop0_regs where
  "zero_cop0 = \<lparr>c0_index = 0, c0_random = 31, c0_entry_lo0 = 0, c0_entry_lo1 = 0, c0_context = 0,
     c0_page_mask = 0, c0_wired = 0, c0_bad_vaddr = 0, c0_count = 0, c0_entry_hi = 0, c0_compare = 0,
     c0_status = 0x34000000, c0_cause = 0, c0_epc = 0, c0_prid = 0xB22, c0_config = 0x7006E463,
     c0_lladdr = 0, c0_watch_lo = 0, c0_watch_hi = 0, c0_xcontext = 0, c0_parity_error = 0,
     c0_cache_error = 0, c0_tag_lo = 0, c0_tag_hi = 0, c0_error_epc = 0, llbit = False\<rparr>"

definition zero_mem :: mem_regs where
  "zero_mem = \<lparr>rdram = bytes_fill (unat RDRAM_SIZE) 0, sram = bytes_fill 0 0, data_dir = ''.'',
     sram_path = [], ri = \<lparr>ri_mode = 0, ri_config = 0, ri_current_load = 0, ri_select = 0,
     ri_refresh = 0\<rparr>,
     rom = \<lparr>rom_data = bytes_fill ROM_SIZE 0x80, rom_header = [], rom_cic = CIC_NUS_6102_7101,
       rom_save_type = Save_None\<rparr>\<rparr>"

definition zero_vi :: vi_regs where
  "zero_vi = \<lparr>vi_status = 0, vi_origin = 0, vi_width = 320, vi_intr = 0x3FF, vi_current = 0,
     vi_burst = 0, vi_vsync = 0x20D, vi_hsync = 0, vi_hsync_leap = 0, vi_h_video = 0,
     vi_v_video = 0, vi_v_burst = 0, vi_x_scale = 0, vi_y_scale = 0, num_half_lines = 262,
     cycles_per_half_line = 5963\<rparr>"

definition zero_rdp :: rdp_regs where
  "zero_rdp = \<lparr>cp = Some (\<lambda>_. 7), cp_log = [], rdp_dirty = False, cpu_fb_dirty = False,
     sync_signal = 7, dirty_len = 0x100000, rdram_dirty = (\<lambda>i. i = 3), span_min = 3, span_max = 4,
     fb_info = fb_none\<rparr>"

definition zero_ai :: ai_regs where
  "zero_ai = \<lparr>ai_addr = (0, 0), ai_length = (0, 0), fifo_count = 0, next_dram_addr = 0,
     dma_enable = True, dacrate = 0x3FFF, ai_bitrate = 0, delayed_carry = False, dma_start_time = 0,
     dma_duration_cycles = 0, audio_on = False, audio_log = []\<rparr>"

definition zero_pi :: pi_regs where
  "zero_pi = \<lparr>pi_dram_addr = 0, pi_cart_addr = 0x10000000, pi_rd_len = 0, pi_wr_len = 15,
     pi_status = 0, pi_dom1_lat = 0, pi_dom1_pwd = 0, pi_dom1_pgs = 0, pi_dom1_rls = 0,
     pi_dom2_lat = 0, pi_dom2_pwd = 0, pi_dom2_pgs = 0, pi_dom2_rls = 0\<rparr>"

definition zero_si :: si_regs where
  "zero_si = \<lparr>pif_ram = bytes_set 63 0 (bytes_fill 64 0xFE), si_dram_addr = 0x40, si_pif_addr = 0, si_status = 0,
     si_dma_busy = False, input = \<lparr>g_states = (\<lambda>_. no_buttons), host_poll = None\<rparr>\<rparr>"

definition zero_tlb :: tlb_regs where
  "zero_tlb = \<lparr>entries = (\<lambda>_. empty_entry), tlb_err = TLB_MISS,
     g_load = (\<lambda>_. \<lparr>soft_vpn = 0xFFFFFFFF, soft_pa = 0\<rparr>),
     g_store = (\<lambda>_. \<lparr>soft_vpn = 0xFFFFFFFF, soft_pa = 0\<rparr>)\<rparr>"

definition zero_cpu :: cpu_regs where
  "zero_cpu = \<lparr>gpr = (\<lambda>_. 0), lo = 0, hi = 0, delay_slot = False, prev_delay_slot = True,
     prev_pc = 0xFFFFFFFF80001004, pc = 0xFFFFFFFF80001000, next_pc = 0xFFFFFFFF80001004\<rparr>"

definition machine :: cpu_state where
  "machine = \<lparr>cop0 = zero_cop0, mi = \<lparr>mi_mode = 0, mi_intr = 0, mi_intr_mask = 0\<rparr>,
     sched = \<lparr>sc_queue = [], sc_named = (\<lambda>_. \<lparr>ne_enabled = False, ne_at = 0, ne_cb = None\<rparr>),
       sc_time = 5\<rparr>,
     hook = Interp_hook, dcache = \<lparr>rdram_pages = (\<lambda>_. None), other_pages = (\<lambda>_. None),
       last_hit_page = None, last_hit_paddr = 0xFFFFFFFF\<rparr>,
     mem = zero_mem, vi = zero_vi, rdp = zero_rdp, ai = zero_ai, pi_if = zero_pi, si = zero_si,
     tlb = zero_tlb, cpu = zero_cpu, cop1 = \<lparr>fcr0 = 0xB00, fcr31 = 0, fgr = (\<lambda>_. 0)\<rparr>,
     idle = \<lparr>budget_left = 0, pending_skip = 0, idle_active = False\<rparr>\<rparr>"

lemma machine_mem [simp]: "mem_ok machine"
  by (simp add: machine_def zero_mem_def mem_ok_def bytes_fill_def)

lemma machine_irq [simp]: "irq_line_ok machine"
  by (simp add: machine_def zero_cop0_def irq_line_ok_def irq_line_def pending_def enabled_def bf_get_def)


section \<open>Audio\<close>

definition playing :: cpu_state where
  "playing = machine\<lparr>ai := zero_ai\<lparr>fifo_count := 1, ai_length := (16, 0), dma_duration_cycles := 900\<rparr>,
     sched := (sched machine)\<lparr>sc_queue := [(3, On_ai_dma_complete)]\<rparr>\<rparr>"

lemma playing_ok [simp]: "mem_ok playing" "ai_ok playing" "irq_line_ok playing"
  subgoal by (simp add: playing_def mem_ok_def machine_def zero_mem_def bytes_fill_def)
  subgoal by (simp add: playing_def ai_ok_def ai_regs_ok_def ai_pending_def zero_ai_def len_ok_def)
  subgoal using machine_irq by (simp add: playing_def irq_line_ok_def irq_line_def pending_def enabled_def)
  done

lemma no_named: "best_named 2 (\<lambda>_. \<lparr>ne_enabled = False, ne_at = 0, ne_cb = None\<rparr>) = (UINT64_MAX, None)"
  by (simp add: numeral_2_eq_2)

lemma playing_sched: "sched playing = \<lparr>sc_queue = [(3, On_ai_dma_complete)],
    sc_named = (\<lambda>_. \<lparr>ne_enabled = False, ne_at = 0, ne_cb = None\<rparr>), sc_time = 5\<rparr>"
  by (simp add: playing_def machine_def)

lemma playing_dispatches:
  "dispatches (\<lambda>_. Inr) playing (3, Timer On_ai_dma_complete)
     (playing\<lparr>sched := (sched playing)\<lparr>sc_queue := []\<rparr>\<rparr>)"
  by (simp add: dispatches_def playing_sched events_def named_part_def dispatch_one_due_def
      now_def sched_ok_def no_named UINT64_MAX_def q_top_def q_pop_def q_ok_def)

theorem ai_write_keeps_fifo_witness:
  "(\<exists>s'. ai_write_paddr32 0x04500004 64 playing = Inr s' \<and> ai_ok s') \<or>
    (ai_write_paddr32 0x04500004 64 playing = Inl Aborted \<and>
     (0x04500004 :: u32) \<notin> {0x04500000, 0x04500004, 0x04500008, 0x0450000c, 0x04500010, 0x04500014})"
  by (rule ai_write_keeps_fifo) simp_all

theorem ai_completion_witness:
  "\<exists>s'. on_ai_dma_complete (playing\<lparr>sched := (sched playing)\<lparr>sc_queue := []\<rparr>\<rparr>) = Inr s' \<and> ai_ok s' \<and>
     irq_line_ok s' \<and> fifo_count (ai s') = fifo_count (ai playing) - 1"
  using ai_completion [OF _ _ _ playing_dispatches] by simp blast

section \<open>Cartridge and controller transfers\<close>

lemma machine_cart: "cart_readable machine 0x10000000 16"
  by (simp add: cart_readable_def machine_def zero_mem_def bytes_fill_def ROM_SIZE_def)

lemma machine_pi: "pi_dma_dram (pi_if machine) = 0" "pi_dma_cart (pi_if machine) = 0x10000000"
  "pi_dma_length (pi_wr_len (pi_if machine)) 0 = 16"
  by (simp_all add: machine_def zero_pi_def pi_dma_dram_def pi_dma_cart_def pi_dma_length_def Let_def)

theorem pi_dma_write_copies_witness:
  "\<exists>s'. pi_dma_write machine = Inr s' \<and>
    (\<forall>i<16. n64_byte (rdram (mem s')) (rdram_dst 0 i) = cart_byte machine 0x10000000 i)"
proof -
  from pi_dma_write_copies [OF machine_mem machine_cart _ machine_pi(1) [symmetric]
      machine_pi(2) [symmetric] machine_pi(3) [symmetric]]
  obtain s' where "pi_dma_write machine = Inr s'"
    "\<forall>i<unat (16 :: u32). n64_byte (rdram (mem s')) (rdram_dst 0 i) = cart_byte machine 0x10000000 i"
    by auto
  then show ?thesis by simp
qed

lemma machine_hook: "hook machine = Interp_hook"
  by (simp add: machine_def)

lemma machine_coherent: "code_coherent machine"
proof -
  have "cached (dcache machine) a = None" for a
    by (simp add: machine_def cached_def find_page_def)
  then show ?thesis by (simp add: code_coherent_def)
qed

theorem pi_dma_write_coherent_witness:
  "\<exists>s'. pi_dma_write machine = Inr s' \<and> code_coherent s'"
  by (rule pi_dma_write_coherent [OF machine_mem machine_cart _ machine_pi(1) [symmetric]
      machine_pi(2) [symmetric] machine_pi(3) [symmetric] machine_coherent machine_hook]) simp

theorem check_framebuffers_exact_witness:
  "check_framebuffers 24 4 machine = machine\<lparr>rdp := flush_pending_sync (rdp machine)\<rparr>"
proof -
  have r: "rdp machine = zero_rdp" by (simp add: machine_def)
  have "rdp_ok zero_rdp" "\<exists>k<unat (4 :: u32). rdram_dirty zero_rdp ((unat (24 :: u32) + k) div 8)"
    by (auto simp: zero_rdp_def rdp_ok_def intro: exI [of _ 0])
  with check_framebuffers_exact [of machine 24 4] show ?thesis
    by (simp add: r) (simp add: zero_rdp_def cp_ready_def)
qed

lemma machine_pif: "bytes_len (pif_ram (si machine)) = 64" "si_dram_addr (si machine) = 0x40"
  "pif_control_write ((si machine)\<lparr>si_dma_busy := True\<rparr>) = Inr ((si machine)\<lparr>si_dma_busy := True\<rparr>)"
  by (simp_all add: machine_def zero_si_def bytes_fill_def pif_control_write_def pif_get_def
      joybus_loop.simps)

theorem si_dma_read_copies_witness:
  "\<exists>s'. dma_from_pif_to_dram machine = Inr s' \<and> n64_byte (rdram (mem s')) 0x40 = 0xFE"
proof -
  have "\<exists>s'. dma_from_pif_to_dram machine = Inr s' \<and> (\<forall>i<64. n64_byte (rdram (mem s')) (0x40 + word_of_nat i) =
      bytes_at (pif_ram (si machine)) i)"
    using si_dma_read_copies [OF machine_mem machine_pif(1) _ machine_pif(3)] machine_pif(2) by auto
  then obtain s' where s: "dma_from_pif_to_dram machine = Inr s'"
    "\<forall>i<64. n64_byte (rdram (mem s')) (0x40 + word_of_nat i) = bytes_at (pif_ram (si machine)) i" by blast
  from s(2) [rule_format, of 0] have "n64_byte (rdram (mem s')) 0x40 = bytes_at (pif_ram (si machine)) 0"
    by simp
  with s(1) show ?thesis by (simp add: machine_def zero_si_def bytes_fill_def)
qed

definition warm :: cpu_state where
  "warm = machine\<lparr>dcache := dc_fill 0x40 0 (Alu Op_sll) (dcache machine)\<rparr>"

lemma warm_cached: "cached (dcache warm) a =
    (if page_of a = 0 \<and> word_of a = 16 then Some (0, Alu Op_sll) else None)"
  by (simp add: warm_def machine_def dc_fill_def get_or_create_page_def put_page_def find_page_def
      cached_def page_of_def word_of_def RDRAM_PAGES_def empty_page_def empty_word_def)

lemma warm_frame [simp]: "mem warm = zero_mem" "si warm = si machine" "tlb warm = tlb machine"
  by (simp_all add: warm_def) (simp add: machine_def)

lemma warm_coherent: "code_coherent warm"
proof -
  have "read_from_byte_array32 (rdram zero_mem) a = Inr 0" if "aligned4 a" "unat a < 0x800000" for a
  proof -
    have "unat a + 4 \<le> 0x800000" using that by (auto simp: aligned4_def)
    then show ?thesis
      by (simp add: read_from_byte_array32_def zero_mem_def bytes_fill_def le32_at_def le32_def)
  qed
  moreover have "decode 0 = Inr (Alu Op_sll)"
    by (simp add: decode_def inst_fields bf_get_def switch_on_def special_cases_def)
  ultimately show ?thesis by (auto simp: code_coherent_def warm_cached split: if_splits)
qed

theorem si_dma_read_stale_witness:
  "\<exists>s'. dma_from_pif_to_dram warm = Inr s' \<and> \<not> code_coherent s'"
proof -
  let ?r = "(si machine)\<lparr>si_dma_busy := True\<rparr>"
  have "mem_ok warm" using machine_mem by (simp add: mem_ok_def machine_def)
  moreover have "pif_control_write ((si warm)\<lparr>si_dma_busy := True\<rparr>) = Inr ?r" by (simp add: machine_pif)
  moreover have "bytes_len (pif_ram (si warm)) = 64" "unat (si_dram_addr (si warm)) + 64 \<le> 0x800000"
    by (simp_all add: machine_pif)
  ultimately obtain s' where s': "dma_from_pif_to_dram warm = Inr s'"
    "\<not> code_coherent s' \<longleftrightarrow>
      (\<exists>i a. i < 64 \<and> bytes_at (pif_ram ?r) i \<noteq> n64_byte (rdram (mem warm)) (si_dram_addr (si warm) + word_of_nat i) \<and>
        aligned4 a \<and> unat a \<le> unat (si_dram_addr (si warm)) + i \<and> unat (si_dram_addr (si warm)) + i < unat a + 4 \<and>
        cached (dcache warm) a \<noteq> None)"
    using si_dma_read_stale [of warm ?r] warm_coherent by blast
  moreover have "bytes_at (pif_ram ?r) 0 \<noteq> n64_byte (rdram (mem warm)) (si_dram_addr (si warm) + word_of_nat 0)"
    by (simp add: machine_pif zero_mem_def bytes_fill_def n64_byte_def machine_def zero_si_def)
  moreover have "aligned4 0x40" "cached (dcache warm) 0x40 \<noteq> None"
    by (simp_all add: aligned4_def warm_cached page_of_def word_of_def)
  moreover have "unat (0x40 :: u32) \<le> unat (si_dram_addr (si warm)) + 0"
    "unat (si_dram_addr (si warm)) + 0 < unat (0x40 :: u32) + 4" by (simp_all add: machine_pif)
  moreover have "(0 :: nat) < 64" by simp
  ultimately have "\<not> code_coherent s'" by blast
  with s'(1) show ?thesis by blast
qed

section \<open>Translation\<close>

lemma machine_soft: "soft_ok machine"
proof -
  have "soft_vpn (soft_table acc (tlb machine) i) = 0xFFFFFFFF" for acc i
    by (cases acc) (simp_all add: soft_table_def machine_def zero_tlb_def)
  then show ?thesis by (simp add: soft_ok_def soft_sound_def)
qed

theorem resolve_cached_correct_witness:
  "\<exists>s'. resolve_vaddr_cached 0x1000 4 LOAD machine = Inr (translate machine LOAD 0x1000, s') \<and> soft_ok s'"
  using resolve_cached_correct [OF machine_soft, of "0x1000" 4 LOAD] by blast

section \<open>System control\<close>

theorem add_count_batch_witness:
  "add_count 5 (add_count 3 machine) = add_count 8 machine"
  using add_count_batch [of 3 5 machine] by simp

text \<open>Page 0x5000 mapped to the frame 0x80 by the even EntryLo.\<close>

definition mapping :: cpu_state where
  "mapping = machine\<lparr>cop0 := zero_cop0\<lparr>c0_entry_hi := entry_hi_value (ucast (0x4005 :: u32)),
     c0_entry_lo0 := 0x2006, c0_entry_lo1 := 0\<rparr>\<rparr>"

lemma mapping_misses: "\<not> entry_matches h v empty_entry"
  by (simp add: entry_matches_def empty_entry_def)

theorem tlbwi_maps_page_witness: "translate (write_entry False mapping) STORE 0x4123 = Some 0x80123"
proof -
  have "translate (write_entry False mapping) STORE 0x4123 =
      Some (push_bit 12 (bf_get 6 20 (if bit (0x4123 :: u32) 12 then c0_entry_lo1 (cop0 mapping)
        else c0_entry_lo0 (cop0 mapping))) OR ((0x4123 :: u32) AND 0xFFF))"
  proof (rule tlbwi_maps_page)
    show "c0_entry_hi (cop0 mapping) = entry_hi_value (ucast (0x4005 :: u32))"
      by (simp add: mapping_def)
    show "\<not> entry_matches (c0_entry_hi (cop0 mapping)) (sext32 0x4123) (entries (tlb mapping) (word_of_nat j))" for j
      by (simp add: mapping_def machine_def zero_tlb_def mapping_misses)
  qed (simp_all add: mapping_def zero_cop0_def)
  then show ?thesis by (simp add: mapping_def zero_cop0_def bf_get_def)
qed

text \<open>Two entries: page 0x4000 of address space 5 and page 0x8000 of address space 7. The machine
  runs in space 5, its soft TLB holds the first page, and Index selects the second entry.\<close>

definition two_spaces :: cpu_state where
  "two_spaces = machine\<lparr>cop0 := zero_cop0\<lparr>c0_index := 1, c0_entry_hi := 0x4005\<rparr>,
     tlb := zero_tlb\<lparr>entries := (\<lambda>_. empty_entry)
       (0 := \<lparr>is_valid = True, global = False, e_lo0 = 0x2006, e_lo1 = 0, e_hi = 0x4005, e_mask = 0\<rparr>,
        1 := \<lparr>is_valid = True, global = False, e_lo0 = 0x3006, e_lo1 = 0, e_hi = 0x8007, e_mask = 0\<rparr>)\<rparr>\<rparr>"

lemma two_spaces_translates: "translate two_spaces LOAD 0x4123 = Some 0x80123"
proof -
  have "entry_matches 0x4005 (sext32 0x4123) (entries (tlb two_spaces) 0)"
    by (simp add: entry_matches_def two_spaces_def calculate_vpn_def sext32_def)
  then have "lookup_tlb_entry_index (sext32 0x4123) two_spaces = Some 0"
    by (simp add: lookup_tlb_entry_index_def two_spaces_def upt_conv_Cons)
  then show ?thesis
    by (simp add: translate_def tlb_translate_def try_direct_map_def sign_extend_vaddr32_def two_spaces_def
        entry_lo_for_def entry_offset_mask_def bf_get_def)
qed

definition served :: cpu_state where
  "served = soft_tlb_note LOAD 0x4123 0x80123 two_spaces"

lemma served_sound: "soft_ok served"
proof -
  have "soft_vpn (soft_table acc (tlb two_spaces) i) = 0xFFFFFFFF" for acc i
    by (cases acc) (simp_all add: soft_table_def two_spaces_def zero_tlb_def)
  then have "soft_ok two_spaces" by (simp add: soft_ok_def soft_sound_def)
  then show ?thesis unfolding served_def using two_spaces_translates by (rule soft_ok_note)
qed

lemma served_entry:
  "entries (tlb served) i = (if i = 0 then
       \<lparr>is_valid = True, global = False, e_lo0 = 0x2006, e_lo1 = 0, e_hi = 0x4005, e_mask = 0\<rparr>
     else if i = 1 then
       \<lparr>is_valid = True, global = False, e_lo0 = 0x3006, e_lo1 = 0, e_hi = 0x8007, e_mask = 0\<rparr>
     else empty_entry)"
  "c0_index (cop0 served) = 1"
  by (simp_all add: served_def soft_tlb_note_def two_spaces_def Let_def)

lemma served_not_mapped: "\<not> entry_matches 0x8007 (sext32 0x4123) (entries (tlb served) i)"
  by (simp add: served_entry entry_matches_def empty_entry_def calculate_vpn_def sext32_def bf_get_def)

theorem tlbr_keeps_stale_witness:
  "soft_ok served \<and> translate served LOAD 0x4123 = Some 0x80123 \<and>
   translate (read_entry served) LOAD 0x4123 = None \<and>
   resolve_vaddr_cached 0x4123 1 LOAD (read_entry served) = Inr (Some 0x80123, read_entry served)"
proof -
  have "soft_tlb_lookup 0x4123 1 LOAD served = Some 0x80123"
    by (simp add: soft_tlb_lookup_def served_def soft_tlb_note_def soft_table_def Let_def soft_index_def)
  moreover have "try_direct_map 0x4123 = None" by (simp add: try_direct_map_def)
  moreover have "list_all (\<lambda>j. \<not> entry_matches (e_hi (entries (tlb served) (c0_index (cop0 served) AND 0x1f)))
      (sext32 0x4123) (entries (tlb served) (word_of_nat j))) [0..<32]"
  proof -
    have "e_hi (entries (tlb served) (c0_index (cop0 served) AND 0x1f)) = 0x8007"
      by (simp add: served_entry)
    then show ?thesis using served_not_mapped by (simp only: list_all_iff) blast
  qed
  ultimately show ?thesis
    using tlbr_keeps_stale [OF served_sound, of "0x4123" 1 LOAD "0x80123"] served_sound by blast
qed

theorem exception_eret_roundtrip_witness:
  "\<exists>s1. handle_exception SYSCALL 0 True machine = Inr s1 \<and> pc (cpu (eret s1)) = 0xFFFFFFFF80001000 \<and>
     hi (cpu (eret s1)) = hi (cpu machine) \<and> mem (eret s1) = mem machine"
proof -
  obtain s1 where s1: "handle_exception SYSCALL 0 True machine = Inr s1"
    by (auto simp: handle_exception_def Let_def exception_vector_def machine_def zero_cop0_def)
  from exception_eret_roundtrip [OF s1] obtain resume cause where
    "eret s1 = machine\<lparr>cpu := (cpu machine)\<lparr>prev_pc := pc (cpu s1), pc := resume, next_pc := resume + 4\<rparr>,
       cop0 := (cop0 machine)\<lparr>c0_cause := cause, c0_epc := resume, llbit := False\<rparr>\<rparr>"
    "resume = (if True then prev_pc (cpu machine) else pc (cpu machine)) - (if prev_delay_slot (cpu machine) then 4 else 0)"
    by (simp add: machine_def zero_cop0_def Let_def)
  with s1 show ?thesis by (simp add: machine_def zero_cpu_def)
qed

end
