(* ===== verification/Rsp_Regs.thy ===== *)
theory Rsp_Regs
  imports Cpu
begin

text \<open>
  The state of the signal processor (\<open>src/rcp/rsp.cpp\<close>, \<open>include/rcp/rsp.h\<close>), the bytes of its vector
  registers, its data memory, and the table of decoded IMEM words. Every writer of IMEM refreshes the
  table; \<open>imem_ok\<close> says that the table is the decoding of what IMEM holds.
\<close>

section \<open>Handlers and decode tables\<close>

datatype rsp_handler =
    Rsp_regimm | Rsp_j | Rsp_jal | Rsp_beq | Rsp_bne | Rsp_blez | Rsp_bgtz | Rsp_addi | Rsp_slti
  | Rsp_sltiu | Rsp_andi | Rsp_ori | Rsp_xori | Rsp_lui | Rsp_cop0 | Rsp_cop2 | Rsp_lb | Rsp_lh
  | Rsp_lw | Rsp_lbu | Rsp_lhu | Rsp_sb | Rsp_sh | Rsp_sw | Rsp_lwc2 | Rsp_swc2 | Rsp_reserved
  | Rsp_sll | Rsp_srl | Rsp_sra | Rsp_sllv | Rsp_srlv | Rsp_srav | Rsp_jr | Rsp_jalr | Rsp_break
  | Rsp_add | Rsp_sub | Rsp_and | Rsp_or | Rsp_xor | Rsp_nor | Rsp_slt | Rsp_sltu | Rsp_spec_reserved

definition rsp_opc :: "u32 \<Rightarrow> u32" where "rsp_opc i = drop_bit 26 i AND 0x3F"
definition rsp_rs :: "u32 \<Rightarrow> u32" where "rsp_rs i = drop_bit 21 i AND 0x1F"
definition rsp_rt :: "u32 \<Rightarrow> u32" where "rsp_rt i = drop_bit 16 i AND 0x1F"
definition rsp_rd :: "u32 \<Rightarrow> u32" where "rsp_rd i = drop_bit 11 i AND 0x1F"
definition rsp_sa :: "u32 \<Rightarrow> nat" where "rsp_sa i = unat (drop_bit 6 i AND 0x1F)"
definition rsp_funct :: "u32 \<Rightarrow> u32" where "rsp_funct i = i AND 0x3F"
definition rsp_imm_se :: "u32 \<Rightarrow> u32" where "rsp_imm_se i = scast (ucast i :: u16)"
definition rsp_imm_ze :: "u32 \<Rightarrow> u32" where "rsp_imm_ze i = i AND 0xFFFF"
definition rsp_target :: "u32 \<Rightarrow> u32" where "rsp_target i = push_bit 2 (i AND 0x03FFFFFF)"

definition rsp_special_table :: "(u32 \<times> rsp_handler) list" where
  "rsp_special_table = [(0x00, Rsp_sll), (0x02, Rsp_srl), (0x03, Rsp_sra), (0x04, Rsp_sllv),
     (0x06, Rsp_srlv), (0x07, Rsp_srav), (0x08, Rsp_jr), (0x09, Rsp_jalr), (0x0D, Rsp_break),
     (0x20, Rsp_add), (0x21, Rsp_add), (0x22, Rsp_sub), (0x23, Rsp_sub), (0x24, Rsp_and),
     (0x25, Rsp_or), (0x26, Rsp_xor), (0x27, Rsp_nor), (0x2A, Rsp_slt), (0x2B, Rsp_sltu)]"

definition rsp_primary_table :: "(u32 \<times> rsp_handler) list" where
  "rsp_primary_table = [(0x01, Rsp_regimm), (0x02, Rsp_j), (0x03, Rsp_jal), (0x04, Rsp_beq),
     (0x05, Rsp_bne), (0x06, Rsp_blez), (0x07, Rsp_bgtz), (0x08, Rsp_addi), (0x09, Rsp_addi),
     (0x0A, Rsp_slti), (0x0B, Rsp_sltiu), (0x0C, Rsp_andi), (0x0D, Rsp_ori), (0x0E, Rsp_xori),
     (0x0F, Rsp_lui), (0x10, Rsp_cop0), (0x12, Rsp_cop2), (0x20, Rsp_lb), (0x21, Rsp_lh),
     (0x23, Rsp_lw), (0x24, Rsp_lbu), (0x25, Rsp_lhu), (0x28, Rsp_sb), (0x29, Rsp_sh),
     (0x2B, Rsp_sw), (0x32, Rsp_lwc2), (0x3A, Rsp_swc2)]"

definition rsp_decode_opcode :: "u32 \<Rightarrow> rsp_handler" where
  "rsp_decode_opcode opcode =
     (if rsp_opc opcode = 0 then
        (case map_of rsp_special_table (rsp_funct opcode) of Some h \<Rightarrow> h | None \<Rightarrow> Rsp_spec_reserved)
      else (case map_of rsp_primary_table (rsp_opc opcode) of Some h \<Rightarrow> h | None \<Rightarrow> Rsp_reserved))"

section \<open>State\<close>

type_synonym vu_reg = "nat \<Rightarrow> u16"

record rsp_regs =
  sp_dmem :: bytes
  sp_imem :: bytes
  imem_insns :: "nat \<Rightarrow> rsp_handler \<times> u32"
  rsp_pc :: u16
  rsp_next_pc :: u16
  rsp_delay_slot :: bool
  sp_status :: u32
  sp_mem_addr :: u32
  sp_dram_addr :: u32
  sp_shadow_mem_addr :: u32
  sp_shadow_dram_addr :: u32
  sp_dma :: u32
  semaphore_held :: bool
  sync_point :: bool
  broken :: bool
  task_halted :: bool
  running_task :: bool
  run_after_dma :: bool
  last_status_signals :: u32
  last_dpc_busy :: u32
  task_cycle_counter :: u64
  rsp_gpr :: "u32 \<Rightarrow> u32"
  vpr :: "u32 \<Rightarrow> vu_reg"
  acc_h :: vu_reg
  acc_m :: vu_reg
  acc_l :: vu_reg
  vcc :: u16
  vco :: u16
  vce :: u8
  divin :: u16
  divout :: u16
  divin_loaded :: bool

abbreviation (input) "SP_HALT \<equiv> 0 :: nat"
abbreviation (input) "SP_BROKE \<equiv> 1 :: nat"
abbreviation (input) "SP_DMA_BUSY \<equiv> 2 :: nat"
abbreviation (input) "SP_DMA_FULL \<equiv> 3 :: nat"
abbreviation (input) "SP_SSTEP \<equiv> 5 :: nat"
abbreviation (input) "SP_INTR_ON_BREAK \<equiv> 6 :: nat"
abbreviation (input) "SP_SIGNAL_0 \<equiv> 7 :: nat"

record rsp_state = cpu_state +
  rsp :: rsp_regs

definition map_rsp :: "(rsp_regs \<Rightarrow> rsp_regs) \<Rightarrow> 'a rsp_state_scheme \<Rightarrow> 'a rsp_state_scheme" where
  "map_rsp f s = s\<lparr>rsp := f (rsp s)\<rparr>"

lemma map_rsp_simps [simp]:
  "rsp (map_rsp f s) = f (rsp s)" "cop0 (map_rsp f s) = cop0 s" "mi (map_rsp f s) = mi s"
  "mem (map_rsp f s) = mem s" "sched (map_rsp f s) = sched s" "rdp (map_rsp f s) = rdp s"
  "dcache (map_rsp f s) = dcache s" "cpu (map_rsp f s) = cpu s" "hook (map_rsp f s) = hook s"
  by (simp_all add: map_rsp_def)

definition rsp_get :: "u32 \<Rightarrow> rsp_regs \<Rightarrow> u32" where
  "rsp_get i r = (if i \<noteq> 0 then rsp_gpr r i else 0)"

definition rsp_set :: "u32 \<Rightarrow> u32 \<Rightarrow> rsp_regs \<Rightarrow> rsp_regs" where
  "rsp_set i v r = (if i \<noteq> 0 then r\<lparr>rsp_gpr := (rsp_gpr r)(i := v)\<rparr> else r)"

section \<open>Bytes of a vector register\<close>

text \<open>Byte 0 is the upper byte of lane 0.\<close>

definition vr_byte :: "vu_reg \<Rightarrow> nat \<Rightarrow> u8" where
  "vr_byte v i = (if i mod 2 = 0 then ucast (drop_bit 8 (v (i div 2))) else ucast (v (i div 2)))"

definition vr_set_byte :: "nat \<Rightarrow> u8 \<Rightarrow> vu_reg \<Rightarrow> vu_reg" where
  "vr_set_byte i b v =
     v(i div 2 := (if i mod 2 = 0 then (v (i div 2) AND 0x00FF) OR push_bit 8 (ucast b)
                   else (v (i div 2) AND 0xFF00) OR ucast b))"

definition vr_set_lane :: "nat \<Rightarrow> u16 \<Rightarrow> vu_reg \<Rightarrow> vu_reg" where
  "vr_set_lane i x v = v(i := x)"

lemma byte_masks: "(0x00FF :: u16) = mask 8" "(0xFF00 :: u16) = push_bit 8 (mask 8)"
  by (simp_all add: mask_eq_exp_minus_1 push_bit_eq_mult)

lemma vr_byte_set [simp]: "vr_byte (vr_set_byte i b v) j = (if j = i then b else vr_byte v j)"
proof (cases "j = i")
  case True
  then show ?thesis
    by (auto simp: vr_byte_def vr_set_byte_def byte_masks intro!: bit_word_eqI)
      (auto simp: bit_ucast_iff bit_or_iff bit_and_iff bit_push_bit_iff bit_drop_bit_eq bit_mask_iff
        dest: bit_imp_le_length)
next
  case False
  then have "j div 2 \<noteq> i div 2 \<or> j mod 2 \<noteq> i mod 2" by (metis mult_div_mod_eq)
  with False show ?thesis
    by (auto simp: vr_byte_def vr_set_byte_def byte_masks intro!: bit_word_eqI)
      (auto simp: bit_ucast_iff bit_or_iff bit_and_iff bit_push_bit_iff bit_drop_bit_eq bit_mask_iff
        dest: bit_imp_le_length)
qed

lemma vr_lane_bytes: "v i = push_bit 8 (ucast (vr_byte v (2 * i))) OR ucast (vr_byte v (2 * i + 1))"
  by (rule bit_word_eqI)
    (auto simp: vr_byte_def bit_or_iff bit_push_bit_iff bit_ucast_iff bit_drop_bit_eq dest: bit_imp_le_length)

lemma vr_eqI: "(\<And>i. vr_byte v i = vr_byte w i) \<Longrightarrow> v = w"
  by (rule ext) (simp only: vr_lane_bytes [of v] vr_lane_bytes [of w])

lemma vr_byte_lane [simp]:
  "vr_byte (vr_set_lane k x v) j =
     (if j = 2 * k then ucast (drop_bit 8 x) else if j = 2 * k + 1 then ucast x else vr_byte v j)"
proof -
  have "j div 2 = k \<longleftrightarrow> j = 2 * k \<or> j = 2 * k + 1" by presburger
  then show ?thesis by (auto simp: vr_byte_def vr_set_lane_def)
qed

section \<open>Data memory\<close>

text \<open>\<open>sp_dmem\<close> has 0x1000 bytes and every index is masked, so no access is out of bounds.\<close>

definition dmem_at :: "u32 \<Rightarrow> rsp_regs \<Rightarrow> u8" where
  "dmem_at a r = bytes_at (sp_dmem r) (unat (a AND 0xFFF))"

definition dmem_put :: "u32 \<Rightarrow> u8 \<Rightarrow> rsp_regs \<Rightarrow> rsp_regs" where
  "dmem_put a b r = r\<lparr>sp_dmem := bytes_set (unat (a AND 0xFFF)) b (sp_dmem r)\<rparr>"

definition dmem_load8 :: "u32 \<Rightarrow> rsp_regs \<Rightarrow> u8" where
  "dmem_load8 addr r = dmem_at addr r"

definition dmem_load16 :: "u32 \<Rightarrow> rsp_regs \<Rightarrow> u16" where
  "dmem_load16 addr r =
     (let a = addr AND 0xFFF in push_bit 8 (ucast (dmem_at a r)) OR ucast (dmem_at (a + 1) r))"

definition dmem_load32 :: "u32 \<Rightarrow> rsp_regs \<Rightarrow> u32" where
  "dmem_load32 addr r =
     (let a = addr AND 0xFFF
      in push_bit 24 (ucast (dmem_at a r)) OR push_bit 16 (ucast (dmem_at (a + 1) r))
         OR push_bit 8 (ucast (dmem_at (a + 2) r)) OR ucast (dmem_at (a + 3) r))"

definition dmem_store8 :: "u32 \<Rightarrow> u8 \<Rightarrow> rsp_regs \<Rightarrow> rsp_regs" where
  "dmem_store8 addr v = dmem_put addr v"

definition dmem_store16 :: "u32 \<Rightarrow> u16 \<Rightarrow> rsp_regs \<Rightarrow> rsp_regs" where
  "dmem_store16 addr v r =
     (let a = addr AND 0xFFF in dmem_put (a + 1) (ucast v) (dmem_put a (ucast (drop_bit 8 v)) r))"

definition dmem_store32 :: "u32 \<Rightarrow> u32 \<Rightarrow> rsp_regs \<Rightarrow> rsp_regs" where
  "dmem_store32 addr v r =
     (let a = addr AND 0xFFF
      in dmem_put (a + 3) (ucast v) (dmem_put (a + 2) (ucast (drop_bit 8 v))
           (dmem_put (a + 1) (ucast (drop_bit 16 v)) (dmem_put a (ucast (drop_bit 24 v)) r))))"

section \<open>The decoded IMEM\<close>

definition imem_word :: "nat \<Rightarrow> rsp_regs \<Rightarrow> u32" where
  "imem_word k r = le32_at (sp_imem r) (4 * k)"

text \<open>\<open>refresh_imem_word\<close> masks its address to a word of the 0x1000-byte IMEM, so the read succeeds.\<close>

definition refresh_imem_word :: "u32 \<Rightarrow> rsp_regs \<Rightarrow> rsp_regs" where
  "refresh_imem_word addr r =
     (let k = unat (drop_bit 2 (addr AND 0xFFC)); opcode = imem_word k r
      in r\<lparr>imem_insns := (imem_insns r)(k := (rsp_decode_opcode opcode, opcode))\<rparr>)"

fun refresh_words :: "nat \<Rightarrow> u32 \<Rightarrow> rsp_regs \<Rightarrow> rsp_regs" where
  "refresh_words 0 a r = r"
| "refresh_words (Suc n) a r = refresh_words n (a + 4) (refresh_imem_word a r)"

definition rebuild_imem_cache :: "rsp_regs \<Rightarrow> rsp_regs" where
  "rebuild_imem_cache = refresh_words 0x400 0"

text \<open>The loop \<open>for (i = 0; i < length; i += 4)\<close> runs \<open>(length + 3) / 4\<close> times.\<close>

definition note_imem_written :: "u32 \<Rightarrow> u32 \<Rightarrow> rsp_regs \<Rightarrow> rsp_regs" where
  "note_imem_written offset len r = (if len = 0 then r else refresh_words ((unat len + 3) div 4) offset r)"

section \<open>Program counter\<close>

definition rsp_set_pc :: "u16 \<Rightarrow> rsp_regs \<Rightarrow> rsp_regs" where
  "rsp_set_pc v r =
     r\<lparr>rsp_pc := v AND 0xFFC, rsp_next_pc := ((v AND 0xFFC) + 4) AND 0xFFC, rsp_delay_slot := False\<rparr>"

definition rsp_branch :: "u16 \<Rightarrow> rsp_regs \<Rightarrow> rsp_regs" where
  "rsp_branch target r = r\<lparr>rsp_next_pc := target AND 0xFFC\<rparr>"

definition take_break :: "rsp_regs \<Rightarrow> rsp_regs" where
  "take_break r = r\<lparr>broken := True, sync_point := True\<rparr>"

definition rsp_reset :: "rsp_regs \<Rightarrow> rsp_regs" where
  "rsp_reset r =
     (let r1 = rsp_set_pc 0 r;
          r2 = r1\<lparr>rsp_delay_slot := False, sp_status := put_bit SP_HALT True 0, sp_mem_addr := 0,
                  sp_dram_addr := 0, sp_shadow_mem_addr := 0, sp_shadow_dram_addr := 0, sp_dma := 0,
                  semaphore_held := False, sp_dmem := bytes_fill 0x1000 0, sp_imem := bytes_fill 0x1000 0\<rparr>;
          r3 = rebuild_imem_cache r2
      in r3\<lparr>rsp_gpr := (\<lambda>_. 0), vpr := (\<lambda>_ _. 0), acc_h := (\<lambda>_. 0), acc_m := (\<lambda>_. 0), acc_l := (\<lambda>_. 0),
            vcc := 0, vco := 0, vce := 0, divin := 0, divout := 0, divin_loaded := False,
            sync_point := False, broken := False, task_halted := False, running_task := False,
            run_after_dma := False, last_status_signals := 0, last_dpc_busy := 0,
            task_cycle_counter := 0\<rparr>)"

end
