(* ===== verification/Rsp_Rom.thy ===== *)
theory Rsp_Rom
  imports Rsp_Regs
begin

text \<open>
  The reciprocal unit of the RSP: the two tables of \<open>include/rcp/rsp_rom.h\<close> and the functions
  \<open>rsp_rcp\<close> and \<open>rsp_rsq\<close> of \<open>src/rcp/rsp_vector.cpp\<close> that use them, with the accuracy of the tables.
\<close>

definition kRcpRom :: "u16 list" where
  "kRcpRom = [
     0xffff, 0xff00, 0xfe01, 0xfd04, 0xfc07, 0xfb0c, 0xfa11, 0xf918, 0xf81f, 0xf727, 0xf631, 0xf53b, 0xf446, 0xf352, 0xf25f, 0xf16d,
     0xf07c, 0xef8b, 0xee9c, 0xedae, 0xecc0, 0xebd3, 0xeae8, 0xe9fd, 0xe913, 0xe829, 0xe741, 0xe65a, 0xe573, 0xe48d, 0xe3a9, 0xe2c5,
     0xe1e1, 0xe0ff, 0xe01e, 0xdf3d, 0xde5d, 0xdd7e, 0xdca0, 0xdbc2, 0xdae6, 0xda0a, 0xd92f, 0xd854, 0xd77b, 0xd6a2, 0xd5ca, 0xd4f3,
     0xd41d, 0xd347, 0xd272, 0xd19e, 0xd0cb, 0xcff8, 0xcf26, 0xce55, 0xcd85, 0xccb5, 0xcbe6, 0xcb18, 0xca4b, 0xc97e, 0xc8b2, 0xc7e7,
     0xc71c, 0xc652, 0xc589, 0xc4c0, 0xc3f8, 0xc331, 0xc26b, 0xc1a5, 0xc0e0, 0xc01c, 0xbf58, 0xbe95, 0xbdd2, 0xbd10, 0xbc4f, 0xbb8f,
     0xbacf, 0xba10, 0xb951, 0xb894, 0xb7d6, 0xb71a, 0xb65e, 0xb5a2, 0xb4e8, 0xb42e, 0xb374, 0xb2bb, 0xb203, 0xb14b, 0xb094, 0xafde,
     0xaf28, 0xae73, 0xadbe, 0xad0a, 0xac57, 0xaba4, 0xaaf1, 0xaa40, 0xa98e, 0xa8de, 0xa82e, 0xa77e, 0xa6d0, 0xa621, 0xa574, 0xa4c6,
     0xa41a, 0xa36e, 0xa2c2, 0xa217, 0xa16d, 0xa0c3, 0xa01a, 0x9f71, 0x9ec8, 0x9e21, 0x9d79, 0x9cd3, 0x9c2d, 0x9b87, 0x9ae2, 0x9a3d,
     0x9999, 0x98f6, 0x9852, 0x97b0, 0x970e, 0x966c, 0x95cb, 0x952b, 0x948b, 0x93eb, 0x934c, 0x92ad, 0x920f, 0x9172, 0x90d4, 0x9038,
     0x8f9c, 0x8f00, 0x8e65, 0x8dca, 0x8d30, 0x8c96, 0x8bfc, 0x8b64, 0x8acb, 0x8a33, 0x899c, 0x8904, 0x886e, 0x87d8, 0x8742, 0x86ad,
     0x8618, 0x8583, 0x84f0, 0x845c, 0x83c9, 0x8336, 0x82a4, 0x8212, 0x8181, 0x80f0, 0x8060, 0x7fd0, 0x7f40, 0x7eb1, 0x7e22, 0x7d93,
     0x7d05, 0x7c78, 0x7beb, 0x7b5e, 0x7ad2, 0x7a46, 0x79ba, 0x792f, 0x78a4, 0x781a, 0x7790, 0x7706, 0x767d, 0x75f5, 0x756c, 0x74e4,
     0x745d, 0x73d5, 0x734f, 0x72c8, 0x7242, 0x71bc, 0x7137, 0x70b2, 0x702e, 0x6fa9, 0x6f26, 0x6ea2, 0x6e1f, 0x6d9c, 0x6d1a, 0x6c98,
     0x6c16, 0x6b95, 0x6b14, 0x6a94, 0x6a13, 0x6993, 0x6914, 0x6895, 0x6816, 0x6798, 0x6719, 0x669c, 0x661e, 0x65a1, 0x6524, 0x64a8,
     0x642c, 0x63b0, 0x6335, 0x62ba, 0x623f, 0x61c5, 0x614b, 0x60d1, 0x6058, 0x5fdf, 0x5f66, 0x5eed, 0x5e75, 0x5dfd, 0x5d86, 0x5d0f,
     0x5c98, 0x5c22, 0x5bab, 0x5b35, 0x5ac0, 0x5a4b, 0x59d6, 0x5961, 0x58ed, 0x5879, 0x5805, 0x5791, 0x571e, 0x56ac, 0x5639, 0x55c7,
     0x5555, 0x54e3, 0x5472, 0x5401, 0x5390, 0x5320, 0x52af, 0x5240, 0x51d0, 0x5161, 0x50f2, 0x5083, 0x5015, 0x4fa6, 0x4f38, 0x4ecb,
     0x4e5e, 0x4df1, 0x4d84, 0x4d17, 0x4cab, 0x4c3f, 0x4bd3, 0x4b68, 0x4afd, 0x4a92, 0x4a27, 0x49bd, 0x4953, 0x48e9, 0x4880, 0x4817,
     0x47ae, 0x4745, 0x46dc, 0x4674, 0x460c, 0x45a5, 0x453d, 0x44d6, 0x446f, 0x4408, 0x43a2, 0x433c, 0x42d6, 0x4270, 0x420b, 0x41a6,
     0x4141, 0x40dc, 0x4078, 0x4014, 0x3fb0, 0x3f4c, 0x3ee8, 0x3e85, 0x3e22, 0x3dc0, 0x3d5d, 0x3cfb, 0x3c99, 0x3c37, 0x3bd6, 0x3b74,
     0x3b13, 0x3ab2, 0x3a52, 0x39f1, 0x3991, 0x3931, 0x38d2, 0x3872, 0x3813, 0x37b4, 0x3755, 0x36f7, 0x3698, 0x363a, 0x35dc, 0x357f,
     0x3521, 0x34c4, 0x3467, 0x340a, 0x33ae, 0x3351, 0x32f5, 0x3299, 0x323e, 0x31e2, 0x3187, 0x312c, 0x30d1, 0x3076, 0x301c, 0x2fc2,
     0x2f68, 0x2f0e, 0x2eb4, 0x2e5b, 0x2e02, 0x2da9, 0x2d50, 0x2cf8, 0x2c9f, 0x2c47, 0x2bef, 0x2b97, 0x2b40, 0x2ae8, 0x2a91, 0x2a3a,
     0x29e4, 0x298d, 0x2937, 0x28e0, 0x288b, 0x2835, 0x27df, 0x278a, 0x2735, 0x26e0, 0x268b, 0x2636, 0x25e2, 0x258d, 0x2539, 0x24e5,
     0x2492, 0x243e, 0x23eb, 0x2398, 0x2345, 0x22f2, 0x22a0, 0x224d, 0x21fb, 0x21a9, 0x2157, 0x2105, 0x20b4, 0x2063, 0x2012, 0x1fc1,
     0x1f70, 0x1f1f, 0x1ecf, 0x1e7f, 0x1e2e, 0x1ddf, 0x1d8f, 0x1d3f, 0x1cf0, 0x1ca1, 0x1c52, 0x1c03, 0x1bb4, 0x1b66, 0x1b17, 0x1ac9,
     0x1a7b, 0x1a2d, 0x19e0, 0x1992, 0x1945, 0x18f8, 0x18ab, 0x185e, 0x1811, 0x17c4, 0x1778, 0x172c, 0x16e0, 0x1694, 0x1648, 0x15fd,
     0x15b1, 0x1566, 0x151b, 0x14d0, 0x1485, 0x143b, 0x13f0, 0x13a6, 0x135c, 0x1312, 0x12c8, 0x127f, 0x1235, 0x11ec, 0x11a3, 0x1159,
     0x1111, 0x10c8, 0x107f, 0x1037, 0x0fef, 0x0fa6, 0x0f5e, 0x0f17, 0x0ecf, 0x0e87, 0x0e40, 0x0df9, 0x0db2, 0x0d6b, 0x0d24, 0x0cdd,
     0x0c97, 0x0c50, 0x0c0a, 0x0bc4, 0x0b7e, 0x0b38, 0x0af2, 0x0aad, 0x0a68, 0x0a22, 0x09dd, 0x0998, 0x0953, 0x090f, 0x08ca, 0x0886,
     0x0842, 0x07fd, 0x07b9, 0x0776, 0x0732, 0x06ee, 0x06ab, 0x0668, 0x0624, 0x05e1, 0x059e, 0x055c, 0x0519, 0x04d6, 0x0494, 0x0452,
     0x0410, 0x03ce, 0x038c, 0x034a, 0x0309, 0x02c7, 0x0286, 0x0245, 0x0204, 0x01c3, 0x0182, 0x0141, 0x0101, 0x00c0, 0x0080, 0x0040]"

definition kRsqRom :: "u16 list" where
  "kRsqRom = [
     0xffff, 0xff00, 0xfe02, 0xfd06, 0xfc0b, 0xfb12, 0xfa1a, 0xf923, 0xf82e, 0xf73b, 0xf648, 0xf557, 0xf467, 0xf379, 0xf28c, 0xf1a0,
     0xf0b6, 0xefcd, 0xeee5, 0xedff, 0xed19, 0xec35, 0xeb52, 0xea71, 0xe990, 0xe8b1, 0xe7d3, 0xe6f6, 0xe61b, 0xe540, 0xe467, 0xe38e,
     0xe2b7, 0xe1e1, 0xe10d, 0xe039, 0xdf66, 0xde94, 0xddc4, 0xdcf4, 0xdc26, 0xdb59, 0xda8c, 0xd9c1, 0xd8f7, 0xd82d, 0xd765, 0xd69e,
     0xd5d7, 0xd512, 0xd44e, 0xd38a, 0xd2c8, 0xd206, 0xd146, 0xd086, 0xcfc7, 0xcf0a, 0xce4d, 0xcd91, 0xccd6, 0xcc1b, 0xcb62, 0xcaa9,
     0xc9f2, 0xc93b, 0xc885, 0xc7d0, 0xc71c, 0xc669, 0xc5b6, 0xc504, 0xc453, 0xc3a3, 0xc2f4, 0xc245, 0xc198, 0xc0eb, 0xc03f, 0xbf93,
     0xbee9, 0xbe3f, 0xbd96, 0xbced, 0xbc46, 0xbb9f, 0xbaf8, 0xba53, 0xb9ae, 0xb90a, 0xb867, 0xb7c5, 0xb723, 0xb681, 0xb5e1, 0xb541,
     0xb4a2, 0xb404, 0xb366, 0xb2c9, 0xb22c, 0xb191, 0xb0f5, 0xb05b, 0xafc1, 0xaf28, 0xae8f, 0xadf7, 0xad60, 0xacc9, 0xac33, 0xab9e,
     0xab09, 0xaa75, 0xa9e1, 0xa94e, 0xa8bc, 0xa82a, 0xa799, 0xa708, 0xa678, 0xa5e8, 0xa559, 0xa4cb, 0xa43d, 0xa3b0, 0xa323, 0xa297,
     0xa20b, 0xa180, 0xa0f6, 0xa06c, 0x9fe2, 0x9f59, 0x9ed1, 0x9e49, 0x9dc2, 0x9d3b, 0x9cb4, 0x9c2f, 0x9ba9, 0x9b25, 0x9aa0, 0x9a1c,
     0x9999, 0x9916, 0x9894, 0x9812, 0x9791, 0x9710, 0x968f, 0x960f, 0x9590, 0x9511, 0x9492, 0x9414, 0x9397, 0x931a, 0x929d, 0x9221,
     0x91a5, 0x9129, 0x90af, 0x9034, 0x8fba, 0x8f40, 0x8ec7, 0x8e4f, 0x8dd6, 0x8d5e, 0x8ce7, 0x8c70, 0x8bf9, 0x8b83, 0x8b0d, 0x8a98,
     0x8a23, 0x89ae, 0x893a, 0x88c6, 0x8853, 0x87e0, 0x876d, 0x86fb, 0x8689, 0x8618, 0x85a7, 0x8536, 0x84c6, 0x8456, 0x83e7, 0x8377,
     0x8309, 0x829a, 0x822c, 0x81bf, 0x8151, 0x80e4, 0x8078, 0x800c, 0x7fa0, 0x7f34, 0x7ec9, 0x7e5e, 0x7df4, 0x7d8a, 0x7d20, 0x7cb6,
     0x7c4d, 0x7be5, 0x7b7c, 0x7b14, 0x7aac, 0x7a45, 0x79de, 0x7977, 0x7911, 0x78ab, 0x7845, 0x77df, 0x777a, 0x7715, 0x76b1, 0x764d,
     0x75e9, 0x7585, 0x7522, 0x74bf, 0x745d, 0x73fa, 0x7398, 0x7337, 0x72d5, 0x7274, 0x7213, 0x71b3, 0x7152, 0x70f2, 0x7093, 0x7033,
     0x6fd4, 0x6f76, 0x6f17, 0x6eb9, 0x6e5b, 0x6dfd, 0x6da0, 0x6d43, 0x6ce6, 0x6c8a, 0x6c2d, 0x6bd1, 0x6b76, 0x6b1a, 0x6abf, 0x6a64,
     0x6a09, 0x6955, 0x68a1, 0x67ef, 0x673e, 0x668d, 0x65de, 0x6530, 0x6482, 0x63d6, 0x632b, 0x6280, 0x61d7, 0x612e, 0x6087, 0x5fe0,
     0x5f3a, 0x5e95, 0x5df1, 0x5d4e, 0x5cac, 0x5c0b, 0x5b6b, 0x5acb, 0x5a2c, 0x598f, 0x58f2, 0x5855, 0x57ba, 0x5720, 0x5686, 0x55ed,
     0x5555, 0x54be, 0x5427, 0x5391, 0x52fc, 0x5268, 0x51d5, 0x5142, 0x50b0, 0x501f, 0x4f8e, 0x4efe, 0x4e6f, 0x4de1, 0x4d53, 0x4cc6,
     0x4c3a, 0x4baf, 0x4b24, 0x4a9a, 0x4a10, 0x4987, 0x48ff, 0x4878, 0x47f1, 0x476b, 0x46e5, 0x4660, 0x45dc, 0x4558, 0x44d5, 0x4453,
     0x43d1, 0x434f, 0x42cf, 0x424f, 0x41cf, 0x4151, 0x40d2, 0x4055, 0x3fd8, 0x3f5b, 0x3edf, 0x3e64, 0x3de9, 0x3d6e, 0x3cf5, 0x3c7c,
     0x3c03, 0x3b8b, 0x3b13, 0x3a9c, 0x3a26, 0x39b0, 0x393a, 0x38c5, 0x3851, 0x37dd, 0x3769, 0x36f6, 0x3684, 0x3612, 0x35a0, 0x352f,
     0x34bf, 0x344f, 0x33df, 0x3370, 0x3302, 0x3293, 0x3226, 0x31b9, 0x314c, 0x30df, 0x3074, 0x3008, 0x2f9d, 0x2f33, 0x2ec8, 0x2e5f,
     0x2df6, 0x2d8d, 0x2d24, 0x2cbc, 0x2c55, 0x2bee, 0x2b87, 0x2b21, 0x2abb, 0x2a55, 0x29f0, 0x298b, 0x2927, 0x28c3, 0x2860, 0x27fd,
     0x279a, 0x2738, 0x26d6, 0x2674, 0x2613, 0x25b2, 0x2552, 0x24f2, 0x2492, 0x2432, 0x23d3, 0x2375, 0x2317, 0x22b9, 0x225b, 0x21fe,
     0x21a1, 0x2145, 0x20e8, 0x208d, 0x2031, 0x1fd6, 0x1f7b, 0x1f21, 0x1ec7, 0x1e6d, 0x1e13, 0x1dba, 0x1d61, 0x1d09, 0x1cb1, 0x1c59,
     0x1c01, 0x1baa, 0x1b53, 0x1afc, 0x1aa6, 0x1a50, 0x19fa, 0x19a5, 0x1950, 0x18fb, 0x18a7, 0x1853, 0x17ff, 0x17ab, 0x1758, 0x1705,
     0x16b2, 0x1660, 0x160d, 0x15bc, 0x156a, 0x1519, 0x14c8, 0x1477, 0x1426, 0x13d6, 0x1386, 0x1337, 0x12e7, 0x1298, 0x1249, 0x11fb,
     0x11ac, 0x115e, 0x1111, 0x10c3, 0x1076, 0x1029, 0x0fdc, 0x0f8f, 0x0f43, 0x0ef7, 0x0eab, 0x0e60, 0x0e15, 0x0dca, 0x0d7f, 0x0d34,
     0x0cea, 0x0ca0, 0x0c56, 0x0c0c, 0x0bc3, 0x0b7a, 0x0b31, 0x0ae8, 0x0aa0, 0x0a58, 0x0a10, 0x09c8, 0x0981, 0x0939, 0x08f2, 0x08ab,
     0x0865, 0x081e, 0x07d8, 0x0792, 0x074d, 0x0707, 0x06c2, 0x067d, 0x0638, 0x05f3, 0x05af, 0x056a, 0x0526, 0x04e2, 0x049f, 0x045b,
     0x0418, 0x03d5, 0x0392, 0x0350, 0x030d, 0x02cb, 0x0289, 0x0247, 0x0206, 0x01c4, 0x0183, 0x0142, 0x0101, 0x00c0, 0x0080, 0x0040]"

section \<open>Reciprocals\<close>

text \<open>\<open>std::countl_zero\<close> of a 32-bit value.\<close>

definition clz32 :: "u32 \<Rightarrow> nat" where
  "clz32 w = length (takeWhile (\<lambda>i. \<not> bit w i) (rev [0..<32]))"

definition rsp_rcp :: "u32 \<Rightarrow> u32" where
  "rsp_rcp sinput =
     (let m = signed_drop_bit 31 sinput;
          input0 = sinput XOR m;
          input = (if 0xFFFF8000 <s sinput then input0 - m else input0)
      in if input = 0 then 0x7FFFFFFF
         else if sinput = 0xFFFF8000 then 0xFFFF0000
         else let shift = clz32 input;
                  index = unat (drop_bit 22 (push_bit shift (scast input :: u64) AND 0x7FC00000));
                  result = push_bit 14 (0x10000 OR ucast (kRcpRom ! index)) :: u32
              in signed_drop_bit (31 - shift) result XOR m)"

definition rsp_rsq :: "u32 \<Rightarrow> u32 res" where
  "rsp_rsq v =
     (if v = 0 then ok 0x7FFFFFFF
      else if v = 0xFFFF8000 then ok 0xFFFF0000
      else let input1 = (if v > 0xFFFF8000 then v - 1 else v);
               m = signed_drop_bit 31 input1;
               input2 = input1 XOR m;
               shift = clz32 input2 + 1
           in if 32 \<le> shift then Inl UndefinedShift
              else let index = unat (drop_bit 24 (push_bit shift input2) OR push_bit 8 (of_nat (shift mod 2)));
                       rom = push_bit 14 (ucast (kRsqRom ! index)) :: u32;
                       r_shift = (32 - shift) div 2
                   in ok (drop_bit r_shift (0x40000000 OR rom) XOR m))"

section \<open>Accuracy of reciprocals\<close>

lemma clz32_bits:
  assumes "x \<noteq> 0"
  shows "clz32 x < 32 \<and> bit x (31 - clz32 x) \<and> (\<forall>n > 31 - clz32 x. \<not> bit x n)"
proof -
  let ?P = "\<lambda>i. \<not> bit x i" and ?l = "rev [0..<32]" and ?k = "clz32 x"
  from assms obtain n where n: "bit x n" by (auto simp: bit_eq_iff)
  then have "n < 32" by (auto dest: bit_imp_le_length)
  with n have "\<exists>i \<in> set ?l. \<not> ?P i" by auto
  then have "takeWhile ?P ?l \<noteq> ?l" by (simp only: takeWhile_eq_all_conv) blast
  then have "?k \<noteq> length ?l" unfolding clz32_def by (metis takeWhile_eq_take take_all order_refl)
  moreover have "?k \<le> length ?l" unfolding clz32_def by (rule length_takeWhile_le)
  ultimately have k: "?k < 32" by simp
  have l: "?l ! j = 31 - j" if "j < 32" for j using that by (simp add: rev_nth)
  have "\<not> ?P (?l ! ?k)"
    using k nth_length_takeWhile [of ?P ?l] by (simp add: clz32_def)
  then have b: "bit x (31 - ?k)" using k by (simp add: l)
  have "\<not> bit x n" if "31 - ?k < n" for n
  proof (cases "n < 32")
    case True
    with that have j: "31 - n < ?k" by simp
    then have "?P (?l ! (31 - n))"
      unfolding clz32_def by (metis nth_mem set_takeWhileD takeWhile_nth)
    with True show ?thesis by (simp add: l)
  qed (auto dest: bit_imp_le_length)
  with k b show ?thesis by blast
qed

lemma unat_less_bit: "(\<forall>n \<ge> m. \<not> bit (x :: 'a::len word) n) \<Longrightarrow> unat x < 2 ^ m"
proof -
  assume "\<forall>n \<ge> m. \<not> bit x n"
  then have "take_bit m x = x" by (intro bit_word_eqI) (metis bit_take_bit_iff not_le)
  then have "unat x = unat x mod 2 ^ m"
    by (metis take_bit_eq_mod unsigned_take_bit_eq)
  moreover have "unat x mod 2 ^ m < 2 ^ m" by simp
  ultimately show ?thesis by linarith
qed

lemma unat_ge_bit: "bit (x :: 'a::len word) m \<Longrightarrow> 2 ^ m \<le> unat x"
proof -
  assume "bit x m"
  then have "bit (unat x) m" by (simp add: bit_unsigned_iff)
  then have "odd (unat x div 2 ^ m)" by (simp add: bit_iff_odd)
  then have "unat x div 2 ^ m \<noteq> 0" by (metis even_zero)
  then show ?thesis by (simp add: div_eq_0_iff)
qed

lemma clz32_normal:
  assumes "x \<noteq> 0"
  shows "2 ^ 31 \<le> unat x * 2 ^ clz32 x" "unat x * 2 ^ clz32 x < 2 ^ 32" "clz32 x \<le> 31"
proof -
  from clz32_bits [OF assms] have k: "clz32 x \<le> 31" and b: "bit x (31 - clz32 x)"
    and z: "\<forall>n \<ge> 32 - clz32 x. \<not> bit x n" by auto
  have "(2 :: nat) ^ (31 - clz32 x) * 2 ^ clz32 x = 2 ^ 31" "(2 :: nat) ^ (32 - clz32 x) * 2 ^ clz32 x = 2 ^ 32"
    using k by (simp_all only: power_add [symmetric]) simp_all
  then show "2 ^ 31 \<le> unat x * 2 ^ clz32 x" "unat x * 2 ^ clz32 x < 2 ^ 32"
    using mult_le_mono1 [OF unat_ge_bit [OF b], of "2 ^ clz32 x"]
      mult_less_mono1 [OF unat_less_bit [OF z], of "2 ^ clz32 x"] by simp_all
  show "clz32 x \<le> 31" by (rule k)
qed

definition rcp_entry :: "nat \<Rightarrow> nat" where
  "rcp_entry i = min 0x1FFFF ((2 ^ 34 div (512 + i) + 1) div 256)"

lemma indices: "[0..<512] = 0 # 1 # [2..<512]"
  by (simp add: upt_conv_Cons numeral_2_eq_2)

lemma rcp_rom_entries: "map (\<lambda>w. 0x10000 + unat w) kRcpRom = map rcp_entry [0..<512]"
  by (simp add: kRcpRom_def rcp_entry_def indices upt_rec_numeral)

lemma rcp_rom_at: "i < 512 \<Longrightarrow> 0x10000 + unat (kRcpRom ! i) = rcp_entry i"
  using arg_cong [OF rcp_rom_entries, of "\<lambda>l. l ! i"] arg_cong [OF rcp_rom_entries, of length] by simp

lemma rcp_entry_bounds:
  assumes "i < 512"
  shows "rcp_entry i * (512 + i) \<le> 2 ^ 26 + 3" "2 ^ 26 \<le> (rcp_entry i + 1) * (512 + i)"
    "rcp_entry i < 2 ^ 17"
proof -
  let ?d = "512 + i" and ?e = "rcp_entry i"
  let ?q = "2 ^ 34 div ?d"
  have "?e \<le> (?q + 1) div 256" unfolding rcp_entry_def by (rule min.cobounded2)
  moreover have "256 * ((?q + 1) div 256) \<le> ?q + 1" by simp
  ultimately have "256 * ?e \<le> ?q + 1" by linarith
  then have "256 * ?e * ?d \<le> (?q + 1) * ?d" by (rule mult_le_mono1)
  also have "\<dots> \<le> 2 ^ 34 + ?d" by simp
  finally show "?e * ?d \<le> 2 ^ 26 + 3" using assms by simp
  show "2 ^ 26 \<le> (?e + 1) * ?d"
  proof (cases "(?q + 1) div 256 \<le> 0x1FFFF")
    case True
    then have "?e = (?q + 1) div 256" by (simp add: rcp_entry_def)
    then have "?q + 1 < 256 * (?e + 1)" using div_less_iff_less_mult [of 256 "?q + 1" "?e + 1"] by simp
    then have "(?q + 1) * ?d \<le> 256 * ((?e + 1) * ?d)"
      using mult_le_mono1 [of "?q + 1" "256 * (?e + 1)" ?d] by (simp only: mult.assoc)
    moreover have "256 * 2 ^ 26 < (?q + 1) * ?d"
      using div_less_iff_less_mult [of ?d "2 ^ 34" "?q + 1"] by simp
    ultimately have "256 * 2 ^ 26 < 256 * ((?e + 1) * ?d)" by (rule less_le_trans [rotated])
    then have "2 ^ 26 < (?e + 1) * ?d" by (simp only: nat_mult_less_cancel_disj)
    then show ?thesis by (rule less_imp_le)
  next
    case False
    then have "?e = 0x1FFFF" by (simp add: rcp_entry_def)
    then show ?thesis by simp
  qed
  show "?e < 2 ^ 17" by (simp add: rcp_entry_def)
qed

lemma rcp_result:
  fixes x k i e r :: nat
  assumes "k \<le> 31" "(512 + i) * 2 ^ 22 \<le> x * 2 ^ k" "x * 2 ^ k < (513 + i) * 2 ^ 22"
    "e * (512 + i) \<le> 2 ^ 26 + 3" "2 ^ 26 \<le> (e + 1) * (512 + i)" "i < 512" "e < 2 ^ 17"
    "r = e * 2 ^ 14 div 2 ^ (31 - k)"
  shows "x * r \<le> 2 ^ 31 + 2 ^ 22 + 96" "2 ^ 31 \<le> x * (r + 1) + 2 ^ 15"
proof -
  have p: "(2 :: nat) ^ (31 - k) * 2 ^ k = 2 ^ 31" using assms(1) by (simp flip: power_add)
  have "r * 2 ^ (31 - k) \<le> e * 2 ^ 14" unfolding assms(8) by simp
  then have "x * r * (2 ^ (31 - k) * 2 ^ k) \<le> x * 2 ^ k * (e * 2 ^ 14)"
    using mult_le_mono2 [of "r * 2 ^ (31 - k)" "e * 2 ^ 14" "x * 2 ^ k"] by (simp add: ac_simps)
  also have "\<dots> \<le> (513 + i) * 2 ^ 22 * (e * 2 ^ 14)"
    using assms(3) by (intro mult_le_mono1) simp
  also have "\<dots> = (e * (512 + i) + e) * 2 ^ 36" by (simp add: algebra_simps)
  also have "\<dots> \<le> (2 ^ 26 + 3 + 2 ^ 17) * 2 ^ 36"
    using assms(4,7) by (intro mult_le_mono1 add_mono) simp_all
  finally show "x * r \<le> 2 ^ 31 + 2 ^ 22 + 96" unfolding p by (simp add: mult.commute)
  have "e * 2 ^ 14 < (r + 1) * 2 ^ (31 - k)"
    unfolding assms(8) by (simp add: dividend_less_div_times)
  then have "x * 2 ^ k * (e * 2 ^ 14) \<le> x * 2 ^ k * ((r + 1) * 2 ^ (31 - k))"
    by (intro mult_le_mono2) simp
  also have "\<dots> = x * (r + 1) * 2 ^ 31" unfolding p [symmetric] by (simp only: ac_simps)
  finally have u: "x * 2 ^ k * (e * 2 ^ 14) \<le> x * (r + 1) * 2 ^ 31" .
  have "e * (512 + i) * 2 ^ 36 \<le> x * 2 ^ k * (e * 2 ^ 14)"
    using mult_le_mono1 [OF assms(2), of "e * 2 ^ 14"] by (simp add: ac_simps)
  with u have "e * (512 + i) * 2 ^ 36 \<le> x * (r + 1) * 2 ^ 31" by (rule order_trans [rotated])
  moreover have "e * (512 + i) * 2 ^ 36 = e * (512 + i) * 32 * 2 ^ 31" by simp
  ultimately have "e * (512 + i) * 32 * 2 ^ 31 \<le> x * (r + 1) * 2 ^ 31" by (simp only:)
  then have "e * (512 + i) * 32 \<le> x * (r + 1)" by (simp only: mult_le_cancel2) simp
  moreover have "2 ^ 26 \<le> e * (512 + i) + 1023" using assms(5,6) by (simp add: algebra_simps)
  ultimately show "2 ^ 31 \<le> x * (r + 1) + 2 ^ 15" by simp
qed

lemma unat_drop32: "unat (drop_bit n (w :: u32)) = unat w div 2 ^ n"
  by (simp only: unsigned_drop_bit_eq) (simp add: drop_bit_eq_div take_bit_nat_eq_self u32_less)

lemma sar_nonneg:
  assumes "\<not> bit (w :: u32) 31"
  shows "signed_drop_bit n w = drop_bit n w"
proof -
  have hi: "k < 31" if "bit w k" for k
    using that assms bit_imp_le_length [of w k] by (cases "k = 31") auto
  from assms show ?thesis
    by (intro bit_word_eqI) (auto simp: bit_signed_drop_bit_iff bit_drop_bit_eq add.commute dest: hi)
qed

lemma rcp_index:
  assumes "unat x * 2 ^ k < 2 ^ 32" "2 ^ 31 \<le> unat x * 2 ^ k"
  shows "unat (drop_bit 22 (push_bit k (ucast (x :: u32) :: u64) AND 0x7FC00000)) = unat x * 2 ^ k div 2 ^ 22 - 512"
proof -
  let ?y = "unat x * 2 ^ k"
  have y: "unat (push_bit k (ucast x :: u64)) = ?y"
    using assms(1) by (simp only: unsigned_push_bit_eq) (simp add: push_bit_eq_mult unat_up take_bit_nat_eq_self)
  have "drop_bit 22 (w AND 0x7FC00000) = take_bit 9 (drop_bit 22 w)" for w :: u64
  proof -
    have m: "(0x7FC00000 :: u64) = push_bit 22 (mask 9)" by (simp add: mask_eq_exp_minus_1 push_bit_eq_mult)
    show ?thesis
      by (rule bit_word_eqI, simp only: m bit_drop_bit_eq bit_and_iff bit_push_bit_iff bit_mask_iff bit_take_bit_iff o_def)
        (auto dest: bit_imp_le_length)
  qed
  then have "unat (drop_bit 22 (push_bit k (ucast x :: u64) AND 0x7FC00000)) = ?y div 2 ^ 22 mod 512"
    by (simp only: unsigned_take_bit_eq unsigned_drop_bit_eq y) (use assms(1) in \<open>simp add: drop_bit_eq_div take_bit_eq_mod\<close>)
  moreover have "?y div 2 ^ 22 < 1024" "512 \<le> ?y div 2 ^ 22"
    using assms by (simp_all add: div_less_iff_less_mult less_eq_div_iff_mult_less_eq)
  ultimately show ?thesis by (simp add: le_mod_geq)
qed

text \<open>C37: the reciprocal of a positive value approximates 2^31 / x: the product with x is at most
  one part in 511 above 2^31 and, after one unit in the last place, at most one part in 2^16 below.\<close>

theorem rsp_rcp_accuracy:
  assumes "0 < x" "x < 0x80000000"
  shows "unat x * unat (rsp_rcp x) \<le> 2 ^ 31 + 2 ^ 22 + 96 \<and>
    2 ^ 31 \<le> unat x * (unat (rsp_rcp x) + 1) + 2 ^ 15"
proof -
  have x: "unat x < 2 ^ 31" "x \<noteq> 0" using assms by (auto simp: word_less_nat_alt)
  then have b: "\<not> bit x 31" using unat_ge_bit [of x 31] by auto
  have hi: "\<not> bit x n" if "31 \<le> n" for n
    using b that by (cases "n = 31") (auto dest: bit_imp_le_length)
  have ne: "x \<noteq> 0xFFFF8000" using x(1) by auto
  let ?k = "clz32 x" and ?y = "unat x * 2 ^ clz32 x"
  let ?i = "?y div 2 ^ 22 - 512"
  note n = clz32_normal [OF x(2)]
  have m: "signed_drop_bit 31 x = 0"
    by (rule bit_word_eqI) (use b in \<open>auto simp: bit_signed_drop_bit_iff Suc_le_eq\<close>)
  have sc: "(scast x :: u64) = ucast x"
    by (rule bit_word_eqI) (use hi in \<open>auto simp: bit_signed_iff bit_ucast_iff min_def dest: bit_imp_le_length\<close>)
  have "512 \<le> ?y div 2 ^ 22" "?y div 2 ^ 22 < 1024"
    using n by (simp_all add: div_less_iff_less_mult less_eq_div_iff_mult_less_eq)
  then have i: "?i < 512" "512 + ?i = ?y div 2 ^ 22" by simp_all
  let ?e = "rcp_entry ?i"
  let ?w = "0x10000 OR ucast (kRcpRom ! ?i) :: u32"
  have "unat ?w = 0x10000 + unat (kRcpRom ! ?i)"
  proof -
    have "(0x10000 :: u32) AND ucast (kRcpRom ! ?i) = 0"
      by (rule bit_word_eqI) (auto simp: bit_and_iff bit_ucast_iff bit_exp_iff [of 16, simplified] dest: bit_imp_le_length)
    then have "?w = 0x10000 + ucast (kRcpRom ! ?i)" by (simp add: disjunctive_add_eq_or)
    moreover have "unat (kRcpRom ! ?i) < 2 ^ 16" using unsigned_less [of "kRcpRom ! ?i"] by simp
    ultimately show ?thesis by (simp add: unat_word_ariths unsigned_ucast_eq take_bit_nat_eq_self)
  qed
  then have e: "unat ?w = ?e" using rcp_rom_at [OF i(1)] by simp
  have pw: "unat (push_bit 14 ?w) = ?e * 2 ^ 14"
    using rcp_entry_bounds(3) [OF i(1)]
    unfolding unsigned_push_bit_eq e by (simp add: push_bit_eq_mult take_bit_nat_eq_self)
  then have nb: "\<not> bit (push_bit 14 ?w) 31"
    using unat_ge_bit [of "push_bit 14 ?w" 31] rcp_entry_bounds(3) [OF i(1)] by auto
  have "signed_drop_bit (31 - ?k) (push_bit 14 ?w) = drop_bit (31 - ?k) (push_bit 14 ?w)"
    using nb by (rule sar_nonneg)
  moreover have inp: "(if 0xFFFF8000 <s x then (x XOR 0) - 0 else x XOR 0) = x" by simp
  have "rsp_rcp x = signed_drop_bit (31 - ?k) (push_bit 14 ?w)"
    by (simp only: rsp_rcp_def Let_def m inp sc rcp_index [OF n(2,1)] ne x(2) if_False xor.right_neutral diff_0_right if_cancel)
  ultimately have r: "unat (rsp_rcp x) = ?e * 2 ^ 14 div 2 ^ (31 - ?k)"
    by (simp only: unat_drop32 pw)
  show ?thesis
    using rcp_result [OF n(3) _ _ rcp_entry_bounds(1,2) [OF i(1)] i(1) rcp_entry_bounds(3) [OF i(1)] r]
    using n i by (simp add: less_eq_div_iff_mult_less_eq div_less_iff_less_mult)
qed

section \<open>Accuracy of reciprocal square roots\<close>

definition rsq_radicand :: "nat \<Rightarrow> nat" where
  "rsq_radicand i = (if i < 256 then 2 ^ 42 else 2 ^ 41)"

lemma rsq_rom_entries:
  "list_all2 (\<lambda>i w. (0x10000 + unat w) ^ 2 * (256 + i mod 256) \<le> rsq_radicand i \<and>
     rsq_radicand i \<le> (0x10001 + unat w) ^ 2 * (256 + i mod 256)) [0..<512] kRsqRom"
  by (simp add: kRsqRom_def rsq_radicand_def indices upt_rec_numeral power2_eq_square)

end
