(* ===== verification/Rsp_Vector.thy ===== *)
theory Rsp_Vector
  imports Rsp_Rom
begin

text \<open>
  The vector computations of the RSP (\<open>vu_execute_compute_scalar\<close> of \<open>src/rcp/rsp_vector.cpp\<close>):
  eight 16-bit lanes and a 48-bit accumulator per lane. Every signed intermediate value of the code
  fits its C++ type, so it is an \<open>int\<close> here; what is stored goes through the truncations of the code.
\<close>

section \<open>Operands and the accumulator\<close>

definition broadcast_lane :: "nat \<Rightarrow> nat \<Rightarrow> nat" where
  "broadcast_lane element dest_lane =
     (if element < 2 then dest_lane
      else if element < 4 then push_bit 1 (drop_bit 1 dest_lane) OR (element AND 1)
      else if element < 8 then push_bit 2 (drop_bit 2 dest_lane) OR (element AND 3)
      else element AND 7)"

definition acc_get :: "nat \<Rightarrow> rsp_regs \<Rightarrow> int" where
  "acc_get i r =
     (let v = push_bit 32 (uint (acc_h r i)) OR push_bit 16 (uint (acc_m r i)) OR uint (acc_l r i)
      in if v AND 0x800000000000 \<noteq> 0 then v OR NOT 0xFFFFFFFFFFFF else v)"

definition acc_set :: "nat \<Rightarrow> int \<Rightarrow> rsp_regs \<Rightarrow> rsp_regs" where
  "acc_set i v r =
     r\<lparr>acc_h := (acc_h r)(i := word_of_int (drop_bit 32 v)),
       acc_m := (acc_m r)(i := word_of_int (drop_bit 16 v)),
       acc_l := (acc_l r)(i := word_of_int v)\<rparr>"

definition set_acc_l :: "nat \<Rightarrow> u16 \<Rightarrow> rsp_regs \<Rightarrow> rsp_regs" where
  "set_acc_l i v r = r\<lparr>acc_l := (acc_l r)(i := v)\<rparr>"

definition put_lane :: "u32 \<Rightarrow> nat \<Rightarrow> u16 \<Rightarrow> rsp_regs \<Rightarrow> rsp_regs" where
  "put_lane vd i x r = r\<lparr>vpr := (vpr r)(vd := vr_set_lane i x (vpr r vd))\<rparr>"

definition clamp_signed :: "int \<Rightarrow> u16" where
  "clamp_signed a = (if a > 32767 then 32767 else if a < - 32768 then word_of_int (- 32768) else word_of_int a)"

definition clamp_unsigned :: "int \<Rightarrow> u16" where
  "clamp_unsigned a = (if a < 0 then 0 else if a > 32767 then 65535 else word_of_int a)"

definition clamp_acc_low :: "int \<Rightarrow> u16" where
  "clamp_acc_low acc =
     (let hi = word_of_int (drop_bit 32 acc) :: u16; mid = word_of_int (drop_bit 16 acc) :: u16
      in if hi = 0 \<and> mid AND 0x8000 = 0 then word_of_int acc
         else if hi = - 1 \<and> mid AND 0x8000 = 0x8000 then word_of_int acc
         else if hi <s 0 then 0 else 0xFFFF)"

definition set_vcc_bit :: "nat \<Rightarrow> bool \<Rightarrow> bool \<Rightarrow> rsp_regs \<Rightarrow> rsp_regs" where
  "set_vcc_bit i lw v r = r\<lparr>vcc := put_bit (if lw then i else i + 8) v (vcc r)\<rparr>"

definition set_vco_bit :: "nat \<Rightarrow> bool \<Rightarrow> bool \<Rightarrow> rsp_regs \<Rightarrow> rsp_regs" where
  "set_vco_bit i lw v r = r\<lparr>vco := put_bit (if lw then i else i + 8) v (vco r)\<rparr>"

definition set_vce_bit :: "nat \<Rightarrow> bool \<Rightarrow> rsp_regs \<Rightarrow> rsp_regs" where
  "set_vce_bit i v r = r\<lparr>vce := put_bit i v (vce r)\<rparr>"

definition vcc_bit :: "nat \<Rightarrow> bool \<Rightarrow> rsp_regs \<Rightarrow> bool" where
  "vcc_bit i lw r = bit (vcc r) (if lw then i else i + 8)"

definition vco_bit :: "nat \<Rightarrow> bool \<Rightarrow> rsp_regs \<Rightarrow> bool" where
  "vco_bit i lw r = bit (vco r) (if lw then i else i + 8)"

definition vce_bit :: "nat \<Rightarrow> rsp_regs \<Rightarrow> bool" where
  "vce_bit i r = bit (vce r) i"

text \<open>The loop \<open>for (i = 0; i < 8; i++)\<close>.\<close>

definition for_lanes :: "(nat \<Rightarrow> rsp_regs \<Rightarrow> rsp_regs) \<Rightarrow> rsp_regs \<Rightarrow> rsp_regs" where
  "for_lanes f r = fold f [0..<8] r"

section \<open>One lane of each group\<close>

text \<open>The arguments are the opcode, the destination, the two source lanes and the lane number.\<close>

definition lane_mulf :: "u32 \<Rightarrow> u32 \<Rightarrow> u16 \<Rightarrow> u16 \<Rightarrow> nat \<Rightarrow> rsp_regs \<Rightarrow> rsp_regs" where
  "lane_mulf op vd s t i r =
     (let accum = (op = 0x08 \<or> op = 0x09); unsigned_clamp = (op = 0x01 \<or> op = 0x09);
          prod = push_bit 1 (sint s * sint t);
          r1 = (if accum then acc_set i (acc_get i r + prod) r else acc_set i (prod + 0x8000) r);
          out = drop_bit 16 (acc_get i r1)
      in put_lane vd i (if unsigned_clamp then clamp_unsigned out else clamp_signed out) r1)"

definition lane_vrnd :: "u32 \<Rightarrow> u32 \<Rightarrow> u32 \<Rightarrow> u16 \<Rightarrow> nat \<Rightarrow> rsp_regs \<Rightarrow> rsp_regs" where
  "lane_vrnd op vs vd t i r =
     (let product = (if vs AND 1 \<noteq> 0 then push_bit 16 (sint t) else sint t);
          acc = acc_get i r;
          acc' = (if op = 0x02 then (if acc \<ge> 0 then acc + product else acc)
                  else (if acc < 0 then acc + product else acc));
          r1 = acc_set i acc' r
      in put_lane vd i (clamp_signed (drop_bit 16 (acc_get i r1))) r1)"

definition lane_vmulq :: "u32 \<Rightarrow> u16 \<Rightarrow> u16 \<Rightarrow> nat \<Rightarrow> rsp_regs \<Rightarrow> rsp_regs" where
  "lane_vmulq vd s t i r =
     (let p0 = sint s * sint t; product = (if p0 < 0 then p0 + 31 else p0)
      in put_lane vd i (clamp_signed (drop_bit 1 product) AND NOT 15)
           (acc_set i (push_bit 16 product AND NOT 0xFFFF) r))"

definition lane_vmacq :: "u32 \<Rightarrow> nat \<Rightarrow> rsp_regs \<Rightarrow> rsp_regs" where
  "lane_vmacq vd i r =
     (let p0 = drop_bit 16 (acc_get i r);
          product = (if p0 < 0 \<and> \<not> bit p0 5 then p0 + 32
                     else if p0 \<ge> 32 \<and> \<not> bit p0 5 then p0 - 32 else p0);
          low = acc_get i r AND 0xFFFF
      in put_lane vd i (clamp_signed (drop_bit 1 product) AND NOT 15)
           (acc_set i (push_bit 16 product OR low) r))"

definition lane_mudl :: "u32 \<Rightarrow> u32 \<Rightarrow> u16 \<Rightarrow> u16 \<Rightarrow> nat \<Rightarrow> rsp_regs \<Rightarrow> rsp_regs" where
  "lane_mudl op vd s t i r =
     (let p = drop_bit 16 (uint s * uint t);
          prod = (if op = 0x0C then p + acc_get i r else p);
          r1 = acc_set i prod r
      in put_lane vd i (clamp_acc_low (acc_get i r1)) r1)"

definition lane_mudm :: "u32 \<Rightarrow> u32 \<Rightarrow> u16 \<Rightarrow> u16 \<Rightarrow> nat \<Rightarrow> rsp_regs \<Rightarrow> rsp_regs" where
  "lane_mudm op vd s t i r =
     (let p = sint s * uint t;
          prod = (if op = 0x0D then p + acc_get i r else p);
          r1 = acc_set i prod r
      in put_lane vd i (clamp_signed (drop_bit 16 (acc_get i r1))) r1)"

definition lane_mudn :: "u32 \<Rightarrow> u32 \<Rightarrow> u16 \<Rightarrow> u16 \<Rightarrow> nat \<Rightarrow> rsp_regs \<Rightarrow> rsp_regs" where
  "lane_mudn op vd s t i r =
     (let p = uint s * sint t;
          prod = (if op = 0x0E then p + acc_get i r else p);
          r1 = acc_set i prod r
      in put_lane vd i (clamp_acc_low (acc_get i r1)) r1)"

definition lane_mudh :: "u32 \<Rightarrow> u32 \<Rightarrow> u16 \<Rightarrow> u16 \<Rightarrow> nat \<Rightarrow> rsp_regs \<Rightarrow> rsp_regs" where
  "lane_mudh op vd s t i r =
     (let p = push_bit 16 (sint s * sint t);
          prod = (if op = 0x0F then p + acc_get i r else p);
          r1 = acc_set i prod r
      in put_lane vd i (clamp_signed (drop_bit 16 (acc_get i r1))) r1)"

definition lane_vadd :: "u32 \<Rightarrow> u16 \<Rightarrow> u16 \<Rightarrow> nat \<Rightarrow> rsp_regs \<Rightarrow> rsp_regs" where
  "lane_vadd vd s t i r =
     (let v = sint s + sint t + of_bool (bit (vco r) i)
      in put_lane vd i (clamp_signed v) (set_acc_l i (word_of_int v) r))"

definition lane_vsub :: "u32 \<Rightarrow> u16 \<Rightarrow> u16 \<Rightarrow> nat \<Rightarrow> rsp_regs \<Rightarrow> rsp_regs" where
  "lane_vsub vd s t i r =
     (let v = sint s - sint t - of_bool (bit (vco r) i)
      in put_lane vd i (clamp_signed v) (set_acc_l i (word_of_int v) r))"

definition lane_vabs :: "u32 \<Rightarrow> u16 \<Rightarrow> u16 \<Rightarrow> nat \<Rightarrow> rsp_regs \<Rightarrow> rsp_regs" where
  "lane_vabs vd s t i r =
     (if s <s 0 then
        (if t = 0x8000 then set_acc_l i 0x8000 (put_lane vd i 0x7FFF r)
         else set_acc_l i (- t) (put_lane vd i (- t) r))
      else if s = 0 then set_acc_l i 0 (put_lane vd i 0 r)
      else set_acc_l i t (put_lane vd i t r))"

definition lane_vaddc :: "u32 \<Rightarrow> u16 \<Rightarrow> u16 \<Rightarrow> nat \<Rightarrow> rsp_regs \<Rightarrow> rsp_regs" where
  "lane_vaddc vd s t i r =
     (let v = (ucast s + ucast t) :: u32;
          r1 = put_lane vd i (ucast v) (set_acc_l i (ucast v) r)
      in set_vco_bit i False False (set_vco_bit i True (v AND 0x10000 \<noteq> 0) r1))"

definition lane_vsubc :: "u32 \<Rightarrow> u16 \<Rightarrow> u16 \<Rightarrow> nat \<Rightarrow> rsp_regs \<Rightarrow> rsp_regs" where
  "lane_vsubc vd s t i r =
     (let v = (ucast s - ucast t) :: u32;
          r1 = put_lane vd i (ucast v) (set_acc_l i (ucast v) r)
      in set_vco_bit i False (s \<noteq> t) (set_vco_bit i True (s < t) r1))"

definition lane_vsar :: "nat \<Rightarrow> u32 \<Rightarrow> nat \<Rightarrow> rsp_regs \<Rightarrow> rsp_regs" where
  "lane_vsar e vd i r =
     (let a = acc_get i r
      in put_lane vd i (if e = 8 then word_of_int (drop_bit 32 a)
           else if e = 9 then word_of_int (drop_bit 16 a)
           else if e = 10 then word_of_int a else 0) r)"

definition compare_cond :: "u32 \<Rightarrow> u16 \<Rightarrow> u16 \<Rightarrow> bool \<Rightarrow> bool \<Rightarrow> bool" where
  "compare_cond op s t vco_lo vco_hi =
     (if op = 0x20 then s <s t \<or> (s = t \<and> vco_lo \<and> vco_hi)
      else if op = 0x21 then s = t \<and> \<not> vco_hi
      else if op = 0x22 then s \<noteq> t \<or> vco_hi
      else t <s s \<or> (s = t \<and> (\<not> vco_lo \<or> \<not> vco_hi)))"

definition lane_compare :: "u32 \<Rightarrow> u32 \<Rightarrow> u16 \<Rightarrow> u16 \<Rightarrow> nat \<Rightarrow> rsp_regs \<Rightarrow> rsp_regs" where
  "lane_compare op vd s t i r =
     (let cond = compare_cond op s t (bit (vco r) i) (bit (vco r) (i + 8));
          x = (if cond then s else t)
      in set_acc_l i x (put_lane vd i x (set_vcc_bit i True cond r)))"

definition lane_vch :: "u32 \<Rightarrow> u16 \<Rightarrow> u16 \<Rightarrow> nat \<Rightarrow> rsp_regs \<Rightarrow> rsp_regs" where
  "lane_vch vd s t i r =
     (let r1 =
        (if s XOR t <s 0 then
           (let result = s + t; a = (if result \<le>s 0 then - t else s)
            in set_vce_bit i (result = - 1)
                 (set_vco_bit i False (result \<noteq> 0 \<and> s \<noteq> t XOR 0xFFFF)
                 (set_vco_bit i True True
                 (set_vcc_bit i False (t <s 0)
                 (set_vcc_bit i True (result \<le>s 0) (set_acc_l i a r))))))
         else
           (let result = s - t; a = (if 0 \<le>s result then t else s)
            in set_vce_bit i False
                 (set_vco_bit i False (result \<noteq> 0 \<and> s \<noteq> t XOR 0xFFFF)
                 (set_vco_bit i True False
                 (set_vcc_bit i False (0 \<le>s result)
                 (set_vcc_bit i True (t <s 0) (set_acc_l i a r)))))))
      in put_lane vd i (word_of_int (acc_get i r1)) r1)"

definition lane_vcl :: "u32 \<Rightarrow> u16 \<Rightarrow> u16 \<Rightarrow> nat \<Rightarrow> rsp_regs \<Rightarrow> rsp_regs" where
  "lane_vcl vd s t i r =
     (let pick_neg = (\<lambda>q. set_acc_l i (if vcc_bit i True q then - t else s) q);
          pick = (\<lambda>q. set_acc_l i (if vcc_bit i False q then t else s) q);
          r1 =
        (if vco_bit i True r then
           (if vco_bit i False r then pick_neg r
            else let sm = (ucast s + ucast t) :: u32; clamped = (ucast sm) :: u16;
                     overflow = (sm \<noteq> ucast clamped)
                 in if vce_bit i r
                    then pick_neg (set_vcc_bit i True (clamped = 0 \<or> \<not> overflow) r)
                    else pick_neg (set_vcc_bit i True (clamped = 0 \<and> \<not> overflow) r))
         else
           (if vco_bit i False r then pick r
            else pick (set_vcc_bit i False (uint s - uint t \<ge> 0) r)))
      in put_lane vd i (word_of_int (acc_get i r1)) r1)"

definition lane_vcr :: "u32 \<Rightarrow> u16 \<Rightarrow> u16 \<Rightarrow> nat \<Rightarrow> rsp_regs \<Rightarrow> rsp_regs" where
  "lane_vcr vd s t i r =
     (let sign_different = (0x8000 AND (s XOR t) = 0x8000);
          vt_abs = (if sign_different then NOT t else t);
          gte = (t \<le>s (if sign_different then 0xFFFF else s));
          lte = (((if sign_different then uint s else 0) + uint t) AND 0x8000 = 0x8000);
          check = (if sign_different then lte else gte);
          result = (if check then vt_abs else s)
      in set_vcc_bit i False gte (set_vcc_bit i True lte (put_lane vd i result (set_acc_l i result r))))"

definition lane_vmrg :: "u32 \<Rightarrow> u16 \<Rightarrow> u16 \<Rightarrow> nat \<Rightarrow> rsp_regs \<Rightarrow> rsp_regs" where
  "lane_vmrg vd s t i r =
     (let x = (if bit (vcc r) i then s else t) in set_acc_l i x (put_lane vd i x r))"

definition logic_value :: "u32 \<Rightarrow> u16 \<Rightarrow> u16 \<Rightarrow> u16" where
  "logic_value op s t =
     (if op = 0x28 then s AND t else if op = 0x29 then NOT (s AND t)
      else if op = 0x2A then s OR t else if op = 0x2B then NOT (s OR t)
      else if op = 0x2C then s XOR t else NOT (s XOR t))"

definition lane_logic :: "u32 \<Rightarrow> u32 \<Rightarrow> u16 \<Rightarrow> u16 \<Rightarrow> nat \<Rightarrow> rsp_regs \<Rightarrow> rsp_regs" where
  "lane_logic op vd s t i r =
     (let x = logic_value op s t in set_acc_l i x (put_lane vd i x r))"

definition lane_vzero :: "u32 \<Rightarrow> u16 \<Rightarrow> u16 \<Rightarrow> nat \<Rightarrow> rsp_regs \<Rightarrow> rsp_regs" where
  "lane_vzero vd s t i r = put_lane vd i 0 (set_acc_l i (s + t) r)"

section \<open>Single-lane instructions\<close>

definition vmov_src_elem :: "nat \<Rightarrow> u32 \<Rightarrow> nat" where
  "vmov_src_elem element vs_field =
     (if element \<le> 1 then unat (vs_field AND 0b111)
      else if element \<le> 3 then (element AND 0b001) OR unat (vs_field AND 0b110)
      else if element \<le> 7 then (element AND 0b011) OR unat (vs_field AND 0b100)
      else element AND 0b111)"

text \<open>All lanes of the low accumulator take the operand \<open>vt\<close>.\<close>

definition acc_l_from :: "(nat \<Rightarrow> u16) \<Rightarrow> rsp_regs \<Rightarrow> rsp_regs" where
  "acc_l_from vt_lane = for_lanes (\<lambda>i. set_acc_l i (vt_lane i))"

definition vu_reciprocal ::
  "u32 \<Rightarrow> u32 \<Rightarrow> u32 \<Rightarrow> nat \<Rightarrow> vu_reg \<Rightarrow> (nat \<Rightarrow> u16) \<Rightarrow> rsp_regs \<Rightarrow> rsp_regs res" where
  "vu_reciprocal op vs vd element src_t vt_lane r =
     (let e = element AND 7; de = unat (vs AND 7)
      in if op = 0x32 \<or> op = 0x36 then
           (let r1 = r\<lparr>divin := src_t e, divin_loaded := True\<rparr>
            in ok (acc_l_from vt_lane (put_lane vd de (divout r1) r1)))
         else
           let inp = (if divin_loaded r \<and> (op = 0x31 \<or> op = 0x35)
                      then push_bit 16 (scast (divin r)) OR ucast (src_t e)
                      else scast (src_t e)) :: u32
           in bindR (if op = 0x34 \<or> op = 0x35 then rsp_rsq inp else ok (rsp_rcp inp))
                (\<lambda>result.
                   let r1 = r\<lparr>divout := ucast (drop_bit 16 result), divin := 0, divin_loaded := False\<rparr>
                   in ok (acc_l_from vt_lane (put_lane vd de (ucast result) r1))))"

definition vu_vmov :: "u32 \<Rightarrow> u32 \<Rightarrow> nat \<Rightarrow> vu_reg \<Rightarrow> (nat \<Rightarrow> u16) \<Rightarrow> rsp_regs \<Rightarrow> rsp_regs" where
  "vu_vmov vs vd element src_t vt_lane r =
     acc_l_from vt_lane (put_lane vd (unat (vs AND 7)) (src_t (vmov_src_elem element vs)) r)"

section \<open>The dispatch\<close>

definition vzero_ops :: "u32 list" where
  "vzero_ops = [0x12, 0x16, 0x17, 0x18, 0x19, 0x1A, 0x1B, 0x1C, 0x1E, 0x1F, 0x2E, 0x2F, 0x38, 0x39,
     0x3A, 0x3B, 0x3C, 0x3D, 0x3E, 0x3F]"

definition vu_execute_compute :: "u32 \<Rightarrow> rsp_regs \<Rightarrow> rsp_regs res" where
  "vu_execute_compute inst r =
     (let vd = drop_bit 6 inst AND 0x1F; vs = drop_bit 11 inst AND 0x1F;
          vt = drop_bit 16 inst AND 0x1F; element = unat (drop_bit 21 inst AND 0xF);
          op = inst AND 0x3F;
          src_s = vpr r vs; src_t = vpr r vt;
          vt_lane = (\<lambda>i. src_t (broadcast_lane element i))
      in if op \<in> {0x00, 0x01, 0x08, 0x09} then
           ok (for_lanes (\<lambda>i. lane_mulf op vd (src_s i) (vt_lane i) i) r)
         else if op = 0x02 \<or> op = 0x0A then ok (for_lanes (\<lambda>i. lane_vrnd op vs vd (vt_lane i) i) r)
         else if op = 0x03 then ok (for_lanes (\<lambda>i. lane_vmulq vd (src_s i) (vt_lane i) i) r)
         else if op = 0x0B then ok (for_lanes (lane_vmacq vd) r)
         else if op = 0x04 \<or> op = 0x0C then ok (for_lanes (\<lambda>i. lane_mudl op vd (src_s i) (vt_lane i) i) r)
         else if op = 0x05 \<or> op = 0x0D then ok (for_lanes (\<lambda>i. lane_mudm op vd (src_s i) (vt_lane i) i) r)
         else if op = 0x06 \<or> op = 0x0E then ok (for_lanes (\<lambda>i. lane_mudn op vd (src_s i) (vt_lane i) i) r)
         else if op = 0x07 \<or> op = 0x0F then ok (for_lanes (\<lambda>i. lane_mudh op vd (src_s i) (vt_lane i) i) r)
         else if op = 0x10 then
           ok ((for_lanes (\<lambda>i. lane_vadd vd (src_s i) (vt_lane i) i) r)\<lparr>vco := 0\<rparr>)
         else if op = 0x11 then
           ok ((for_lanes (\<lambda>i. lane_vsub vd (src_s i) (vt_lane i) i) r)\<lparr>vco := 0\<rparr>)
         else if op = 0x13 then ok (for_lanes (\<lambda>i. lane_vabs vd (src_s i) (vt_lane i) i) r)
         else if op = 0x14 then ok (for_lanes (\<lambda>i. lane_vaddc vd (src_s i) (vt_lane i) i) r)
         else if op = 0x15 then ok (for_lanes (\<lambda>i. lane_vsubc vd (src_s i) (vt_lane i) i) r)
         else if op = 0x1D then ok (for_lanes (lane_vsar element vd) r)
         else if op \<in> {0x20, 0x21, 0x22, 0x23} then
           (let r1 = for_lanes (\<lambda>i. lane_compare op vd (src_s i) (vt_lane i) i) r
            in ok (r1\<lparr>vcc := vcc r1 AND 0xFF, vco := 0\<rparr>))
         else if op = 0x25 then ok (for_lanes (\<lambda>i. lane_vch vd (src_s i) (vt_lane i) i) r)
         else if op = 0x24 then
           ok ((for_lanes (\<lambda>i. lane_vcl vd (src_s i) (vt_lane i) i) r)\<lparr>vco := 0, vce := 0\<rparr>)
         else if op = 0x26 then
           ok ((for_lanes (\<lambda>i. lane_vcr vd (src_s i) (vt_lane i) i) r)\<lparr>vco := 0, vce := 0\<rparr>)
         else if op = 0x27 then
           ok ((for_lanes (\<lambda>i. lane_vmrg vd (src_s i) (vt_lane i) i) r)\<lparr>vco := 0\<rparr>)
         else if 0x28 \<le> op \<and> op \<le> 0x2D then
           ok (for_lanes (\<lambda>i. lane_logic op vd (src_s i) (vt_lane i) i) r)
         else if op \<in> {0x30, 0x31, 0x32, 0x34, 0x35, 0x36} then
           vu_reciprocal op vs vd element src_t vt_lane r
         else if op = 0x33 then ok (vu_vmov vs vd element src_t vt_lane r)
         else if op \<in> set vzero_ops then
           ok (for_lanes (\<lambda>i. lane_vzero vd (src_s i) (vt_lane i) i) r)
         else ok r)"

end
