(* ===== verification/Rsp_Vector_Spec.thy ===== *)
theory Rsp_Vector_Spec
  imports Rsp_Vector
begin

text \<open>
  What sequences of vector instructions compute: the 32-bit multiplication and addition that microcode
  builds from 16-bit instructions are exact in every lane.
\<close>

section \<open>Loops over the lanes\<close>

text \<open>A loop whose step \<open>i\<close> changes what is seen of lane \<open>i\<close> only.\<close>

locale lane_loop =
  fixes view :: "nat \<Rightarrow> rsp_regs \<Rightarrow> 'v"
    and step :: "nat \<Rightarrow> rsp_regs \<Rightarrow> rsp_regs"
    and out :: "nat \<Rightarrow> 'v \<Rightarrow> 'v"
  assumes view_step: "i < 8 \<Longrightarrow> j < 8 \<Longrightarrow> view j (step i r) = (if j = i then out i (view i r) else view j r)"
begin

lemma view_steps:
  "n \<le> 8 \<Longrightarrow> j < 8 \<Longrightarrow> view j (fold step [0..<n] r) = (if j < n then out j (view j r) else view j r)"
proof (induction n)
  case (Suc n)
  have "view j (fold step [0..<Suc n] r) = view j (step n (fold step [0..<n] r))" by simp
  with Suc show ?case by (auto simp: view_step less_Suc_eq)
qed simp

lemma view_loop: "j < 8 \<Longrightarrow> view j (for_lanes step r) = out j (view j r)"
  using view_steps [of 8 j r] by (simp add: for_lanes_def)

end

lemma for_lanes_frame:
  assumes "\<And>i r. P (f i r) = P r"
  shows "P (for_lanes f r) = P r"
proof -
  have "P (fold f xs r) = P r" for xs by (induction xs arbitrary: r) (simp_all add: assms)
  then show ?thesis by (simp add: for_lanes_def)
qed

section \<open>The accumulator\<close>

abbreviation (input) sx48 :: "int \<Rightarrow> int" where "sx48 v \<equiv> signed_take_bit 47 v"

lemma acc_get_signed:
  "acc_get i r = sx48 (push_bit 32 (uint (acc_h r i)) OR push_bit 16 (uint (acc_m r i)) OR uint (acc_l r i))"
proof -
  let ?v = "push_bit 32 (uint (acc_h r i)) OR push_bit 16 (uint (acc_m r i)) OR uint (acc_l r i)"
  have top: "\<not> bit ?v n" if "48 \<le> n" for n
    using that by (auto simp: bit_or_iff bit_push_bit_iff bit_uint_iff)
  have b: "(?v AND 0x800000000000 \<noteq> 0) = bit ?v 47"
    using and_exp_eq_0_iff_not_bit [of ?v 47] by simp
  have m: "NOT 0xFFFFFFFFFFFF = (NOT (mask 48) :: int)" by (simp add: mask_eq_exp_minus_1)
  have "(if bit ?v 47 then ?v OR NOT (mask 48) else ?v) = sx48 ?v"
  proof (rule bit_eqI)
    fix n
    show "bit (if bit ?v 47 then ?v OR NOT (mask 48) else ?v) n = bit (sx48 ?v) n"
    proof (cases "n < 48")
      case True
      then show ?thesis by (cases "n = 47") (auto simp: bit_or_iff bit_not_iff bit_mask_iff bit_signed_take_bit_iff min_def)
    next
      case False
      with top [of n] show ?thesis
        by (auto simp: bit_or_iff bit_not_iff bit_mask_iff bit_signed_take_bit_iff min_def)
    qed
  qed
  then show ?thesis by (simp only: acc_get_def Let_def b m)
qed

lemma acc_get_set: "acc_get j (acc_set i v r) = (if j = i then sx48 v else acc_get j r)"
proof -
  have "push_bit 32 (uint (word_of_int (drop_bit 32 v) :: u16)) OR
      push_bit 16 (uint (word_of_int (drop_bit 16 v) :: u16)) OR uint (word_of_int v :: u16) = take_bit 48 v"
  proof (rule bit_eqI)
    fix n :: nat
    consider "n < 16" | "16 \<le> n" "n < 32" | "32 \<le> n" by linarith
    then show "bit (push_bit 32 (uint (word_of_int (drop_bit 32 v) :: u16)) OR
        push_bit 16 (uint (word_of_int (drop_bit 16 v) :: u16)) OR uint (word_of_int v :: u16)) n = bit (take_bit 48 v) n"
      by cases (auto simp: bit_or_iff bit_push_bit_iff uint_word_of_int_eq bit_take_bit_iff bit_drop_bit_eq)
  qed
  then show ?thesis by (auto simp: acc_get_signed acc_set_def signed_take_bit_take_bit)
qed

lemma acc_get_put_lane [simp]: "acc_get j (put_lane vd i x r) = acc_get j r"
  by (simp add: acc_get_def put_lane_def)

lemma sx48_add [simp]: "sx48 (a + sx48 b) = sx48 (a + b)"
proof -
  have "sx48 (a + sx48 b) = sx48 (sx48 a + sx48 (sx48 b))" by (rule signed_take_bit_add [symmetric])
  also have "\<dots> = sx48 (a + b)" by (simp add: signed_take_bit_add)
  finally show ?thesis .
qed

lemma vpr_put_lane: "vpr (put_lane vd i x r) y = (if y = vd then vr_set_lane i x (vpr r vd) else vpr r y)"
  by (simp add: put_lane_def)

lemma vpr_acc_set [simp]: "vpr (acc_set i v r) = vpr r"
  by (simp add: acc_set_def)

section \<open>The multiplications, lane by lane\<close>

interpretation mudl: lane_loop acc_get "\<lambda>i. lane_mudl op vd (ss i) (tt i) i"
    "\<lambda>i a. sx48 (drop_bit 16 (uint (ss i) * uint (tt i)) + (if op = 0x0C then a else 0))"
  for op vd ss tt
  by unfold_locales (simp add: lane_mudl_def Let_def acc_get_set)

interpretation mudm: lane_loop acc_get "\<lambda>i. lane_mudm op vd (ss i) (tt i) i"
    "\<lambda>i a. sx48 (sint (ss i) * uint (tt i) + (if op = 0x0D then a else 0))"
  for op vd ss tt
  by unfold_locales (simp add: lane_mudm_def Let_def acc_get_set)

interpretation mudn: lane_loop acc_get "\<lambda>i. lane_mudn op vd (ss i) (tt i) i"
    "\<lambda>i a. sx48 (uint (ss i) * sint (tt i) + (if op = 0x0E then a else 0))"
  for op vd ss tt
  by unfold_locales (simp add: lane_mudn_def Let_def acc_get_set)

interpretation mudh: lane_loop acc_get "\<lambda>i. lane_mudh op vd (ss i) (tt i) i"
    "\<lambda>i a. sx48 (push_bit 16 (sint (ss i) * sint (tt i)) + (if op = 0x0F then a else 0))"
  for op vd ss tt
  by unfold_locales (simp add: lane_mudh_def Let_def acc_get_set)

lemma mul_keeps_vpr:
  assumes "y \<noteq> vd"
  shows "vpr (for_lanes (\<lambda>i. lane_mudl op vd (ss i) (tt i) i) r) y = vpr r y"
    "vpr (for_lanes (\<lambda>i. lane_mudm op vd (ss i) (tt i) i) r) y = vpr r y"
    "vpr (for_lanes (\<lambda>i. lane_mudn op vd (ss i) (tt i) i) r) y = vpr r y"
  using assms
  by (intro for_lanes_frame [where P = "\<lambda>r. vpr r y"];
      simp add: lane_mudl_def lane_mudm_def lane_mudn_def Let_def vpr_put_lane)+

section \<open>Instructions\<close>

text \<open>The encoding of a vector computation without broadcast, and a straight-line run.\<close>

definition vu_inst :: "u32 \<Rightarrow> u32 \<Rightarrow> u32 \<Rightarrow> u32 \<Rightarrow> u32" where
  "vu_inst op vd vs vt =
     0x4A000000 OR push_bit 16 (vt AND 0x1F) OR push_bit 11 (vs AND 0x1F) OR push_bit 6 (vd AND 0x1F) OR (op AND 0x3F)"

definition vu_run :: "u32 list \<Rightarrow> rsp_regs \<Rightarrow> rsp_regs res" where
  "vu_run insts r = fold (\<lambda>i q. bindR q (vu_execute_compute i)) insts (ok r)"

lemma vu_fields:
  "drop_bit 6 (vu_inst op vd vs vt) AND 0x1F = vd AND 0x1F"
  "drop_bit 11 (vu_inst op vd vs vt) AND 0x1F = vs AND 0x1F"
  "drop_bit 16 (vu_inst op vd vs vt) AND 0x1F = vt AND 0x1F"
  "drop_bit 21 (vu_inst op vd vs vt) AND 0xF = 0"
  "vu_inst op vd vs vt AND 0x3F = op AND 0x3F"
proof -
  define c :: u32 where "c = 0x4A000000"
  have c0: "take_bit 25 c = 0" by (simp add: c_def)
  have c: "\<not> bit c k" if "k < 25" for k
  proof -
    from that have "bit c k = bit (take_bit 25 c) k" by (simp add: bit_take_bit_iff)
    then show ?thesis by (simp add: c0)
  qed
  have m: "(0x1F :: u32) = mask 5" "(0x3F :: u32) = mask 6" "(0xF :: u32) = mask 4"
    by (simp_all add: mask_eq_exp_minus_1)
  have b: "bit (vu_inst op vd vs vt) n =
      (if n < 6 then bit op n else if n < 11 then bit vd (n - 6) else if n < 16 then bit vs (n - 11)
       else if n < 21 then bit vt (n - 16) else bit c n)" for n
    unfolding vu_inst_def m c_def [symmetric]
    by (simp add: bit_or_iff bit_and_iff bit_push_bit_iff bit_mask_iff c)
      (auto dest: bit_imp_le_length)
  show "drop_bit 6 (vu_inst op vd vs vt) AND 0x1F = vd AND 0x1F"
    "drop_bit 11 (vu_inst op vd vs vt) AND 0x1F = vs AND 0x1F"
    "drop_bit 16 (vu_inst op vd vs vt) AND 0x1F = vt AND 0x1F"
    "drop_bit 21 (vu_inst op vd vs vt) AND 0xF = 0"
    "vu_inst op vd vs vt AND 0x3F = op AND 0x3F"
    unfolding m
    by (rule bit_word_eqI; use c in \<open>force simp: bit_and_iff bit_drop_bit_eq bit_mask_iff b\<close>)+
qed

lemma small_reg: "x < 32 \<Longrightarrow> x AND 0x1F = (x :: u32)"
proof -
  assume "x < 32"
  then have "unat x < 2 ^ 5" by (simp add: word_less_nat_alt)
  then have "take_bit 5 x = x" by (simp add: word_unat_eq_iff unsigned_take_bit_eq take_bit_nat_eq_self)
  then show ?thesis by (simp add: take_bit_eq_mask mask_eq_exp_minus_1)
qed

lemma vu_step:
  assumes "vd < 32" "vs < 32" "vt < 32"
  shows "vu_execute_compute (vu_inst 0x04 vd vs vt) r = ok (for_lanes (\<lambda>i. lane_mudl 0x04 vd (vpr r vs i) (vpr r vt i) i) r)"
    "vu_execute_compute (vu_inst 0x0D vd vs vt) r = ok (for_lanes (\<lambda>i. lane_mudm 0x0D vd (vpr r vs i) (vpr r vt i) i) r)"
    "vu_execute_compute (vu_inst 0x0E vd vs vt) r = ok (for_lanes (\<lambda>i. lane_mudn 0x0E vd (vpr r vs i) (vpr r vt i) i) r)"
    "vu_execute_compute (vu_inst 0x0F vd vs vt) r = ok (for_lanes (\<lambda>i. lane_mudh 0x0F vd (vpr r vs i) (vpr r vt i) i) r)"
    "vu_execute_compute (vu_inst 0x14 vd vs vt) r = ok (for_lanes (\<lambda>i. lane_vaddc vd (vpr r vs i) (vpr r vt i) i) r)"
    "vu_execute_compute (vu_inst 0x10 vd vs vt) r = ok ((for_lanes (\<lambda>i. lane_vadd vd (vpr r vs i) (vpr r vt i) i) r)\<lparr>vco := 0\<rparr>)"
proof -
  note f = assms [THEN small_reg]
  have k: "(0x04 :: u32) AND 0x3F = 0x04" "(0x0D :: u32) AND 0x3F = 0x0D" "(0x0E :: u32) AND 0x3F = 0x0E"
    "(0x0F :: u32) AND 0x3F = 0x0F" "(0x14 :: u32) AND 0x3F = 0x14" "(0x10 :: u32) AND 0x3F = 0x10" by simp_all
  have l: "broadcast_lane (unat (0 :: u32)) i = i" for i by (simp add: broadcast_lane_def)
  note u = vu_execute_compute_def Let_def vu_fields f k l
  show "vu_execute_compute (vu_inst 0x04 vd vs vt) r = ok (for_lanes (\<lambda>i. lane_mudl 0x04 vd (vpr r vs i) (vpr r vt i) i) r)"
    "vu_execute_compute (vu_inst 0x0D vd vs vt) r = ok (for_lanes (\<lambda>i. lane_mudm 0x0D vd (vpr r vs i) (vpr r vt i) i) r)"
    "vu_execute_compute (vu_inst 0x0E vd vs vt) r = ok (for_lanes (\<lambda>i. lane_mudn 0x0E vd (vpr r vs i) (vpr r vt i) i) r)"
    "vu_execute_compute (vu_inst 0x0F vd vs vt) r = ok (for_lanes (\<lambda>i. lane_mudh 0x0F vd (vpr r vs i) (vpr r vt i) i) r)"
    "vu_execute_compute (vu_inst 0x14 vd vs vt) r = ok (for_lanes (\<lambda>i. lane_vaddc vd (vpr r vs i) (vpr r vt i) i) r)"
    "vu_execute_compute (vu_inst 0x10 vd vs vt) r = ok ((for_lanes (\<lambda>i. lane_vadd vd (vpr r vs i) (vpr r vt i) i) r)\<lparr>vco := 0\<rparr>)"
    unfolding u by simp_all
qed

text \<open>A 32-bit value held as an upper and a lower half in lane \<open>i\<close> of two registers.\<close>

definition lane32 :: "u32 \<Rightarrow> u32 \<Rightarrow> nat \<Rightarrow> rsp_regs \<Rightarrow> int" where
  "lane32 h l i r = sint (vpr r h i) * 2 ^ 16 + uint (vpr r l i)"

lemma product_parts:
  fixes a b c d :: int
  shows "a * c * 2 ^ 16 + (b * c + (a * d + b * d div 2 ^ 16)) =
    (a * 2 ^ 16 + b) * (c * 2 ^ 16 + d) div 2 ^ 16"
proof -
  have "(a * 2 ^ 16 + b) * (c * 2 ^ 16 + d) = b * d + (a * c * 2 ^ 16 + b * c + a * d) * 2 ^ 16"
    by (simp add: algebra_simps)
  then show ?thesis by simp
qed

lemma half_bounds: "- (2 ^ 31) \<le> sint (x :: u16) * 2 ^ 16 + uint (y :: u16)" "sint x * 2 ^ 16 + uint y < 2 ^ 31"
proof -
  have "- 32768 \<le> sint x" "sint x < 32768" "uint y < 65536" "0 \<le> uint y"
    using sint_ge [of x] sint_lt [of x] uint_lt2p [of y] by simp_all
  then have "- 2147483648 \<le> sint x * 65536 + uint y" "sint x * 65536 + uint y < 2147483648" by linarith+
  then show "- (2 ^ 31) \<le> sint x * 2 ^ 16 + uint y" "sint x * 2 ^ 16 + uint y < 2 ^ 31"
    by simp_all
qed

lemma product48:
  fixes m n :: int
  assumes "- (2 ^ 31) \<le> m" "m < 2 ^ 31" "- (2 ^ 31) \<le> n" "n < 2 ^ 31"
  shows "sx48 (m * n div 2 ^ 16) = m * n div 2 ^ 16"
proof -
  have "\<bar>m * n\<bar> \<le> 2 ^ 31 * 2 ^ 31" unfolding abs_mult using assms by (intro mult_mono) auto
  then have "- (2 ^ 62) \<le> m * n" "m * n \<le> 2 ^ 62" by auto
  then have "- (2 ^ 47) \<le> m * n div 2 ^ 16" "m * n div 2 ^ 16 < 2 ^ 47" by simp_all
  then show ?thesis by (simp add: signed_take_bit_int_eq_self)
qed

text \<open>C34: the four instructions VMUDL, VMADM, VMADN and VMADH leave the exact product of two 32-bit
  fixed-point values, scaled down by 2^16 and rounded down, in the accumulator of every lane.\<close>

theorem vu_double_multiply:
  assumes "set [x, ah, al, bh, bl] \<subseteq> {..<32}" and "x \<notin> {ah, al, bh, bl}"
  shows "\<exists>r'. vu_run [vu_inst 0x04 x al bl, vu_inst 0x0D x ah bl, vu_inst 0x0E x al bh, vu_inst 0x0F x ah bh] r = Inr r' \<and>
    map (\<lambda>i. acc_get i r') [0..<8] = map (\<lambda>i. lane32 ah al i r * lane32 bh bl i r div 2 ^ 16) [0..<8]"
proof -
  note b = assms [simplified]
  then have ne: "ah \<noteq> x" "al \<noteq> x" "bh \<noteq> x" "bl \<noteq> x" by auto
  define r1 where "r1 = for_lanes (\<lambda>i. lane_mudl 0x04 x (vpr r al i) (vpr r bl i) i) r"
  define r2 where "r2 = for_lanes (\<lambda>i. lane_mudm 0x0D x (vpr r1 ah i) (vpr r1 bl i) i) r1"
  define r3 where "r3 = for_lanes (\<lambda>i. lane_mudn 0x0E x (vpr r2 al i) (vpr r2 bh i) i) r2"
  define r4 where "r4 = for_lanes (\<lambda>i. lane_mudh 0x0F x (vpr r3 ah i) (vpr r3 bh i) i) r3"
  have run: "vu_run [vu_inst 0x04 x al bl, vu_inst 0x0D x ah bl, vu_inst 0x0E x al bh, vu_inst 0x0F x ah bh] r = Inr r4"
    using b by (simp add: vu_run_def vu_step r1_def r2_def r3_def r4_def)
  have v: "vpr r1 y = vpr r y" "vpr r2 y = vpr r y" "vpr r3 y = vpr r y" if "y \<noteq> x" for y
    using that by (simp_all add: r1_def r2_def r3_def mul_keeps_vpr)
  have "acc_get i r4 = lane32 ah al i r * lane32 bh bl i r div 2 ^ 16" if i: "i < 8" for i
  proof -
    have "acc_get i r4 = sx48 (push_bit 16 (sint (vpr r ah i) * sint (vpr r bh i)) +
        (uint (vpr r al i) * sint (vpr r bh i) + (sint (vpr r ah i) * uint (vpr r bl i) +
        drop_bit 16 (uint (vpr r al i) * uint (vpr r bl i)))))"
    proof -
      have "acc_get i r1 = sx48 (drop_bit 16 (uint (vpr r al i) * uint (vpr r bl i)))"
        using i by (simp add: r1_def mudl.view_loop)
      moreover have "acc_get i r2 = sx48 (sint (vpr r ah i) * uint (vpr r bl i) + acc_get i r1)"
        using i ne v(1) by (simp add: r2_def mudm.view_loop)
      moreover have "acc_get i r3 = sx48 (uint (vpr r al i) * sint (vpr r bh i) + acc_get i r2)"
        using i ne v(2) by (simp add: r3_def mudn.view_loop)
      moreover have "acc_get i r4 = sx48 (push_bit 16 (sint (vpr r ah i) * sint (vpr r bh i)) + acc_get i r3)"
        using i ne v(3) by (simp add: r4_def mudh.view_loop)
      ultimately show ?thesis by simp
    qed
    also have "\<dots> = sx48 (lane32 ah al i r * lane32 bh bl i r div 2 ^ 16)"
      unfolding lane32_def product_parts [symmetric]
      by (simp add: push_bit_eq_mult drop_bit_eq_div algebra_simps)
    also have "\<dots> = lane32 ah al i r * lane32 bh bl i r div 2 ^ 16"
      unfolding lane32_def by (rule product48) (rule half_bounds)+
    finally show ?thesis .
  qed
  then show ?thesis unfolding run by simp
qed

section \<open>Additions with carry\<close>

definition sum_view :: "u32 \<Rightarrow> nat \<Rightarrow> rsp_regs \<Rightarrow> u16 \<times> bool" where
  "sum_view vd j r = (vpr r vd j, bit (vco r) j)"

lemma vaddc_view:
  "i < 8 \<Longrightarrow> j < 8 \<Longrightarrow> sum_view vd j (lane_vaddc vd s t i r) =
     (if j = i then (s + t, 2 ^ 16 \<le> uint s + uint t) else sum_view vd j r)"
proof -
  assume ij: "i < 8" "j < 8"
  have b: "(v AND 0x10000 \<noteq> 0) = bit v 16" for v :: u32
    using and_exp_eq_0_iff_not_bit [of v 16] by simp
  have u: "uint ((ucast s + ucast t) :: u32) = uint s + uint t"
    using uint_lt2p [of s] uint_lt2p [of t]
    by (simp add: uint_word_ariths unsigned_ucast_eq take_bit_int_eq_self)
  have c: "bit ((ucast s + ucast t) :: u32) 16 \<longleftrightarrow> 2 ^ 16 \<le> uint s + uint t"
  proof -
    have "bit ((ucast s + ucast t) :: u32) 16 \<longleftrightarrow> bit (uint ((ucast s + ucast t) :: u32)) 16"
      by (simp add: bit_uint_iff)
    then have "bit ((ucast s + ucast t) :: u32) 16 \<longleftrightarrow> odd ((uint s + uint t) div 2 ^ 16)"
      by (simp only: u bit_iff_odd)
    moreover have "(uint s + uint t) div 2 ^ 16 = (if 2 ^ 16 \<le> uint s + uint t then 1 else 0)"
    proof -
      have "x div 2 ^ 16 = (if 2 ^ 16 \<le> x then 1 else 0)" if "0 \<le> x" "x < 131072" for x :: int
        using that div_pos_pos_trivial [of x 65536] div_pos_pos_trivial [of "x - 65536" 65536]
          div_add_self2 [of 65536 "x - 65536"] by (cases "x < 65536") simp_all
      moreover have "uint s + uint t < 131072" "0 \<le> uint s + uint t"
        using uint_lt2p [of s] uint_lt2p [of t] by simp_all
      ultimately show ?thesis by blast
    qed
    ultimately show ?thesis by auto
  qed
  have d: "ucast ((ucast s + ucast t) :: u32) = s + t"
    by (simp add: word_uint_eq_iff unsigned_ucast_eq u uint_word_ariths take_bit_eq_mod mod_mod_cancel mod_simps)
  show ?thesis
    using ij by (auto simp: sum_view_def lane_vaddc_def Let_def set_vco_bit_def put_lane_def vr_set_lane_def
        set_acc_l_def b c d)
qed

interpretation vaddc: lane_loop "sum_view vd" "\<lambda>i. lane_vaddc vd (ss i) (tt i) i"
    "\<lambda>i p. (ss i + tt i, 2 ^ 16 \<le> uint (ss i) + uint (tt i))"
  for vd ss tt
  by unfold_locales (simp add: vaddc_view)

interpretation vadd: lane_loop "sum_view vd" "\<lambda>i. lane_vadd vd (ss i) (tt i) i"
    "\<lambda>i p. (clamp_signed (sint (ss i) + sint (tt i) + of_bool (snd p)), snd p)"
  for vd ss tt
  by unfold_locales
    (auto simp: sum_view_def lane_vadd_def Let_def put_lane_def vr_set_lane_def set_acc_l_def)

lemma add_keeps_vpr:
  assumes "y \<noteq> vd"
  shows "vpr (for_lanes (\<lambda>i. lane_vaddc vd (ss i) (tt i) i) r) y = vpr r y"
    "vpr (for_lanes (\<lambda>i. lane_vadd vd (ss i) (tt i) i) r) y = vpr r y"
  using assms
  by (intro for_lanes_frame [where P = "\<lambda>r. vpr r y"];
      simp add: lane_vaddc_def lane_vadd_def Let_def set_vco_bit_def set_acc_l_def vpr_put_lane)+

lemma sint_clamp: "sint (clamp_signed k) = (if k > 32767 then 32767 else if k < - 32768 then - 32768 else k)"
  by (simp add: clamp_signed_def sint_sbintrunc' signed_take_bit_int_eq_self)

lemma add_halves:
  fixes a b c d :: u16
  defines "k \<equiv> sint a + sint b + of_bool (2 ^ 16 \<le> uint c + uint d)"
  shows "k * 2 ^ 16 + uint (c + d) = (sint a * 2 ^ 16 + uint c) + (sint b * 2 ^ 16 + uint d)"
proof -
  have "uint (c + d) = uint c + uint d - (if 2 ^ 16 \<le> uint c + uint d then 2 ^ 16 else 0)"
    by (simp add: uint_plus_if')
  then show ?thesis by (simp add: k_def)
qed

lemma sat_cases:
  fixes k u m :: int
  assumes "k * 2 ^ 16 + u = m" "0 \<le> u" "u < 65536"
  shows "32767 < k \<Longrightarrow> 2 ^ 31 \<le> m" "k < - 32768 \<Longrightarrow> m < - (2 ^ 31)"
    "- 32768 \<le> k \<Longrightarrow> - (2 ^ 31) \<le> m" "k \<le> 32767 \<Longrightarrow> m < 2 ^ 31"
  using assms by simp_all

text \<open>C35: VADDC on the lower halves followed by VADD on the upper halves adds 32-bit values in every
  lane: the result is exact when it fits 32 bits, and its upper half saturates when it does not.\<close>

theorem vu_double_add:
  assumes "set [xh, xl, ah, al, bh, bl] \<subseteq> {..<32}" and "xl \<notin> {xh, ah, bh}"
  shows "\<exists>r'. vu_run [vu_inst 0x14 xl al bl, vu_inst 0x10 xh ah bh] r = Inr r' \<and>
    list_all (\<lambda>i. let k = lane32 ah al i r + lane32 bh bl i r
      in if k \<ge> 2 ^ 31 then vpr r' xh i = 0x7FFF else if k < - (2 ^ 31) then vpr r' xh i = 0x8000
         else lane32 xh xl i r' = k) [0..<8]"
proof -
  note b = assms [simplified]
  then have ne: "ah \<noteq> xl" "bh \<noteq> xl" "xl \<noteq> xh" by auto
  define r1 where "r1 = for_lanes (\<lambda>i. lane_vaddc xl (vpr r al i) (vpr r bl i) i) r"
  define r2 where "r2 = for_lanes (\<lambda>i. lane_vadd xh (vpr r1 ah i) (vpr r1 bh i) i) r1"
  have run: "vu_run [vu_inst 0x14 xl al bl, vu_inst 0x10 xh ah bh] r = Inr (r2\<lparr>vco := 0\<rparr>)"
    using b by (simp add: vu_run_def vu_step r1_def r2_def)
  have lanes: "let k = lane32 ah al i r + lane32 bh bl i r
      in if k \<ge> 2 ^ 31 then vpr (r2\<lparr>vco := 0\<rparr>) xh i = 0x7FFF
         else if k < - (2 ^ 31) then vpr (r2\<lparr>vco := 0\<rparr>) xh i = 0x8000
         else lane32 xh xl i (r2\<lparr>vco := 0\<rparr>) = k" if i: "i < 8" for i
  proof -
    let ?c = "2 ^ 16 \<le> uint (vpr r al i) + uint (vpr r bl i)"
    let ?k = "sint (vpr r ah i) + sint (vpr r bh i) + of_bool ?c"
    have "sum_view xl i r1 = (vpr r al i + vpr r bl i, ?c)"
      using i by (simp add: r1_def vaddc.view_loop)
    then have l1: "vpr r1 xl i = vpr r al i + vpr r bl i" "bit (vco r1) i = ?c" by (simp_all add: sum_view_def)
    have "sum_view xh i r2 = (clamp_signed (sint (vpr r1 ah i) + sint (vpr r1 bh i) + of_bool (bit (vco r1) i)), bit (vco r1) i)"
      using i by (simp add: r2_def vadd.view_loop) (simp add: sum_view_def)
    moreover have "vpr r1 ah = vpr r ah" "vpr r1 bh = vpr r bh" using ne by (simp_all add: r1_def add_keeps_vpr)
    ultimately have h: "vpr r2 xh i = clamp_signed ?k" unfolding l1 by (simp add: sum_view_def)
    have l: "vpr r2 xl i = vpr r al i + vpr r bl i" using ne l1 by (simp add: r2_def add_keeps_vpr)
    have k: "?k * 2 ^ 16 + uint (vpr r al i + vpr r bl i) = lane32 ah al i r + lane32 bh bl i r"
      unfolding lane32_def by (rule add_halves)
    have u: "0 \<le> uint (vpr r al i + vpr r bl i)" "uint (vpr r al i + vpr r bl i) < 65536"
      using uint_lt2p [of "vpr r al i + vpr r bl i"] by simp_all
    consider "?k > 32767" | "?k < - 32768" | "- 32768 \<le> ?k" "?k \<le> 32767" by linarith
    then show ?thesis
    proof cases
      case 1
      then have "lane32 ah al i r + lane32 bh bl i r \<ge> 2 ^ 31" by (rule sat_cases(1) [OF k u])
      with 1 show ?thesis by (simp add: h clamp_signed_def)
    next
      case 2
      then have "lane32 ah al i r + lane32 bh bl i r < - (2 ^ 31)" by (rule sat_cases(2) [OF k u])
      moreover have "word_of_int (- 32768) = (0x8000 :: u16)" by simp
      ultimately show ?thesis using 2 by (simp add: h clamp_signed_def)
    next
      case 3
      then have "- (2 ^ 31) \<le> lane32 ah al i r + lane32 bh bl i r" "lane32 ah al i r + lane32 bh bl i r < 2 ^ 31"
        using sat_cases(3,4) [OF k u] by blast+
      moreover have "sint (vpr r2 xh i) = ?k" unfolding h sint_clamp using 3 by simp
      moreover have "lane32 xh xl i (r2\<lparr>vco := 0\<rparr>) = sint (vpr r2 xh i) * 2 ^ 16 + uint (vpr r2 xl i)"
        by (simp add: lane32_def)
      ultimately show ?thesis unfolding l Let_def using k by simp
    qed
  qed
  show ?thesis unfolding run list_all_iff set_upt
    by (rule exI [of _ "r2\<lparr>vco := 0\<rparr>"], rule conjI [OF refl], rule ballI, rule lanes, simp)
qed

end
