(* ===== verification/Dpc.thy ===== *)
theory Dpc
  imports Rsp_Regs
begin

text \<open>
  The command interface of the display processor (\<open>src/rcp/dpc.cpp\<close>): its registers, and the parser
  that cuts the words of a display list into commands. The words of a command whose end has not been
  submitted yet wait in \<open>g_dpc_cmd_buf\<close>; the model keeps these words (\<open>dpc_cmd_buf\<close>), and
  \<open>g_dpc_leftover_words\<close> is their number. The rest of the buffer is rewritten before it is read.
\<close>

section \<open>State\<close>

record dpc_regs =
  dpc_start :: u32
  dpc_end :: u32
  dpc_current :: u32
  dpc_status :: u32
  dpc_clock :: u32
  dpc_tmem :: u32
  dpc_cmd_buf :: "u32 list"

record dpc_state = rsp_state +
  dpc :: dpc_regs

abbreviation (input) "DPC_XBUS \<equiv> 0 :: nat"
abbreviation (input) "DPC_FREEZE \<equiv> 1 :: nat"
abbreviation (input) "DPC_FLUSH \<equiv> 2 :: nat"
abbreviation (input) "DPC_START_GCLK \<equiv> 3 :: nat"
abbreviation (input) "DPC_PIPE_BUSY \<equiv> 5 :: nat"
abbreviation (input) "DPC_CMD_BUSY \<equiv> 6 :: nat"
abbreviation (input) "DPC_CBUF_READY \<equiv> 7 :: nat"
abbreviation (input) "DPC_START_VALID \<equiv> 10 :: nat"

definition COMMAND_LENGTHS :: "nat list" where
  "COMMAND_LENGTHS =
    [2, 2, 2, 2, 2, 2, 2, 2, 8, 12, 24, 28, 24, 28, 40, 44, 2, 2, 2, 2, 2, 2,
     2, 2, 2, 2, 2, 2, 2, 2, 2, 2, 2, 2, 2, 2, 4, 4, 2, 2, 2, 2, 2, 2,
     2, 2, 2, 2, 2, 2, 2, 2, 2, 2, 2, 2, 2, 2, 2, 2, 2, 2, 2, 2]"

abbreviation (input) "RDP_COMMAND_FULL_SYNC \<equiv> 0x29 :: u32"
abbreviation (input) "RDP_COMMAND_BUFFER_SIZE \<equiv> 0x100000 :: nat"

definition map_dpc :: "(dpc_regs \<Rightarrow> dpc_regs) \<Rightarrow> 'a dpc_state_scheme \<Rightarrow> 'a dpc_state_scheme" where
  "map_dpc f s = s\<lparr>dpc := f (dpc s)\<rparr>"

definition dpc_flag :: "nat \<Rightarrow> bool \<Rightarrow> 'a dpc_state_scheme \<Rightarrow> 'a dpc_state_scheme" where
  "dpc_flag i b = map_dpc (\<lambda>r. r\<lparr>dpc_status := put_bit i b (dpc_status r)\<rparr>)"

definition dpc_reset :: "'a dpc_state_scheme \<Rightarrow> 'a dpc_state_scheme" where
  "dpc_reset = map_dpc (\<lambda>_. \<lparr>dpc_start = 0, dpc_end = 0, dpc_current = 0, dpc_status = 0,
     dpc_clock = 0, dpc_tmem = 0, dpc_cmd_buf = []\<rparr>)"

definition dpc_read_paddr32 :: "u32 \<Rightarrow> dpc_regs \<Rightarrow> u32 res" where
  "dpc_read_paddr32 paddr r =
     (if paddr = 0x04100000 then ok (dpc_start r)
      else if paddr = 0x04100004 then ok (dpc_end r)
      else if paddr = 0x04100008 then ok (dpc_current r)
      else if paddr = 0x0410000C then ok (dpc_status r)
      else if paddr = 0x04100010 then ok (dpc_clock r)
      else if paddr = 0x04100014 then ok (bf_get DPC_CMD_BUSY 1 (dpc_status r))
      else if paddr = 0x04100018 then ok (bf_get DPC_PIPE_BUSY 1 (dpc_status r))
      else if paddr = 0x0410001C then ok (dpc_tmem r)
      else Inl Aborted)"

section \<open>The command list\<close>

definition command_of :: "u32 \<Rightarrow> u32" where
  "command_of w = drop_bit 24 w AND 0x3F"

definition command_length :: "u32 \<Rightarrow> nat" where
  "command_length w = COMMAND_LENGTHS ! unat (command_of w)"

text \<open>What one complete command at the head of \<open>ws\<close> does.\<close>

definition run_one_command :: "u32 list \<Rightarrow> 'a dpc_state_scheme \<Rightarrow> 'a dpc_state_scheme" where
  "run_one_command ws s =
     (let command = command_of (hd ws);
          s1 = (if command \<ge> 8 then enqueue_command (command_length (hd ws)) ws s else s)
      in if command = RDP_COMMAND_FULL_SYNC then
           raise_intr INTR_DP (dpc_flag DPC_CBUF_READY False (dpc_flag DPC_START_GCLK False
             (dpc_flag DPC_PIPE_BUSY False (on_full_sync s1))))
         else s1)"

text \<open>The \<open>while\<close> loop over the buffer: the words that are left, and the state.\<close>

lemma set_COMMAND_LENGTHS: "set COMMAND_LENGTHS = {2, 4, 8, 12, 24, 28, 40, 44}"
  by (simp add: COMMAND_LENGTHS_def) blast

lemma command_length_pos: "2 \<le> command_length w"
proof -
  have "command_of w \<le> 0x3F" unfolding command_of_def by (rule word_and_le1)
  then have "unat (command_of w) < length COMMAND_LENGTHS"
    by (simp add: word_le_nat_alt COMMAND_LENGTHS_def)
  then have "command_length w \<in> set COMMAND_LENGTHS" by (simp add: command_length_def)
  then show ?thesis unfolding set_COMMAND_LENGTHS by auto
qed

function run_commands :: "u32 list \<Rightarrow> 'a dpc_state_scheme \<Rightarrow> u32 list \<times> 'a dpc_state_scheme" where
  "run_commands ws s =
     (if ws = [] then ([], s)
      else if command_length (hd ws) > length ws then (ws, s)
      else run_commands (drop (command_length (hd ws)) ws) (run_one_command ws s))"
  by pat_completeness auto
termination
proof (relation "measure (length \<circ> fst)")
  fix ws :: "u32 list" and s :: "'a dpc_state_scheme"
  assume "ws \<noteq> []"
  moreover have "0 < command_length (hd ws)" using command_length_pos [of "hd ws"] by simp
  ultimately show "((drop (command_length (hd ws)) ws, run_one_command ws s), ws, s) \<in> measure (length \<circ> fst)"
    by (cases ws) simp_all
qed simp

declare run_commands.simps [simp del]

fun read_words :: "(u32 \<Rightarrow> u32 res) \<Rightarrow> nat \<Rightarrow> u32 \<Rightarrow> u32 list res" where
  "read_words rd 0 a = ok []"
| "read_words rd (Suc n) a =
     bindR (rd a) (\<lambda>w. bindR (read_words rd n (a + 4)) (\<lambda>ws. ok (w # ws)))"

text \<open>Where the words of a list come from: DMEM, or RDRAM.\<close>

definition dpc_reader :: "'a dpc_state_scheme \<Rightarrow> u32 \<Rightarrow> u32 res" where
  "dpc_reader s =
     (if bit (dpc_status (dpc s)) DPC_XBUS
      then (\<lambda>a. read_from_byte_array32_be (sp_dmem (rsp s)) (a AND 0xFFF))
      else read_from_byte_array32 (rdram (mem s)))"

definition process_list :: "'a dpc_state_scheme \<Rightarrow> 'a dpc_state_scheme res" where
  "process_list s0 =
     (let s = dpc_flag DPC_FREEZE True s0;
          cur = dpc_current (dpc s) AND 0x00FFFFF8; en = dpc_end (dpc s) AND 0x00FFFFF8;
          display_list_length = en - cur; n = unat (display_list_length) div 4;
          leftover = dpc_cmd_buf (dpc s)
      in if en \<le> cur then ok (dpc_flag DPC_FREEZE False s)
         else if n + length leftover > RDP_COMMAND_BUFFER_SIZE then
           ok (dpc_flag DPC_FREEZE False (map_dpc (\<lambda>r. r\<lparr>dpc_cmd_buf := []\<rparr>) s))
         else if \<not> bit (dpc_status (dpc s)) DPC_XBUS \<and> (en > 0x7FFFFFF \<or> cur > 0x7FFFFFF) then
           ok (dpc_flag DPC_FREEZE False s)
         else
           (let s1 = (if bit (dpc_status (dpc s)) DPC_XBUS then s
                      else check_framebuffers cur display_list_length s)
            in bindR (read_words (dpc_reader s) n cur) (\<lambda>words.
                 case run_commands (leftover @ words) s1 of (rest, s2) \<Rightarrow>
                   ok (dpc_flag DPC_FREEZE False (map_dpc (\<lambda>r. r\<lparr>dpc_cmd_buf := rest,
                         dpc_current := en, dpc_end := en\<rparr>) s2)))))"

definition run_command :: "'a dpc_state_scheme \<Rightarrow> 'a dpc_state_scheme res" where
  "run_command s =
     (if bit (dpc_status (dpc s)) DPC_FREEZE then ok s
      else let s1 = dpc_flag DPC_START_GCLK True (dpc_flag DPC_PIPE_BUSY True s)
           in bindR (if dpc_end (dpc s1) > dpc_current (dpc s1) then process_list s1 else ok s1)
                (\<lambda>s2. ok (dpc_flag DPC_CBUF_READY True s2)))"

section \<open>Register writes\<close>

text \<open>A pair of clear and set bits; both together leave the flag alone.\<close>

definition dpc_clear_set :: "nat \<Rightarrow> u32 \<Rightarrow> u32 \<Rightarrow> u32 \<Rightarrow> 'a dpc_state_scheme \<Rightarrow> 'a dpc_state_scheme" where
  "dpc_clear_set i c t v s =
     (let s1 = (if v AND c \<noteq> 0 \<and> v AND t = 0 then dpc_flag i False s else s)
      in if v AND t \<noteq> 0 \<and> v AND c = 0 then dpc_flag i True s1 else s1)"

definition dpc_status_write :: "u32 \<Rightarrow> 'a dpc_state_scheme \<Rightarrow> 'a dpc_state_scheme res" where
  "dpc_status_write v s =
     (let s1 = dpc_clear_set DPC_XBUS 0x1 0x2 v s;
          unfrozen = (v AND 0x4 \<noteq> 0 \<and> v AND 0x8 = 0);
          s2 = dpc_clear_set DPC_FREEZE 0x4 0x8 v s1;
          s3 = dpc_clear_set DPC_FLUSH 0x10 0x20 v s2;
          s4 = (if v AND 0x40 \<noteq> 0 then map_dpc (\<lambda>r. r\<lparr>dpc_tmem := 0\<rparr>) s3 else s3);
          s5 = (if v AND 0x80 \<noteq> 0 then dpc_flag DPC_PIPE_BUSY False s4 else s4);
          s6 = (if v AND 0x100 \<noteq> 0 then dpc_flag DPC_CMD_BUSY False s5 else s5);
          s7 = (if v AND 0x200 \<noteq> 0 then map_dpc (\<lambda>r. r\<lparr>dpc_clock := 0\<rparr>) s6 else s6)
      in if unfrozen then run_command s7 else ok s7)"

definition dpc_write_start :: "u32 \<Rightarrow> 'a dpc_state_scheme \<Rightarrow> 'a dpc_state_scheme" where
  "dpc_write_start v s =
     dpc_flag DPC_START_VALID True
       (if bit (dpc_status (dpc s)) DPC_START_VALID then s
        else map_dpc (\<lambda>r. r\<lparr>dpc_start := v AND 0x00FFFFF8\<rparr>) s)"

definition dpc_write_end :: "u32 \<Rightarrow> 'a dpc_state_scheme \<Rightarrow> 'a dpc_state_scheme res" where
  "dpc_write_end v s =
     (let s1 = map_dpc (\<lambda>r. r\<lparr>dpc_end := v AND 0x00FFFFF8\<rparr>) s
      in run_command (if bit (dpc_status (dpc s1)) DPC_START_VALID
           then dpc_flag DPC_START_VALID False (map_dpc (\<lambda>r. r\<lparr>dpc_current := dpc_start r\<rparr>) s1)
           else s1))"

definition dpc_write_paddr32 :: "u32 \<Rightarrow> u32 \<Rightarrow> 'a dpc_state_scheme \<Rightarrow> 'a dpc_state_scheme res" where
  "dpc_write_paddr32 paddr v s =
     (if paddr = 0x04100000 then ok (dpc_write_start v s)
      else if paddr = 0x04100004 then dpc_write_end v s
      else if paddr = 0x04100008 then ok s
      else if paddr = 0x0410000C then dpc_status_write v s
      else if paddr = 0x04100010 \<or> paddr = 0x04100014 \<or> paddr = 0x04100018 \<or> paddr = 0x0410001C then ok s
      else Inl Aborted)"

section \<open>The parser as a splitter of the word stream\<close>

text \<open>The complete commands of a word sequence, and the words that are left.\<close>

function split_commands :: "u32 list \<Rightarrow> u32 list list \<times> u32 list" where
  "split_commands ws =
     (if ws = [] then ([], [])
      else if command_length (hd ws) > length ws then ([], ws)
      else case split_commands (drop (command_length (hd ws)) ws) of
        (cs, rest) \<Rightarrow> (take (command_length (hd ws)) ws # cs, rest))"
  by pat_completeness auto
termination
proof (relation "measure length")
  fix ws :: "u32 list"
  assume "ws \<noteq> []"
  moreover have "0 < command_length (hd ws)" using command_length_pos [of "hd ws"] by simp
  ultimately show "(drop (command_length (hd ws)) ws, ws) \<in> measure length" by (cases ws) simp_all
qed simp

declare split_commands.simps [simp del]

lemma split_Nil [simp]: "split_commands [] = ([], [])"
  by (simp add: split_commands.simps [of "[]"])

lemma split_append:
  "split_commands (xs @ ys) =
     (case split_commands xs of (cs, rest) \<Rightarrow>
        case split_commands (rest @ ys) of (ds, rest') \<Rightarrow> (cs @ ds, rest'))"
proof (induction xs rule: split_commands.induct)
  case (1 xs)
  let ?n = "command_length (hd xs)"
  show ?case
  proof (cases "xs = [] \<or> ?n > length xs")
    case True
    then show ?thesis by (auto simp: split_commands.simps [of xs])
  next
    case False
    then have "split_commands xs = (case split_commands (drop ?n xs) of (cs, rest) \<Rightarrow> (take ?n xs # cs, rest))"
      and "split_commands (xs @ ys) =
        (case split_commands (drop ?n xs @ ys) of (cs, rest) \<Rightarrow> (take ?n xs # cs, rest))"
      by (simp_all add: split_commands.simps [of xs] split_commands.simps [of "xs @ ys"])
    with 1 False show ?thesis by (auto split: prod.splits)
  qed
qed

lemma split_rest_length: "length (snd (split_commands ws)) \<le> length ws"
proof (induction ws rule: split_commands.induct)
  case (1 ws)
  then show ?case
    by (cases "ws = [] \<or> command_length (hd ws) > length ws")
      (auto simp: split_commands.simps [of ws] split: prod.splits)
qed

lemma hd_take_command: "ws \<noteq> [] \<Longrightarrow> hd (take (command_length (hd ws)) ws) = hd ws"
  using command_length_pos [of "hd ws"] by (cases ws) (auto simp: take_Cons split: nat.splits)

text \<open>The parser looks only at the words of the command it runs.\<close>

lemma track_command_take: "2 \<le> n \<Longrightarrow> track_command (take n ws) = track_command ws"
  by (rule ext) (simp add: track_command_def)

lemma run_one_take:
  assumes "ws \<noteq> []"
  shows "run_one_command (take (command_length (hd ws)) ws) s = run_one_command ws s"
proof -
  note t = track_command_take [OF command_length_pos [of "hd ws"]]
  show ?thesis unfolding run_one_command_def hd_take_command [OF assms] enqueue_command_def t
    by (simp only: take_take min.idem)
qed

lemma run_commands_split:
  "run_commands ws s = (snd (split_commands ws), fold run_one_command (fst (split_commands ws)) s)"
proof (induction ws s rule: run_commands.induct)
  case (1 ws s)
  then show ?case
    by (cases "ws = [] \<or> command_length (hd ws) > length ws")
      (auto simp: run_commands.simps [of ws] split_commands.simps [of ws] run_one_take split: prod.splits)
qed

section \<open>What the rest of the machine sees\<close>

text \<open>What reached the device (waits apart), whether there is one, the interrupt, the words kept.\<close>

definition submitted :: "rdp_regs \<Rightarrow> cp_call list" where
  "submitted r = filter (\<lambda>c. case c of Cp_wait t \<Rightarrow> False | _ \<Rightarrow> True) (cp_log r)"

type_synonym dpc_view = "cp_call list \<times> bool \<times> bool \<times> u32 list"

definition dpc_abs :: "'a dpc_state_scheme \<Rightarrow> dpc_view" where
  "dpc_abs s = (submitted (rdp s), cp_ready (rdp s), pending s INTR_DP, dpc_cmd_buf (dpc s))"

text \<open>The reference: a stream of words is cut into commands; those from 8 on go to the device.\<close>

definition handed_over :: "u32 list \<Rightarrow> cp_call list" where
  "handed_over c = (if command_of (hd c) \<ge> 8 then [Cp_enqueue c] else []) @
     (if command_of (hd c) = RDP_COMMAND_FULL_SYNC then [Cp_signal] else [])"

fun absorb :: "u32 list \<Rightarrow> dpc_view \<Rightarrow> dpc_view" where
  "absorb ws (log, ready, irq, buf) =
     (case split_commands (buf @ ws) of (cs, rest) \<Rightarrow>
        (log @ (if ready then concat (map handed_over cs) else []), ready,
         irq \<or> (\<exists>c \<in> set cs. command_of (hd c) = RDP_COMMAND_FULL_SYNC), rest))"

lemma absorb_append: "absorb (xs @ ys) v = absorb ys (absorb xs v)"
proof (cases v)
  case (fields log ready irq buf)
  then show ?thesis using split_append [of "buf @ xs" ys] by (auto split: prod.splits)
qed

text \<open>What the commands of a list leave alone.\<close>

definition parser_view where
  "parser_view s = (mem s, rsp s, dpc_start (dpc s), bit (dpc_status (dpc s)) DPC_XBUS,
     bit (dpc_status (dpc s)) DPC_START_VALID)"

definition list_view where
  "list_view s = (dpc_cmd_buf (dpc s), dpc_current (dpc s), dpc_end (dpc s),
     bit (dpc_status (dpc s)) DPC_FREEZE)"

lemma dpc_flag_simps [simp]:
  "rdp (dpc_flag i b s) = rdp s" "mem (dpc_flag i b s) = mem s" "rsp (dpc_flag i b s) = rsp s"
  "mi (dpc_flag i b s) = mi s" "pending (dpc_flag i b s) j = pending s j"
  "dpc (dpc_flag i b s) = (dpc s)\<lparr>dpc_status := put_bit i b (dpc_status (dpc s))\<rparr>"
  by (simp_all add: dpc_flag_def map_dpc_def pending_def)

lemma map_dpc_simps [simp]:
  "rdp (map_dpc f s) = rdp s" "mem (map_dpc f s) = mem s" "rsp (map_dpc f s) = rsp s"
  "pending (map_dpc f s) j = pending s j" "dpc (map_dpc f s) = f (dpc s)"
  by (simp_all add: map_dpc_def pending_def)

lemma raise_intr_dpc [simp]:
  "rdp (raise_intr i s) = rdp s" "mem (raise_intr i s) = mem s" "rsp (raise_intr i s) = rsp s"
  "dpc (raise_intr i s) = dpc s" for s :: "'a dpc_state_scheme"
  by (simp_all add: raise_intr_def check_interrupt_def set_cause_def set_mi_intr_def)

lemma map_rdp_dpc [simp]:
  "mem (map_rdp f s) = mem s" "rsp (map_rdp f s) = rsp s" "dpc (map_rdp f s) = dpc s"
  "pending (map_rdp f s) i = pending s i" "rdp (map_rdp f s) = f (rdp s)" for s :: "'a dpc_state_scheme"
  by (simp_all add: map_rdp_def pending_def)

lemma bit_put [simp]: "i < 32 \<Longrightarrow> bit (put_bit i b (x :: u32)) j = (if j = i then b else bit x j)"
  by (auto simp: bit_put_bit dest: bit_imp_le_length)

lemma run_one_frame:
  "parser_view (run_one_command ws s) = parser_view s \<and> list_view (run_one_command ws s) = list_view s"
  by (simp add: run_one_command_def Let_def enqueue_command_def on_full_sync_def parser_view_def list_view_def)

lemma mark_log [simp]:
  "cp_log (mark_dirty_range a l r) = cp_log r" "cp (mark_dirty_range a l r) = cp r"
  by (simp_all add: mark_dirty_range_def Let_def)

lemma mark_color_log [simp]:
  "cp_log (mark_color_depth_dirty r) = cp_log r" "cp (mark_color_depth_dirty r) = cp r"
  by (simp_all add: mark_color_depth_dirty_def Let_def)

lemma track_command_log [simp]: "cp_log (track_command ws r) = cp_log r" "cp (track_command ws r) = cp r"
  by (simp_all add: track_command_def Let_def)

lemma run_one_abs:
  assumes "length ws = command_length (hd ws)"
  shows "submitted (rdp (run_one_command ws s)) =
       submitted (rdp s) @ (if cp_ready (rdp s) then handed_over ws else []) \<and>
     cp_ready (rdp (run_one_command ws s)) = cp_ready (rdp s) \<and>
     pending (run_one_command ws s) INTR_DP =
       (pending s INTR_DP \<or> command_of (hd ws) = RDP_COMMAND_FULL_SYNC)"
proof -
  have n: "2 \<le> command_length (hd ws)" by (rule command_length_pos)
  have enq: "submitted (rdp (enqueue_command (command_length (hd ws)) ws s)) =
      submitted (rdp s) @ (if cp_ready (rdp s) then [Cp_enqueue ws] else []) \<and>
    cp_ready (rdp (enqueue_command (command_length (hd ws)) ws s)) = cp_ready (rdp s)"
    using assms n by (simp add: enqueue_command_def submitted_def cp_call_def cp_ready_def)
  have syn: "submitted (rdp (on_full_sync t)) = submitted (rdp t) @ (if cp_ready (rdp t) then [Cp_signal] else [])"
    "cp_ready (rdp (on_full_sync t)) = cp_ready (rdp t)" for t :: "'a dpc_state_scheme"
    by (simp_all add: on_full_sync_def submitted_def cp_call_def cp_ready_def)
  have p: "pending (enqueue_command k ws s) i = pending s i" "pending (on_full_sync t) i = pending t i"
    for t :: "'a dpc_state_scheme" and k i
    by (simp_all add: enqueue_command_def on_full_sync_def)
  show ?thesis
    by (simp add: run_one_command_def Let_def handed_over_def enq syn p mi_ctl.pend_raise)
qed

lemma split_lengths: "list_all (\<lambda>c. length c = command_length (hd c)) (fst (split_commands ws))"
proof (induction ws rule: split_commands.induct)
  case (1 ws)
  then show ?case
    by (cases "ws = [] \<or> command_length (hd ws) > length ws")
      (auto simp: split_commands.simps [of ws] hd_take_command split: prod.splits)
qed

lemma fold_commands:
  "list_all (\<lambda>c. length c = command_length (hd c)) cs \<Longrightarrow>
   parser_view (fold run_one_command cs s) = parser_view s \<and>
   list_view (fold run_one_command cs s) = list_view s \<and>
   submitted (rdp (fold run_one_command cs s)) =
     submitted (rdp s) @ (if cp_ready (rdp s) then concat (map handed_over cs) else []) \<and>
   cp_ready (rdp (fold run_one_command cs s)) = cp_ready (rdp s) \<and>
   pending (fold run_one_command cs s) INTR_DP =
     (pending s INTR_DP \<or> (\<exists>c \<in> set cs. command_of (hd c) = RDP_COMMAND_FULL_SYNC))"
proof (induction cs arbitrary: s)
  case (Cons c cs)
  then show ?case using run_one_frame [of c s] run_one_abs [of c s] by simp
qed simp

lemma check_framebuffers_view [simp]:
  "parser_view (check_framebuffers a l s) = parser_view s"
  "list_view (check_framebuffers a l s) = list_view s"
  "submitted (rdp (check_framebuffers a l s)) = submitted (rdp s)"
  "cp_ready (rdp (check_framebuffers a l s)) = cp_ready (rdp s)"
  "pending (check_framebuffers a l s) i = pending s i" for s :: "'a dpc_state_scheme"
  by (simp_all add: check_framebuffers_def parser_view_def list_view_def check_framebuffers_core_def
      submitted_def cp_ready_def cp_call_def flush_pending_sync_def Let_def)

text \<open>A reader is determined by what the commands leave alone.\<close>

lemma dpc_reader_cong: "parser_view s = parser_view t \<Longrightarrow> dpc_reader s = dpc_reader t"
  by (simp add: parser_view_def dpc_reader_def)

lemma read_words_length: "read_words rd n a = Inr ws \<Longrightarrow> length ws = n"
  by (induction n arbitrary: a ws) (auto simp: bindR_eq_Inr)

lemma masked_small: "x AND 0x00FFFFF8 = x \<Longrightarrow> \<not> 0x7FFFFFF < (x :: u32)"
proof -
  assume "x AND 0x00FFFFF8 = x"
  then have "x \<le> 0x00FFFFF8" using word_and_le1 [of x "0x00FFFFF8"] by metis
  then show ?thesis by (simp add: word_le_nat_alt word_less_nat_alt)
qed

lemma run_command_list:
  assumes "\<not> bit (dpc_status (dpc s)) DPC_FREEZE"
    and cur: "dpc_current (dpc s) = cur" "cur AND 0x00FFFFF8 = cur"
    and en: "dpc_end (dpc s) = en" "en AND 0x00FFFFF8 = en" and "cur < en"
    and rd: "read_words (dpc_reader s) (unat (en - cur) div 4) cur = Inr ws"
    and fits: "length (dpc_cmd_buf (dpc s)) + length ws \<le> RDP_COMMAND_BUFFER_SIZE"
  shows "\<exists>s'. run_command s = Inr s' \<and> dpc_abs s' = absorb ws (dpc_abs s) \<and>
    parser_view s' = parser_view s \<and> dpc_current (dpc s') = en \<and>
    \<not> bit (dpc_status (dpc s')) DPC_FREEZE"
proof -
  let ?s = "dpc_flag DPC_FREEZE True (dpc_flag DPC_START_GCLK True (dpc_flag DPC_PIPE_BUSY True s))"
  let ?t = "if bit (dpc_status (dpc s)) DPC_XBUS then ?s else check_framebuffers cur (en - cur) ?s"
  obtain cs rest where sp: "split_commands (dpc_cmd_buf (dpc s) @ ws) = (cs, rest)" by fastforce
  have n: "length ws = unat (en - cur) div 4" using rd by (rule read_words_length)
  note small = masked_small [OF en(2)] masked_small [OF cur(2)]
  have p: "parser_view ?s = parser_view s" by (simp add: parser_view_def)
  have v: "parser_view ?t = parser_view s" "list_view ?t = list_view ?s"
    "submitted (rdp ?t) = submitted (rdp s)" "cp_ready (rdp ?t) = cp_ready (rdp s)"
    "pending ?t i = pending s i" for i
    using p by simp_all
  let ?u = "fold run_one_command cs ?t"
  let ?r = "dpc_flag DPC_CBUF_READY True (dpc_flag DPC_FREEZE False
    (map_dpc (\<lambda>r. r\<lparr>dpc_cmd_buf := rest, dpc_current := en, dpc_end := en\<rparr>) ?u))"
  have rd': "dpc_reader ?s = dpc_reader s" by (rule dpc_reader_cong) (simp add: parser_view_def)
  have run: "run_command s = Inr ?r"
    using assms n small sp rd rd'
    by (simp add: run_command_def process_list_def Let_def run_commands_split)
  have l: "list_all (\<lambda>c. length c = command_length (hd c)) cs"
    using split_lengths [of "dpc_cmd_buf (dpc s) @ ws"] sp by simp
  note f = fold_commands [OF l, of ?t]
  have "dpc_abs ?r = absorb ws (dpc_abs s)" using f v sp by (simp add: dpc_abs_def)
  moreover have "parser_view ?r = parser_view ?u" by (simp add: parser_view_def)
  ultimately show ?thesis using run f v by auto
qed

section \<open>A display list submitted in pieces\<close>

text \<open>The words kept never hold a complete command.\<close>

definition leftover_ok :: "'a dpc_state_scheme \<Rightarrow> bool" where
  "leftover_ok s \<longleftrightarrow> split_commands (dpc_cmd_buf (dpc s)) = ([], dpc_cmd_buf (dpc s))"

fun write_ends :: "u32 list \<Rightarrow> 'a dpc_state_scheme \<Rightarrow> 'a dpc_state_scheme res" where
  "write_ends [] s = ok s"
| "write_ends (e # es) s = bindR (dpc_write_paddr32 0x04100004 e s) (write_ends es)"

lemma split_rest: "split_commands (snd (split_commands ws)) = ([], snd (split_commands ws))"
proof (induction ws rule: split_commands.induct)
  case (1 ws)
  then show ?case
    by (cases "ws = [] \<or> command_length (hd ws) > length ws")
      (auto simp: split_commands.simps [of ws] split: prod.splits)
qed

lemma absorb_leftover: "absorb ws v = (l, r, i, b) \<Longrightarrow> split_commands b = ([], b)"
proof -
  assume a: "absorb ws v = (l, r, i, b)"
  obtain log ready irq buf where v: "v = (log, ready, irq, buf)" by (rule prod_cases4)
  have "b = snd (split_commands (buf @ ws))" using a by (simp add: v case_prod_beta)
  then show ?thesis using split_rest [of "buf @ ws"] by simp
qed

lemma absorb_Nil: "leftover_ok s \<Longrightarrow> absorb [] (dpc_abs s) = dpc_abs s"
  by (simp add: leftover_ok_def dpc_abs_def)

lemma read_words_add:
  "read_words rd (n + m) a =
     bindR (read_words rd n a) (\<lambda>xs. bindR (read_words rd m (a + 4 * word_of_nat n)) (\<lambda>ys. ok (xs @ ys)))"
proof (induction n arbitrary: a)
  case (Suc n)
  then show ?case by (simp add: bindR_assoc add.assoc)
qed (simp add: bindR_def split: sum.splits)

lemma aligned8: "x AND 0x00FFFFF8 = x \<Longrightarrow> 8 dvd unat (x :: u32)"
proof -
  assume x: "x AND 0x00FFFFF8 = x"
  have "\<not> bit (0x00FFFFF8 :: u32) n" if "n < 3" for n
    using that by (auto simp: less_Suc_eq numeral_3_eq_3)
  then have "\<not> bit x n" if "n < 3" for n using that x by (metis bit_and_iff)
  then have "take_bit 3 x = 0" by (intro bit_word_eqI) (auto simp: bit_take_bit_iff)
  then have "take_bit 3 (unat x) = 0" by (simp flip: unsigned_take_bit_eq)
  then show ?thesis by (simp add: take_bit_eq_mod dvd_eq_mod_eq_0)
qed

lemma piece_words:
  fixes a b c :: u32
  assumes "a AND 0x00FFFFF8 = a" "b AND 0x00FFFFF8 = b" "a \<le> b" "b \<le> c"
  shows "unat (c - a) div 4 = unat (b - a) div 4 + unat (c - b) div 4"
    and "a + 4 * word_of_nat (unat (b - a) div 4) = b"
proof -
  have u: "unat (b - a) = unat b - unat a" "unat (c - b) = unat c - unat b" "unat (c - a) = unat c - unat a"
    using assms by (simp_all add: unat_sub word_le_nat_alt)
  have d: "4 dvd unat b - unat a"
  proof -
    have "(4 :: nat) dvd 8" by simp
    then show ?thesis using aligned8 [OF assms(1)] aligned8 [OF assms(2)] by (metis dvd_diff_nat dvd_trans)
  qed
  have le: "unat a \<le> unat b" "unat b \<le> unat c" using assms by (simp_all add: word_le_nat_alt)
  then have "unat c - unat a = (unat b - unat a) + (unat c - unat b)" by simp
  with d show "unat (c - a) div 4 = unat (b - a) div 4 + unat (c - b) div 4"
    unfolding u by (simp add: div_plus_div_distrib_dvd_left)
  have "4 * word_of_nat (unat (b - a) div 4) = (word_of_nat (unat (b - a)) :: u32)"
    using d u(1) by (metis dvd_mult_div_cancel of_nat_mult of_nat_numeral)
  then show "a + 4 * word_of_nat (unat (b - a) div 4) = b" by simp
qed

text \<open>An END write that submits nothing new.\<close>

lemma run_command_empty:
  assumes "\<not> bit (dpc_status (dpc s)) DPC_FREEZE" and "dpc_end (dpc s) = dpc_current (dpc s)"
  shows "\<exists>s'. run_command s = Inr s' \<and> dpc_abs s' = dpc_abs s \<and> parser_view s' = parser_view s \<and>
    dpc_current (dpc s') = dpc_current (dpc s) \<and> \<not> bit (dpc_status (dpc s')) DPC_FREEZE"
  using assms by (simp add: run_command_def Let_def dpc_abs_def parser_view_def)

definition dpc_ready :: "u32 \<Rightarrow> 'a dpc_state_scheme \<Rightarrow> bool" where
  "dpc_ready a s \<longleftrightarrow> \<not> bit (dpc_status (dpc s)) DPC_FREEZE \<and> \<not> bit (dpc_status (dpc s)) DPC_START_VALID \<and>
     dpc_current (dpc s) = a \<and> leftover_ok s"

lemma write_end_piece:
  assumes s: "dpc_ready a s" and al: "a AND 0x00FFFFF8 = a" "e AND 0x00FFFFF8 = e" and "a \<le> e"
    and rd: "read_words (dpc_reader s) (unat (e - a) div 4) a = Inr ws"
    and fits: "length (dpc_cmd_buf (dpc s)) + length ws \<le> RDP_COMMAND_BUFFER_SIZE"
  shows "\<exists>s'. dpc_write_paddr32 0x04100004 e s = Inr s' \<and> dpc_abs s' = absorb ws (dpc_abs s) \<and>
    parser_view s' = parser_view s \<and> dpc_ready e s'"
proof -
  let ?s = "map_dpc (\<lambda>r. r\<lparr>dpc_end := e\<rparr>) s"
  have w: "dpc_write_paddr32 0x04100004 e s = run_command ?s"
    using s al by (simp add: dpc_write_paddr32_def dpc_write_end_def dpc_ready_def Let_def)
  have eq: "dpc_abs ?s = dpc_abs s" "parser_view ?s = parser_view s"
    by (simp_all add: dpc_abs_def parser_view_def)
  have "\<exists>s'. run_command ?s = Inr s' \<and> dpc_abs s' = absorb ws (dpc_abs s) \<and>
    parser_view s' = parser_view s \<and> dpc_current (dpc s') = e \<and> \<not> bit (dpc_status (dpc s')) DPC_FREEZE"
  proof (cases "a = e")
    case True
    then have "ws = []" using rd by simp
    with True s show ?thesis using run_command_empty [of ?s] absorb_Nil [of s] eq by (simp add: dpc_ready_def)
  next
    case False
    with \<open>a \<le> e\<close> have "a < e" by simp
    moreover have "dpc_reader ?s = dpc_reader s" using eq(2) by (rule dpc_reader_cong)
    ultimately show ?thesis
      using run_command_list [of ?s a e ws] s al rd fits eq by (simp add: dpc_ready_def)
  qed
  then obtain s' where r: "run_command ?s = Inr s'" "dpc_abs s' = absorb ws (dpc_abs s)"
    "parser_view s' = parser_view s" "dpc_current (dpc s') = e" "\<not> bit (dpc_status (dpc s')) DPC_FREEZE"
    by blast
  have "leftover_ok s'" unfolding leftover_ok_def
    by (rule absorb_leftover) (rule r(2) [symmetric, unfolded dpc_abs_def [of s']])
  moreover have "\<not> bit (dpc_status (dpc s')) DPC_START_VALID"
    using r(3) s by (simp add: parser_view_def dpc_ready_def)
  ultimately show ?thesis using r by (simp add: w dpc_ready_def)
qed

text \<open>C5: A display list reaches the display processor the same however the writes of DPC\_END cut
  it: for any rising sequence of end addresses, with commands split anywhere between two of them, the
  device receives exactly the complete commands of the whole word stream in order (those from opcode
  8), the interrupt is raised if one is a full sync, and the words of an unfinished last command wait
  for the next write.\<close>

theorem display_list_cuts:
  assumes "dpc_ready a s" and "list_all (\<lambda>e. e AND 0x00FFFFF8 = e) (a # es)" and "sorted (a # es)"
    and "read_words (dpc_reader s) (unat (last (a # es) - a) div 4) a = Inr ws"
    and "length (dpc_cmd_buf (dpc s)) + length ws \<le> 0x100000"
  shows "\<exists>s'. write_ends es s = Inr s' \<and> dpc_abs s' = absorb ws (dpc_abs s) \<and>
    dpc_ready (last (a # es)) s'"
  using assms
proof (induction es arbitrary: a s ws)
  case Nil
  then show ?case by (simp add: dpc_ready_def absorb_Nil)
next
  case (Cons e es)
  let ?l = "last (e # es)"
  have le: "a \<le> e" "e \<le> ?l" using Cons.prems(3) by (auto simp: last_in_set)
  have al: "a AND 0x00FFFFF8 = a" "e AND 0x00FFFFF8 = e" using Cons.prems(2) by simp_all
  note p = piece_words [OF al le]
  obtain xs ys where rx: "read_words (dpc_reader s) (unat (e - a) div 4) a = Inr xs"
    and ry: "read_words (dpc_reader s) (unat (?l - e) div 4) e = Inr ys" and ws: "ws = xs @ ys"
  proof -
    have "read_words (dpc_reader s) (unat (?l - a) div 4) a = Inr ws" using Cons.prems(4) by simp
    then show thesis unfolding p(1) read_words_add p(2) bindR_eq_Inr using that by blast
  qed
  have "length (dpc_cmd_buf (dpc s)) + length xs \<le> 0x100000" using Cons.prems(5) ws by simp
  from write_end_piece [OF Cons.prems(1) al le(1) rx this]
  obtain s1 where s1: "dpc_write_paddr32 0x04100004 e s = Inr s1" "dpc_abs s1 = absorb xs (dpc_abs s)"
    "parser_view s1 = parser_view s" "dpc_ready e s1" by blast
  have "length (dpc_cmd_buf (dpc s1)) \<le> length (dpc_cmd_buf (dpc s)) + length xs"
    using s1(2) split_rest_length [of "dpc_cmd_buf (dpc s) @ xs"] by (simp add: dpc_abs_def case_prod_beta)
  then have fits: "length (dpc_cmd_buf (dpc s1)) + length ys \<le> 0x100000" using Cons.prems(5) ws by simp
  have ry1: "read_words (dpc_reader s1) (unat (?l - e) div 4) e = Inr ys"
    using ry dpc_reader_cong [OF s1(3)] by simp
  from Cons.IH [OF s1(4) _ _ ry1 fits] Cons.prems(2,3)
  obtain s2 where "write_ends es s1 = Inr s2" "dpc_abs s2 = absorb ys (dpc_abs s1)" "dpc_ready ?l s2"
    by auto
  then show ?case using s1 by (simp add: ws absorb_append)
qed

end
