(* ===== verification/Rsp_Vector_Mem.thy ===== *)
theory Rsp_Vector_Mem
  imports Rsp_Vector
begin

text \<open>
  The vector loads and stores of the RSP (\<open>vu_load\<close> and \<open>vu_store\<close> of \<open>src/rcp/rsp_vector.cpp\<close>).
  The scratch buffers of the code are byte sequences here.
\<close>

section \<open>Bytes between memory and registers\<close>

text \<open>
  \<open>write_bytes_to_vreg\<close>: an odd first byte, then half-words, then a last byte. \<open>write_pairs\<close> is its
  while loop, which also handles an odd position, and returns the position it stops at.
\<close>

function write_pairs :: "nat \<Rightarrow> (nat \<Rightarrow> u8) \<Rightarrow> nat \<Rightarrow> nat \<Rightarrow> vu_reg \<Rightarrow> nat \<times> vu_reg" where
  "write_pairs element src n i v =
     (if i + 1 < n \<and> element + i + 1 < 16 then
        (let bi = element + i
         in if bi mod 2 = 0
            then write_pairs element src n (i + 2)
                   (vr_set_lane (bi div 2) (push_bit 8 (ucast (src i)) OR ucast (src (i + 1))) v)
            else write_pairs element src n (i + 1) (vr_set_byte bi (src i) v))
      else (i, v))"
  by pat_completeness auto
termination by (relation "measure (\<lambda>(e, s, n, i, v). n - i)") auto

declare write_pairs.simps [simp del]

definition write_bytes_to_vreg :: "nat \<Rightarrow> (nat \<Rightarrow> u8) \<Rightarrow> nat \<Rightarrow> vu_reg \<Rightarrow> vu_reg" where
  "write_bytes_to_vreg element src n v =
     (let odd_start = (element mod 2 \<noteq> 0 \<and> n > 0 \<and> element < 16);
          (i, v1) = write_pairs element src n (if odd_start then 1 else 0)
                      (if odd_start then vr_set_byte element (src 0) v else v)
      in if i < n \<and> element + i < 16 then vr_set_byte (element + i) (src i) v1 else v1)"

definition read_bytes_from_vreg :: "nat \<Rightarrow> vu_reg \<Rightarrow> nat \<Rightarrow> u8" where
  "read_bytes_from_vreg element v i = vr_byte v ((element + i) mod 16)"

definition dmem_bulk_load :: "u32 \<Rightarrow> rsp_regs \<Rightarrow> nat \<Rightarrow> u8" where
  "dmem_bulk_load addr r i = dmem_at (addr + word_of_nat i) r"

fun dmem_bulk_store :: "u32 \<Rightarrow> (nat \<Rightarrow> u8) \<Rightarrow> nat \<Rightarrow> rsp_regs \<Rightarrow> rsp_regs" where
  "dmem_bulk_store addr src 0 r = r"
| "dmem_bulk_store addr src (Suc n) r = dmem_put (addr + word_of_nat n) (src n) (dmem_bulk_store addr src n r)"

definition set_vreg :: "u32 \<Rightarrow> vu_reg \<Rightarrow> rsp_regs \<Rightarrow> rsp_regs" where
  "set_vreg i v r = r\<lparr>vpr := (vpr r)(i := v)\<rparr>"

section \<open>Fields\<close>

definition vls_base :: "u32 \<Rightarrow> u32" where "vls_base inst = drop_bit 21 inst AND 0x1F"
definition vls_vt :: "u32 \<Rightarrow> u32" where "vls_vt inst = drop_bit 16 inst AND 0x1F"
definition vls_opcode :: "u32 \<Rightarrow> u32" where "vls_opcode inst = drop_bit 11 inst AND 0x1F"
definition vls_element :: "u32 \<Rightarrow> nat" where "vls_element inst = unat (drop_bit 7 inst AND 0xF)"

text \<open>The signed 7-bit offset, scaled by the access size.\<close>

definition vls_offset7 :: "u32 \<Rightarrow> int" where
  "vls_offset7 inst = sint (signed_drop_bit 1 (ucast (push_bit 1 (inst AND 0x7F)) :: u8))"

definition vls_address :: "u32 \<Rightarrow> nat \<Rightarrow> rsp_regs \<Rightarrow> u32" where
  "vls_address inst k r = rsp_get (vls_base inst) r + word_of_int (push_bit k (vls_offset7 inst))"

abbreviation (input) "align8 a \<equiv> a AND NOT 7 :: u32"
abbreviation (input) "align16 a \<equiv> a AND NOT 15 :: u32"

section \<open>Loads\<close>

definition load_lsv :: "nat \<Rightarrow> u32 \<Rightarrow> vu_reg \<Rightarrow> rsp_regs \<Rightarrow> vu_reg" where
  "load_lsv element a v r =
     (if element \<le> 14 then
        (let hw = dmem_load16 a r
         in vr_set_byte (element + 1) (ucast hw) (vr_set_byte element (ucast (drop_bit 8 hw)) v))
      else vr_set_byte (element mod 16) (dmem_load8 a r) v)"

definition load_run :: "nat \<Rightarrow> nat \<Rightarrow> u32 \<Rightarrow> vu_reg \<Rightarrow> rsp_regs \<Rightarrow> vu_reg" where
  "load_run bytes element a v r =
     write_bytes_to_vreg element (dmem_bulk_load a r) (min bytes (16 - element)) v"

definition load_lqv :: "nat \<Rightarrow> u32 \<Rightarrow> vu_reg \<Rightarrow> rsp_regs \<Rightarrow> vu_reg" where
  "load_lqv element a v r =
     (let end_a = align16 a + 15; max_n = unat (end_a - a) + 1
      in load_run max_n element a v r)"

definition load_lrv :: "nat \<Rightarrow> u32 \<Rightarrow> vu_reg \<Rightarrow> rsp_regs \<Rightarrow> vu_reg" where
  "load_lrv element a v r =
     (let start = 16 - (int (unat (a AND 0xF)) - int element);
          st = (if start < 0 then 0 else nat start)
      in if st \<ge> 16 then v
         else write_bytes_to_vreg st (dmem_bulk_load (align16 a) r) (16 - st) v)"

text \<open>\<open>LPV\<close> and \<open>LUV\<close>: bytes to the top of the lanes, shifted by 8 or 7.\<close>

definition load_packed :: "nat \<Rightarrow> nat \<Rightarrow> u32 \<Rightarrow> vu_reg \<Rightarrow> rsp_regs \<Rightarrow> vu_reg" where
  "load_packed sh element a v r =
     (let addr_ofs = unat (a AND 7); buf = dmem_bulk_load (align8 a) r
      in fold (\<lambda>i. vr_set_lane i (push_bit sh (ucast (buf ((16 - element + (i + addr_ofs)) mod 16)))))
           [0..<8] v)"

definition load_lhv :: "nat \<Rightarrow> u32 \<Rightarrow> vu_reg \<Rightarrow> rsp_regs \<Rightarrow> vu_reg" where
  "load_lhv element a v r =
     (let addr_ofs = unat (a AND 7)
      in fold (\<lambda>i. vr_set_lane i (push_bit 7 (ucast (dmem_load8
           (align8 a + word_of_nat (((16 - element) + i * 2 + addr_ofs) mod 16)) r)))) [0..<8] v)"

definition load_lfv :: "nat \<Rightarrow> u32 \<Rightarrow> vu_reg \<Rightarrow> rsp_regs \<Rightarrow> vu_reg" where
  "load_lfv element a v r =
     (let base_ofs = int (unat (a AND 7)) - int element;
          at = (\<lambda>k. dmem_load8 (align8 a + word_of_int ((base_ofs + k) mod 16)) r);
          tmp = fold (\<lambda>i t. vr_set_lane (i + 4) (push_bit 7 (ucast (at (int i * 4 + 8))))
                  (vr_set_lane i (push_bit 7 (ucast (at (int i * 4)))) t)) [0..<4] (\<lambda>_. 0)
      in fold (\<lambda>i. vr_set_byte i (vr_byte tmp i)) [element..<min (element + 8) 16] v)"

definition load_ltv :: "nat \<Rightarrow> u32 \<Rightarrow> u32 \<Rightarrow> rsp_regs \<Rightarrow> rsp_regs" where
  "load_ltv element vt a r =
     (let base = align8 a
      in fold (\<lambda>i q.
           let offset = word_of_nat (i * 2) + word_of_nat element + (base AND 8);
               hi = dmem_load8 (base + (offset AND 0xF)) q;
               lo = dmem_load8 (base + ((offset + 1) AND 0xF)) q;
               reg = (vt AND 0x18) OR word_of_nat ((i + element div 2) mod 8)
           in put_lane reg (i mod 8) (push_bit 8 (ucast hi) OR ucast lo) q) [0..<8] r)"

definition vu_load :: "u32 \<Rightarrow> rsp_regs \<Rightarrow> rsp_regs" where
  "vu_load inst r =
     (let vt = vls_vt inst; op = vls_opcode inst; element = vls_element inst; v = vpr r vt;
          at = (\<lambda>k. vls_address inst k r)
      in if op = 0x00 then set_vreg vt (vr_set_byte element (dmem_load8 (at 0) r) v) r
         else if op = 0x01 then set_vreg vt (load_lsv element (at 1) v r) r
         else if op = 0x02 then set_vreg vt (load_run 4 element (at 2) v r) r
         else if op = 0x03 then set_vreg vt (load_run 8 element (at 3) v r) r
         else if op = 0x04 then set_vreg vt (load_lqv element (at 4) v r) r
         else if op = 0x05 then set_vreg vt (load_lrv element (at 4) v r) r
         else if op = 0x06 then set_vreg vt (load_packed 8 element (at 3) v r) r
         else if op = 0x07 then set_vreg vt (load_packed 7 element (at 3) v r) r
         else if op = 0x08 then set_vreg vt (load_lhv element (at 4) v r) r
         else if op = 0x09 then set_vreg vt (load_lfv element (at 4) v r) r
         else if op = 0x0B then load_ltv element vt (at 4) r
         else r)"

section \<open>Stores\<close>

definition store_run :: "nat \<Rightarrow> nat \<Rightarrow> u32 \<Rightarrow> vu_reg \<Rightarrow> rsp_regs \<Rightarrow> rsp_regs" where
  "store_run bytes element a v = dmem_bulk_store a (read_bytes_from_vreg element v) bytes"

definition store_ssv :: "nat \<Rightarrow> u32 \<Rightarrow> vu_reg \<Rightarrow> rsp_regs \<Rightarrow> rsp_regs" where
  "store_ssv e a v =
     dmem_store16 a (push_bit 8 (ucast (vr_byte v e)) OR ucast (vr_byte v ((e + 1) mod 16)))"

definition store_sqv :: "nat \<Rightarrow> u32 \<Rightarrow> vu_reg \<Rightarrow> rsp_regs \<Rightarrow> rsp_regs" where
  "store_sqv element a v =
     (let end_a = align16 a + 15 in store_run (unat (end_a - a) + 1) element a v)"

definition store_srv :: "nat \<Rightarrow> u32 \<Rightarrow> vu_reg \<Rightarrow> rsp_regs \<Rightarrow> rsp_regs" where
  "store_srv element a v =
     (let n = unat (a AND 15); base_ofs = 16 - n
      in dmem_bulk_store (align16 a) (\<lambda>i. vr_byte v ((element + i + base_ofs) mod 16)) n)"

text \<open>\<open>SPV\<close> and \<open>SUV\<close>: the upper byte of a lane, or its bits 14 to 7, in the two orders.\<close>

definition store_packed :: "bool \<Rightarrow> nat \<Rightarrow> u32 \<Rightarrow> vu_reg \<Rightarrow> rsp_regs \<Rightarrow> rsp_regs" where
  "store_packed spv element a v =
     dmem_bulk_store a (\<lambda>i. let offset = element + i; k = offset mod 8
       in if (offset mod 16 < 8) = spv then vr_byte v (2 * k) else ucast (drop_bit 7 (v k))) 8"

definition store_shv :: "nat \<Rightarrow> u32 \<Rightarrow> vu_reg \<Rightarrow> rsp_regs \<Rightarrow> rsp_regs" where
  "store_shv element a v r =
     (let in_ofs = unat (a AND 7)
      in fold (\<lambda>i.
           let bi = i * 2 + element;
               val = push_bit 1 (ucast (vr_byte v (bi mod 16))) OR ucast (drop_bit 7 (vr_byte v ((bi + 1) mod 16))) :: u16
           in dmem_store8 (align8 a + word_of_nat ((in_ofs + i * 2) mod 16)) (ucast val)) [0..<8] r)"

definition sfv_lanes :: "nat \<Rightarrow> nat list" where
  "sfv_lanes element =
     (if element = 0 \<or> element = 15 then [0, 1, 2, 3]
      else if element = 1 then [6, 7, 4, 5] else if element = 4 then [1, 2, 3, 0]
      else if element = 5 then [7, 4, 5, 6] else if element = 8 then [4, 5, 6, 7]
      else if element = 11 then [3, 0, 1, 2] else if element = 12 then [5, 6, 7, 4] else [])"

definition store_sfv :: "nat \<Rightarrow> u32 \<Rightarrow> vu_reg \<Rightarrow> rsp_regs \<Rightarrow> rsp_regs" where
  "store_sfv element a v r =
     (let base_ofs = unat (a AND 7); ls = sfv_lanes element
      in fold (\<lambda>i. dmem_store8 (align8 a + word_of_nat ((base_ofs + i * 4) mod 16))
           (if ls = [] then 0 else ucast (drop_bit 7 (v (ls ! i))))) [0..<4] r)"

definition store_swv :: "nat \<Rightarrow> u32 \<Rightarrow> vu_reg \<Rightarrow> rsp_regs \<Rightarrow> rsp_regs" where
  "store_swv element a v r =
     (let base_ofs = unat (a AND 7)
      in fold (\<lambda>i. dmem_store8 (align8 a + word_of_nat ((base_ofs + i) mod 16))
           (vr_byte v ((element + i) mod 16))) [0..<16] r)"

definition store_stv :: "nat \<Rightarrow> u32 \<Rightarrow> u32 \<Rightarrow> rsp_regs \<Rightarrow> rsp_regs" where
  "store_stv element vt a r =
     (let in_ofs = a AND 7; base = align8 a; e = element div 2
      in fold (\<lambda>i q.
           let offset = word_of_nat (i * 2) + in_ofs;
               reg = (vt AND 0x18) OR word_of_nat ((i + e) mod 8);
               val = vpr q reg (i mod 8)
           in dmem_store8 (base + ((offset + 1) AND 0xF)) (ucast val)
                (dmem_store8 (base + (offset AND 0xF)) (ucast (drop_bit 8 val)) q)) [0..<8] r)"

definition vu_store :: "u32 \<Rightarrow> rsp_regs \<Rightarrow> rsp_regs" where
  "vu_store inst r =
     (let vt = vls_vt inst; op = vls_opcode inst; element = vls_element inst; v = vpr r vt;
          at = (\<lambda>k. vls_address inst k r)
      in if op = 0x00 then dmem_store8 (at 0) (vr_byte v element) r
         else if op = 0x01 then store_ssv element (at 1) v r
         else if op = 0x02 then store_run 4 element (at 2) v r
         else if op = 0x03 then store_run 8 element (at 3) v r
         else if op = 0x04 then store_sqv element (at 4) v r
         else if op = 0x05 then store_srv element (at 4) v r
         else if op = 0x06 then store_packed True element (at 3) v r
         else if op = 0x07 then store_packed False element (at 3) v r
         else if op = 0x08 then store_shv element (at 4) v r
         else if op = 0x09 then store_sfv element (at 4) v r
         else if op = 0x0A then store_swv element (at 4) v r
         else if op = 0x0B then store_stv element vt (at 4) r
         else r)"

section \<open>Registers written from a byte run\<close>

lemma write_pairs_spec:
  "write_pairs e src n i v = (i', v') \<Longrightarrow>
   i \<le> i' \<and> i' \<le> max i n \<and> \<not> (i' + 1 < n \<and> e + i' + 1 < 16) \<and> (i' = i \<or> e + i' \<le> 16) \<and>
   (\<forall>j. vr_byte v' j = (if e + i \<le> j \<and> j < e + i' then src (j - e) else vr_byte v j))"
proof (induction e src n i v arbitrary: i' v' rule: write_pairs.induct)
  case (1 e src n i v)
  show ?case
  proof (cases "i + 1 < n \<and> e + i + 1 < 16")
    case True
    let ?bi = "e + i"
    show ?thesis
    proof (cases "?bi mod 2 = 0")
      case even: True
      let ?v = "vr_set_lane (?bi div 2) (push_bit 8 (ucast (src i)) OR ucast (src (i + 1))) v"
      have rec: "write_pairs e src n (i + 2) ?v = (i', v')"
        using 1(3) True even by (simp add: write_pairs.simps [of e src n i])
      have b: "vr_byte ?v j = (if j = ?bi then src i else if j = ?bi + 1 then src (i + 1) else vr_byte v j)" for j
      proof -
        have "2 * (?bi div 2) = ?bi" using even by presburger
        moreover have "ucast (drop_bit 8 (push_bit 8 (ucast x) OR ucast y :: u16)) = x"
          "ucast (push_bit 8 (ucast x) OR ucast y :: u16) = y" for x y :: u8
          by (rule bit_word_eqI;
              auto simp: bit_ucast_iff bit_or_iff bit_push_bit_iff bit_drop_bit_eq dest: bit_imp_le_length)+
        ultimately show ?thesis by simp
      qed
      from 1(1) [OF True refl even rec] have IH: "i + 2 \<le> i' \<and> i' \<le> max (i + 2) n \<and>
          \<not> (i' + 1 < n \<and> e + i' + 1 < 16) \<and> (i' = i + 2 \<or> e + i' \<le> 16)"
        and IHb: "\<And>j. vr_byte v' j = (if e + (i + 2) \<le> j \<and> j < e + i' then src (j - e) else vr_byte ?v j)"
        by blast+
      have "vr_byte v' j = (if e + i \<le> j \<and> j < e + i' then src (j - e) else vr_byte v j)" for j
      proof -
        consider "j = ?bi" | "j = ?bi + 1" | "j \<noteq> ?bi" "j \<noteq> ?bi + 1" by blast
        then show ?thesis using IH unfolding IHb b by cases auto
      qed
      with IH True show ?thesis by auto
    next
      case odd: False
      let ?v = "vr_set_byte ?bi (src i) v"
      have rec: "write_pairs e src n (i + 1) ?v = (i', v')"
        using 1(3) True odd by (simp add: write_pairs.simps [of e src n i])
      from 1(2) [OF True refl odd rec] have IH: "i + 1 \<le> i' \<and> i' \<le> max (i + 1) n \<and>
          \<not> (i' + 1 < n \<and> e + i' + 1 < 16) \<and> (i' = i + 1 \<or> e + i' \<le> 16)"
        and IHb: "\<And>j. vr_byte v' j = (if e + (i + 1) \<le> j \<and> j < e + i' then src (j - e) else vr_byte ?v j)"
        by blast+
      have "vr_byte v' j = (if e + i \<le> j \<and> j < e + i' then src (j - e) else vr_byte v j)" for j
        using IH unfolding IHb by (cases "j = ?bi") auto
      with IH True show ?thesis by auto
    qed
  next
    case False
    then have "i' = i" "v' = v" using 1(3) by (auto simp: write_pairs.simps [of e src n i])
    with False show ?thesis by auto
  qed
qed

lemma vr_byte_write_bytes:
  assumes "e < 16"
  shows "vr_byte (write_bytes_to_vreg e src n v) j =
     (if e \<le> j \<and> j < e + n \<and> j < 16 then src (j - e) else vr_byte v j)"
proof -
  let ?odd = "e mod 2 \<noteq> 0 \<and> n > 0 \<and> e < 16"
  let ?i = "if ?odd then 1 else 0 :: nat" and ?v = "if ?odd then vr_set_byte e (src 0) v else v"
  obtain i' v' where w: "write_pairs e src n ?i ?v = (i', v')" by (cases "write_pairs e src n ?i ?v") auto
  note sp = write_pairs_spec [OF w]
  then have b: "vr_byte v' j = (if e + ?i \<le> j \<and> j < e + i' then src (j - e) else vr_byte ?v j)" for j by blast
  have v: "vr_byte ?v j = (if ?odd \<and> j = e then src 0 else vr_byte v j)" for j by simp
  have bv: "vr_byte v' j = (if e \<le> j \<and> j < e + i' then src (j - e) else vr_byte v j)" for j
    using sp unfolding b v by (cases "j = e") auto
  have "write_bytes_to_vreg e src n v = (if i' < n \<and> e + i' < 16 then vr_set_byte (e + i') (src i') v' else v')"
    using w by (simp add: write_bytes_to_vreg_def Let_def)
  moreover have "i' \<le> n \<or> n = 0" "e + i' \<le> 16" using sp assms by (auto split: if_splits)
  moreover have "\<not> (i' + 1 < n \<and> e + i' + 1 < 16)" using sp by blast
  ultimately show ?thesis using sp assms bv [of j] by (cases "j = e + i'") (auto split: if_splits)
qed

section \<open>Data memory after a run of stores\<close>

lemma and12: "x AND 0xFFF = take_bit 12 (x :: u32)"
  by (simp add: take_bit_eq_mask mask_eq_exp_minus_1)

lemma cell_diff: "take_bit 12 (take_bit 12 x - take_bit 12 y) = take_bit 12 (x - y)"
  and cell_add: "take_bit 12 (take_bit 12 x + take_bit 12 y) = take_bit 12 (x + y)" for x y :: u32
  by (simp_all add: word_uint_eq_iff uint_word_ariths unsigned_take_bit_eq take_bit_eq_mod [where 'a = int]
      mod_mod_cancel mod_simps)

lemma same_cell:
  fixes a b :: u32
  assumes "n < 4096"
  shows "unat (b AND 0xFFF) = unat ((a + word_of_nat n) AND 0xFFF) \<longleftrightarrow> unat ((b - a) AND 0xFFF) = n"
proof -
  have "take_bit 12 b = take_bit 12 (a + word_of_nat n) \<longleftrightarrow> take_bit 12 (b - a) = take_bit 12 (word_of_nat n :: u32)"
  proof
    assume "take_bit 12 b = take_bit 12 (a + word_of_nat n)"
    then have "take_bit 12 (take_bit 12 b - take_bit 12 a) = take_bit 12 (take_bit 12 (a + word_of_nat n) - take_bit 12 a)"
      by simp
    then show "take_bit 12 (b - a) = take_bit 12 (word_of_nat n :: u32)" by (simp add: cell_diff)
  next
    assume "take_bit 12 (b - a) = take_bit 12 (word_of_nat n :: u32)"
    then have "take_bit 12 (take_bit 12 a + take_bit 12 (b - a)) = take_bit 12 (take_bit 12 a + take_bit 12 (word_of_nat n))"
      by simp
    then show "take_bit 12 b = take_bit 12 (a + word_of_nat n)" by (simp only: cell_add) simp
  qed
  moreover have "take_bit 12 (b - a) = take_bit 12 (word_of_nat n :: u32) \<longleftrightarrow> unat (take_bit 12 (b - a)) = n"
    using assms by (simp add: word_unat_eq_iff unsigned_take_bit_eq unat_of_nat take_bit_nat_eq_self)
  ultimately show ?thesis by (simp add: and12 word_unat_eq_iff [symmetric])
qed

lemma dmem_at_put: "dmem_at b (dmem_put a x r) = (if unat (b AND 0xFFF) = unat (a AND 0xFFF) then x else dmem_at b r)"
  by (simp add: dmem_at_def dmem_put_def)

lemma dmem_at_bulk:
  "n \<le> 4096 \<Longrightarrow> dmem_at b (dmem_bulk_store a src n r) =
     (if unat ((b - a) AND 0xFFF) < n then src (unat ((b - a) AND 0xFFF)) else dmem_at b r)"
  by (induction n) (auto simp: dmem_at_put same_cell less_Suc_eq)

section \<open>Unaligned quad-words\<close>

lemma and15: "x AND 15 = take_bit 4 (x :: u32)"
  by (simp add: take_bit_eq_mask mask_eq_exp_minus_1)

lemma and_not_minus: "a AND NOT m = a - (a AND m)" for a m :: u32
proof -
  have "(a AND NOT m) AND (a AND m) = 0" by (rule bit_word_eqI) (auto simp: bit_and_iff bit_not_iff)
  then have "(a AND NOT m) + (a AND m) = (a AND NOT m) OR (a AND m)" by (simp only: disjunctive_add_eq_or)
  also have "\<dots> = a" by (rule bit_word_eqI) (auto simp: bit_or_iff bit_and_iff bit_not_iff)
  finally show ?thesis by (simp only: eq_diff_eq)
qed

lemma align16_eq: "a AND - 16 = a - (a AND 15 :: u32)"
  using and_not_minus [of a 15] by simp

lemma next_quad: "(a + 16) AND 15 = (a AND 15 :: u32)"
  by (simp add: and15 word_uint_eq_iff uint_word_ariths unsigned_take_bit_eq take_bit_eq_mod [where 'a = int]
      mod_mod_cancel)

lemma low4: "unat (a AND 15 :: u32) < 16"
  by (simp add: and15 unsigned_take_bit_eq take_bit_eq_mod [where 'a = nat])

lemma small_cell: "k < 4096 \<Longrightarrow> unat ((word_of_nat k :: u32) AND 0xFFF) = k"
  by (simp add: and12 unsigned_take_bit_eq unat_of_nat take_bit_nat_eq_self)

lemma before_cell:
  assumes "0 < k" "k \<le> 4096"
  shows "unat ((- word_of_nat k :: u32) AND 0xFFF) = 4096 - k"
proof -
  have "(- word_of_nat k :: u32) AND 0xFFF = word_of_nat (4096 - k) AND 0xFFF"
    using assms by (simp add: and12 word_uint_eq_iff unsigned_take_bit_eq take_bit_eq_mod [where 'a = int]
        uint_word_ariths unsigned_of_nat mod_mod_cancel of_nat_diff mod_simps)
  then show ?thesis by (simp only:) (use assms in \<open>simp only: small_cell\<close>)
qed

lemma quad_len: "unat (align16 a + 15 - a) + 1 = 16 - unat (a AND 15)"
proof -
  have e: "align16 a + 15 - a = 15 - (a AND 15)" by (simp add: align16_eq)
  have "(a AND 15) \<le> 15" by (rule word_and_le1)
  then have u: "unat (15 - (a AND 15)) = 15 - unat (a AND 15)" by (simp add: unat_sub)
  show ?thesis unfolding e u using low4 [of a] by simp
qed

lemma first_byte: "n < 16 \<Longrightarrow> (if 16 - (int n - int 0) < 0 then 0 else nat (16 - (int n - int 0))) = 16 - n"
  by auto

lemma quad_memory:
  fixes a :: u32 and v :: vu_reg and r :: rsp_regs
  defines "n \<equiv> unat (a AND 15)"
  defines "r' \<equiv> store_srv 0 (a + 16) v (store_sqv 0 a v r)"
  shows "i < 16 - n \<Longrightarrow> dmem_at (a + word_of_nat i) r' = vr_byte v i"
    and "i < n \<Longrightarrow> dmem_at (align16 (a + 16) + word_of_nat i) r' = vr_byte v (16 - n + i)"
proof -
  have n: "n < 16" unfolding n_def by (rule low4)
  have an: "a AND 15 = word_of_nat n" by (simp add: n_def)
  have r': "r' = dmem_bulk_store (align16 (a + 16)) (\<lambda>i. vr_byte v ((i + (16 - n)) mod 16)) n
      (dmem_bulk_store a (\<lambda>i. vr_byte v (i mod 16)) (16 - n) r)"
    unfolding r'_def store_srv_def store_sqv_def store_run_def Let_def next_quad quad_len
    by (simp add: read_bytes_from_vreg_def [abs_def] n_def)
  have al: "align16 (a + 16) = a + 16 - word_of_nat n" by (simp add: align16_eq next_quad an)
  show "dmem_at (a + word_of_nat i) r' = vr_byte v i" if "i < 16 - n"
  proof -
    have "a + word_of_nat i - align16 (a + 16) = - word_of_nat (16 - n - i)"
      using al that n by (simp add: of_nat_diff)
    then have "unat ((a + word_of_nat i - align16 (a + 16)) AND 0xFFF) = 4096 - (16 - n - i)"
      by (simp only:) (use that in \<open>intro before_cell; simp\<close>)
    then show ?thesis using that n by (simp add: r' dmem_at_bulk small_cell)
  qed
  show "dmem_at (align16 (a + 16) + word_of_nat i) r' = vr_byte v (16 - n + i)" if "i < n"
    using that n by (simp add: r' dmem_at_bulk small_cell add.commute)
qed

text \<open>C36: an unaligned quad-word stored by SQV and SRV is what LQV and LRV load, at every address,
  with the wrap-around of the data memory included: the loaded register holds the stored lanes.\<close>

theorem unaligned_quad_roundtrip:
  "map (load_lrv 0 (a + 16) (load_lqv 0 a w (store_srv 0 (a + 16) v (store_sqv 0 a v r)))
        (store_srv 0 (a + 16) v (store_sqv 0 a v r))) [0..<8] = map v [0..<8]"
proof -
  let ?r = "store_srv 0 (a + 16) v (store_sqv 0 a v r)" and ?n = "unat (a AND 15)"
  let ?q = "load_lqv 0 a w ?r"
  let ?z = "load_lrv 0 (a + 16) ?q ?r"
  have n: "?n < 16" by (rule low4)
  have q: "vr_byte ?q j = (if j < 16 - ?n then vr_byte v j else vr_byte w j)" for j
    unfolding load_lqv_def load_run_def Let_def quad_len
    by (auto simp: vr_byte_write_bytes dmem_bulk_load_def quad_memory(1))
  have z: "vr_byte ?z j = vr_byte v j" if "j < 16" for j
  proof -
    note st = first_byte [OF n]
    show ?thesis
    proof (cases "?n = 0")
      case True
      with that show ?thesis unfolding load_lrv_def Let_def next_quad st by (simp add: q)
    next
      case False
      then have "16 - ?n < 16" "\<not> 16 \<le> 16 - ?n" by simp_all
      moreover have "j - (16 - ?n) < ?n" "16 - ?n + (j - (16 - ?n)) = j" if "16 - ?n \<le> j"
        using that \<open>j < 16\<close> n by auto
      ultimately show ?thesis
        unfolding load_lrv_def Let_def next_quad st dmem_bulk_load_def [abs_def]
        using that n quad_memory(2) [of "j - (16 - ?n)" a v r]
        by (auto simp: vr_byte_write_bytes q)
    qed
  qed
  have "?z i = v i" if "i < 8" for i
    using that by (simp only: vr_lane_bytes [of ?z] vr_lane_bytes [of v]) (simp add: z)
  then show ?thesis by simp
qed

end
