(* ===== verification/Rsp_Scalar.thy ===== *)
theory Rsp_Scalar
  imports Rsp_Vector_Mem
begin

text \<open>
  The scalar instructions of the RSP that touch only its own registers and memories
  (\<open>op_*\<close>, \<open>spec_*\<close>, \<open>execute_regimm\<close> and \<open>execute_cop2\<close> of \<open>src/rcp/rsp.cpp\<close>). \<open>rsp_pc\<close> is already the
  address of the following instruction when a handler runs.
\<close>

section \<open>Jumps and branches\<close>

definition rsp_link :: "rsp_regs \<Rightarrow> u32" where
  "rsp_link r = ucast ((rsp_pc r + 4) AND 0xFFC)"

definition rsp_delay :: "rsp_regs \<Rightarrow> rsp_regs" where
  "rsp_delay r = r\<lparr>rsp_delay_slot := True\<rparr>"

definition rsp_branch_if :: "bool \<Rightarrow> u32 \<Rightarrow> rsp_regs \<Rightarrow> rsp_regs" where
  "rsp_branch_if cond inst r =
     (if cond then rsp_branch (rsp_pc r + ucast (push_bit 2 (rsp_imm_se inst))) r else r)"

definition rsp_op_j :: "u32 \<Rightarrow> rsp_regs \<Rightarrow> rsp_regs" where
  "rsp_op_j inst r = rsp_branch (ucast (rsp_target inst)) (rsp_delay r)"

definition rsp_op_jal :: "u32 \<Rightarrow> rsp_regs \<Rightarrow> rsp_regs" where
  "rsp_op_jal inst r = rsp_branch (ucast (rsp_target inst)) (rsp_set 31 (rsp_link r) (rsp_delay r))"

definition rsp_op_beq :: "u32 \<Rightarrow> rsp_regs \<Rightarrow> rsp_regs" where
  "rsp_op_beq inst r = rsp_branch_if (rsp_get (rsp_rs inst) r = rsp_get (rsp_rt inst) r) inst (rsp_delay r)"

definition rsp_op_bne :: "u32 \<Rightarrow> rsp_regs \<Rightarrow> rsp_regs" where
  "rsp_op_bne inst r = rsp_branch_if (rsp_get (rsp_rs inst) r \<noteq> rsp_get (rsp_rt inst) r) inst (rsp_delay r)"

definition rsp_op_blez :: "u32 \<Rightarrow> rsp_regs \<Rightarrow> rsp_regs" where
  "rsp_op_blez inst r = rsp_branch_if (rsp_get (rsp_rs inst) r \<le>s 0) inst (rsp_delay r)"

definition rsp_op_bgtz :: "u32 \<Rightarrow> rsp_regs \<Rightarrow> rsp_regs" where
  "rsp_op_bgtz inst r = rsp_branch_if (0 <s rsp_get (rsp_rs inst) r) inst (rsp_delay r)"

definition execute_regimm :: "u32 \<Rightarrow> rsp_regs \<Rightarrow> rsp_regs" where
  "execute_regimm inst r =
     (let rt = rsp_rt inst; rs_val = rsp_get (rsp_rs inst) r; d = rsp_delay r
      in if rt = 0x00 then rsp_branch_if (rs_val <s 0) inst d
         else if rt = 0x01 then rsp_branch_if (0 \<le>s rs_val) inst d
         else if rt = 0x10 then rsp_branch_if (rs_val <s 0) inst (rsp_set 31 (rsp_link r) d)
         else if rt = 0x11 then rsp_branch_if (0 \<le>s rs_val) inst (rsp_set 31 (rsp_link r) d)
         else r\<lparr>rsp_delay_slot := False\<rparr>)"

definition rsp_spec_jr :: "u32 \<Rightarrow> rsp_regs \<Rightarrow> rsp_regs" where
  "rsp_spec_jr inst r = rsp_branch (ucast (rsp_get (rsp_rs inst) r)) (rsp_delay r)"

definition rsp_spec_jalr :: "u32 \<Rightarrow> rsp_regs \<Rightarrow> rsp_regs" where
  "rsp_spec_jalr inst r =
     rsp_set (rsp_rd inst) (rsp_link r) (rsp_branch (ucast (rsp_get (rsp_rs inst) r)) (rsp_delay r))"

section \<open>Immediate instructions\<close>

definition rsp_op_addi :: "u32 \<Rightarrow> rsp_regs \<Rightarrow> rsp_regs" where
  "rsp_op_addi inst r = rsp_set (rsp_rt inst) (rsp_get (rsp_rs inst) r + rsp_imm_se inst) r"

definition rsp_op_slti :: "u32 \<Rightarrow> rsp_regs \<Rightarrow> rsp_regs" where
  "rsp_op_slti inst r = rsp_set (rsp_rt inst) (of_bool (rsp_get (rsp_rs inst) r <s rsp_imm_se inst)) r"

definition rsp_op_sltiu :: "u32 \<Rightarrow> rsp_regs \<Rightarrow> rsp_regs" where
  "rsp_op_sltiu inst r = rsp_set (rsp_rt inst) (of_bool (rsp_get (rsp_rs inst) r < rsp_imm_se inst)) r"

definition rsp_op_andi :: "u32 \<Rightarrow> rsp_regs \<Rightarrow> rsp_regs" where
  "rsp_op_andi inst r = rsp_set (rsp_rt inst) (rsp_get (rsp_rs inst) r AND rsp_imm_ze inst) r"

definition rsp_op_ori :: "u32 \<Rightarrow> rsp_regs \<Rightarrow> rsp_regs" where
  "rsp_op_ori inst r = rsp_set (rsp_rt inst) (rsp_get (rsp_rs inst) r OR rsp_imm_ze inst) r"

definition rsp_op_xori :: "u32 \<Rightarrow> rsp_regs \<Rightarrow> rsp_regs" where
  "rsp_op_xori inst r = rsp_set (rsp_rt inst) (rsp_get (rsp_rs inst) r XOR rsp_imm_ze inst) r"

definition rsp_op_lui :: "u32 \<Rightarrow> rsp_regs \<Rightarrow> rsp_regs" where
  "rsp_op_lui inst r = rsp_set (rsp_rt inst) (push_bit 16 (rsp_imm_ze inst)) r"

section \<open>Loads and stores\<close>

definition rsp_ea :: "u32 \<Rightarrow> rsp_regs \<Rightarrow> u32" where
  "rsp_ea inst r = rsp_get (rsp_rs inst) r + rsp_imm_se inst"

definition rsp_op_lb :: "u32 \<Rightarrow> rsp_regs \<Rightarrow> rsp_regs" where
  "rsp_op_lb inst r = rsp_set (rsp_rt inst) (scast (dmem_load8 (rsp_ea inst r) r)) r"

definition rsp_op_lbu :: "u32 \<Rightarrow> rsp_regs \<Rightarrow> rsp_regs" where
  "rsp_op_lbu inst r = rsp_set (rsp_rt inst) (ucast (dmem_load8 (rsp_ea inst r) r)) r"

definition rsp_op_lh :: "u32 \<Rightarrow> rsp_regs \<Rightarrow> rsp_regs" where
  "rsp_op_lh inst r = rsp_set (rsp_rt inst) (scast (dmem_load16 (rsp_ea inst r) r)) r"

definition rsp_op_lhu :: "u32 \<Rightarrow> rsp_regs \<Rightarrow> rsp_regs" where
  "rsp_op_lhu inst r = rsp_set (rsp_rt inst) (ucast (dmem_load16 (rsp_ea inst r) r)) r"

definition rsp_op_lw :: "u32 \<Rightarrow> rsp_regs \<Rightarrow> rsp_regs" where
  "rsp_op_lw inst r = rsp_set (rsp_rt inst) (dmem_load32 (rsp_ea inst r) r) r"

definition rsp_op_sb :: "u32 \<Rightarrow> rsp_regs \<Rightarrow> rsp_regs" where
  "rsp_op_sb inst r = dmem_store8 (rsp_ea inst r) (ucast (rsp_get (rsp_rt inst) r)) r"

definition rsp_op_sh :: "u32 \<Rightarrow> rsp_regs \<Rightarrow> rsp_regs" where
  "rsp_op_sh inst r = dmem_store16 (rsp_ea inst r) (ucast (rsp_get (rsp_rt inst) r)) r"

definition rsp_op_sw :: "u32 \<Rightarrow> rsp_regs \<Rightarrow> rsp_regs" where
  "rsp_op_sw inst r = dmem_store32 (rsp_ea inst r) (rsp_get (rsp_rt inst) r) r"

section \<open>Register instructions\<close>

definition rsp_spec_sll :: "u32 \<Rightarrow> rsp_regs \<Rightarrow> rsp_regs" where
  "rsp_spec_sll inst r = rsp_set (rsp_rd inst) (push_bit (rsp_sa inst) (rsp_get (rsp_rt inst) r)) r"

definition rsp_spec_srl :: "u32 \<Rightarrow> rsp_regs \<Rightarrow> rsp_regs" where
  "rsp_spec_srl inst r = rsp_set (rsp_rd inst) (drop_bit (rsp_sa inst) (rsp_get (rsp_rt inst) r)) r"

definition rsp_spec_sra :: "u32 \<Rightarrow> rsp_regs \<Rightarrow> rsp_regs" where
  "rsp_spec_sra inst r = rsp_set (rsp_rd inst) (signed_drop_bit (rsp_sa inst) (rsp_get (rsp_rt inst) r)) r"

definition rsp_shift_of :: "u32 \<Rightarrow> rsp_regs \<Rightarrow> nat" where
  "rsp_shift_of inst r = unat (rsp_get (rsp_rs inst) r AND 31)"

definition rsp_spec_sllv :: "u32 \<Rightarrow> rsp_regs \<Rightarrow> rsp_regs" where
  "rsp_spec_sllv inst r = rsp_set (rsp_rd inst) (push_bit (rsp_shift_of inst r) (rsp_get (rsp_rt inst) r)) r"

definition rsp_spec_srlv :: "u32 \<Rightarrow> rsp_regs \<Rightarrow> rsp_regs" where
  "rsp_spec_srlv inst r = rsp_set (rsp_rd inst) (drop_bit (rsp_shift_of inst r) (rsp_get (rsp_rt inst) r)) r"

definition rsp_spec_srav :: "u32 \<Rightarrow> rsp_regs \<Rightarrow> rsp_regs" where
  "rsp_spec_srav inst r =
     rsp_set (rsp_rd inst) (signed_drop_bit (rsp_shift_of inst r) (rsp_get (rsp_rt inst) r)) r"

definition rsp_spec_add :: "u32 \<Rightarrow> rsp_regs \<Rightarrow> rsp_regs" where
  "rsp_spec_add inst r = rsp_set (rsp_rd inst) (rsp_get (rsp_rs inst) r + rsp_get (rsp_rt inst) r) r"

definition rsp_spec_sub :: "u32 \<Rightarrow> rsp_regs \<Rightarrow> rsp_regs" where
  "rsp_spec_sub inst r = rsp_set (rsp_rd inst) (rsp_get (rsp_rs inst) r - rsp_get (rsp_rt inst) r) r"

definition rsp_spec_and :: "u32 \<Rightarrow> rsp_regs \<Rightarrow> rsp_regs" where
  "rsp_spec_and inst r = rsp_set (rsp_rd inst) (rsp_get (rsp_rs inst) r AND rsp_get (rsp_rt inst) r) r"

definition rsp_spec_or :: "u32 \<Rightarrow> rsp_regs \<Rightarrow> rsp_regs" where
  "rsp_spec_or inst r = rsp_set (rsp_rd inst) (rsp_get (rsp_rs inst) r OR rsp_get (rsp_rt inst) r) r"

definition rsp_spec_xor :: "u32 \<Rightarrow> rsp_regs \<Rightarrow> rsp_regs" where
  "rsp_spec_xor inst r = rsp_set (rsp_rd inst) (rsp_get (rsp_rs inst) r XOR rsp_get (rsp_rt inst) r) r"

definition rsp_spec_nor :: "u32 \<Rightarrow> rsp_regs \<Rightarrow> rsp_regs" where
  "rsp_spec_nor inst r = rsp_set (rsp_rd inst) (NOT (rsp_get (rsp_rs inst) r OR rsp_get (rsp_rt inst) r)) r"

definition rsp_spec_slt :: "u32 \<Rightarrow> rsp_regs \<Rightarrow> rsp_regs" where
  "rsp_spec_slt inst r = rsp_set (rsp_rd inst) (of_bool (rsp_get (rsp_rs inst) r <s rsp_get (rsp_rt inst) r)) r"

definition rsp_spec_sltu :: "u32 \<Rightarrow> rsp_regs \<Rightarrow> rsp_regs" where
  "rsp_spec_sltu inst r = rsp_set (rsp_rd inst) (of_bool (rsp_get (rsp_rs inst) r < rsp_get (rsp_rt inst) r)) r"

section \<open>Moves to and from the vector unit\<close>

definition cop2_elem :: "u32 \<Rightarrow> nat" where
  "cop2_elem inst = unat (drop_bit 7 inst AND 0xF)"

definition rsp_mfc2 :: "u32 \<Rightarrow> rsp_regs \<Rightarrow> rsp_regs" where
  "rsp_mfc2 inst r =
     (let elem = cop2_elem inst; v = vpr r (rsp_rd inst);
          hi = ucast (vr_byte v elem) :: u16; lo = ucast (vr_byte v ((elem + 1) mod 16)) :: u16
      in rsp_set (rsp_rt inst) (scast (push_bit 8 hi OR lo)) r)"

definition rsp_cfc2 :: "u32 \<Rightarrow> rsp_regs \<Rightarrow> rsp_regs" where
  "rsp_cfc2 inst r =
     (let k = rsp_rd inst AND 3;
          val = (if k = 0 then vco r else if k = 1 then vcc r else ucast (vce r))
      in rsp_set (rsp_rt inst) (scast val) r)"

definition rsp_mtc2 :: "u32 \<Rightarrow> rsp_regs \<Rightarrow> rsp_regs" where
  "rsp_mtc2 inst r =
     (let elem = cop2_elem inst; val = rsp_get (rsp_rt inst) r; vd = rsp_rd inst;
          v1 = vr_set_byte elem (ucast (drop_bit 8 val)) (vpr r vd)
      in set_vreg vd (if elem < 15 then vr_set_byte (elem + 1) (ucast val) v1 else v1) r)"

definition rsp_ctc2 :: "u32 \<Rightarrow> rsp_regs \<Rightarrow> rsp_regs" where
  "rsp_ctc2 inst r =
     (let k = rsp_rd inst AND 3; val = ucast (rsp_get (rsp_rt inst) r) :: u16
      in if k = 0 then r\<lparr>vco := val\<rparr> else if k = 1 then r\<lparr>vcc := val\<rparr> else r\<lparr>vce := ucast val\<rparr>)"

definition execute_cop2 :: "u32 \<Rightarrow> rsp_regs \<Rightarrow> rsp_regs res" where
  "execute_cop2 inst r =
     (if bit inst 25 then vu_execute_compute inst r
      else let sub = rsp_rs inst
           in ok (if sub = 0x00 then rsp_mfc2 inst r
                  else if sub = 0x02 then rsp_cfc2 inst r
                  else if sub = 0x04 then rsp_mtc2 inst r
                  else if sub = 0x06 then rsp_ctc2 inst r else r))"

section \<open>The handlers of the table\<close>

definition rsp_local :: "rsp_handler \<Rightarrow> u32 \<Rightarrow> rsp_regs \<Rightarrow> rsp_regs res" where
  "rsp_local h inst r = (case h of
       Rsp_regimm \<Rightarrow> ok (execute_regimm inst r) | Rsp_j \<Rightarrow> ok (rsp_op_j inst r)
     | Rsp_jal \<Rightarrow> ok (rsp_op_jal inst r) | Rsp_beq \<Rightarrow> ok (rsp_op_beq inst r)
     | Rsp_bne \<Rightarrow> ok (rsp_op_bne inst r) | Rsp_blez \<Rightarrow> ok (rsp_op_blez inst r)
     | Rsp_bgtz \<Rightarrow> ok (rsp_op_bgtz inst r) | Rsp_addi \<Rightarrow> ok (rsp_op_addi inst r)
     | Rsp_slti \<Rightarrow> ok (rsp_op_slti inst r) | Rsp_sltiu \<Rightarrow> ok (rsp_op_sltiu inst r)
     | Rsp_andi \<Rightarrow> ok (rsp_op_andi inst r) | Rsp_ori \<Rightarrow> ok (rsp_op_ori inst r)
     | Rsp_xori \<Rightarrow> ok (rsp_op_xori inst r) | Rsp_lui \<Rightarrow> ok (rsp_op_lui inst r)
     | Rsp_cop2 \<Rightarrow> execute_cop2 inst r
     | Rsp_lb \<Rightarrow> ok (rsp_op_lb inst r) | Rsp_lh \<Rightarrow> ok (rsp_op_lh inst r)
     | Rsp_lw \<Rightarrow> ok (rsp_op_lw inst r) | Rsp_lbu \<Rightarrow> ok (rsp_op_lbu inst r)
     | Rsp_lhu \<Rightarrow> ok (rsp_op_lhu inst r) | Rsp_sb \<Rightarrow> ok (rsp_op_sb inst r)
     | Rsp_sh \<Rightarrow> ok (rsp_op_sh inst r) | Rsp_sw \<Rightarrow> ok (rsp_op_sw inst r)
     | Rsp_lwc2 \<Rightarrow> ok (vu_load inst r) | Rsp_swc2 \<Rightarrow> ok (vu_store inst r)
     | Rsp_sll \<Rightarrow> ok (rsp_spec_sll inst r) | Rsp_srl \<Rightarrow> ok (rsp_spec_srl inst r)
     | Rsp_sra \<Rightarrow> ok (rsp_spec_sra inst r) | Rsp_sllv \<Rightarrow> ok (rsp_spec_sllv inst r)
     | Rsp_srlv \<Rightarrow> ok (rsp_spec_srlv inst r) | Rsp_srav \<Rightarrow> ok (rsp_spec_srav inst r)
     | Rsp_jr \<Rightarrow> ok (rsp_spec_jr inst r) | Rsp_jalr \<Rightarrow> ok (rsp_spec_jalr inst r)
     | Rsp_break \<Rightarrow> ok (take_break r)
     | Rsp_add \<Rightarrow> ok (rsp_spec_add inst r) | Rsp_sub \<Rightarrow> ok (rsp_spec_sub inst r)
     | Rsp_and \<Rightarrow> ok (rsp_spec_and inst r) | Rsp_or \<Rightarrow> ok (rsp_spec_or inst r)
     | Rsp_xor \<Rightarrow> ok (rsp_spec_xor inst r) | Rsp_nor \<Rightarrow> ok (rsp_spec_nor inst r)
     | Rsp_slt \<Rightarrow> ok (rsp_spec_slt inst r) | Rsp_sltu \<Rightarrow> ok (rsp_spec_sltu inst r)
     | Rsp_cop0 \<Rightarrow> ok r | Rsp_reserved \<Rightarrow> ok r | Rsp_spec_reserved \<Rightarrow> ok r)"

end
