(* ===== verification/Rsp.thy ===== *)
theory Rsp
  imports Dpc Rsp_Scalar
begin

text \<open>
  The RSP as a device (\<open>src/rcp/rsp.cpp\<close>): its DMA engine, its registers as the CPU and as its own
  COP0 sees them, one instruction, and the run of a task up to the next synchronisation point.

  \<open>status_reg_write\<close> starts a task when it releases the halt bit, a task runs instructions, and an
  instruction may write the status register. The definitions take the inner \<open>do_task\<close> as an argument;
  it is never reached, because an instruction runs only while the halt bit is off
  (\<open>do_task_recursive\<close>).
\<close>

section \<open>DMA\<close>

abbreviation (input) "RSP_DRAM_ADDR_MASK \<equiv> 0xFFFFF8 :: u32"
abbreviation (input) "RSP_MEM_ADDR_MASK \<equiv> 0xFF8 :: u32"

definition dma_len :: "rsp_regs \<Rightarrow> u32" where
  "dma_len r = (bf_get 0 12 (sp_dma r) + 1 + 7) AND NOT 7"

definition dma_count :: "rsp_regs \<Rightarrow> u32" where
  "dma_count r = bf_get 12 8 (sp_dma r)"

definition dma_skip :: "rsp_regs \<Rightarrow> u32" where
  "dma_skip r = bf_get 20 12 (sp_dma r)"

definition dma_check_len :: "rsp_regs \<Rightarrow> u32" where
  "dma_check_len r = (if dma_count r = 0 then dma_len r
     else (dma_count r + 1) * dma_len r + dma_count r * dma_skip r)"

definition dma_dram_start :: "rsp_regs \<Rightarrow> u32" where
  "dma_dram_start r = bf_get 0 24 (sp_shadow_dram_addr r) AND RSP_DRAM_ADDR_MASK"

definition dma_mem_start :: "rsp_regs \<Rightarrow> u32" where
  "dma_mem_start r = bf_get 0 12 (sp_shadow_mem_addr r) AND RSP_MEM_ADDR_MASK"

definition dma_imem :: "rsp_regs \<Rightarrow> bool" where
  "dma_imem r = bit (sp_shadow_mem_addr r) 12"

text \<open>The index of a byte of SP memory: IMEM has the byte order of RDRAM, DMEM that of the console.\<close>

definition sp_index :: "bool \<Rightarrow> u32 \<Rightarrow> nat" where
  "sp_index imem addr = (let a = addr AND 0xFFF in unat (if imem then a else byte_address a))"

definition rdram_get :: "bytes \<Rightarrow> u32 \<Rightarrow> u8" where
  "rdram_get rd a = (if a < RDRAM_SIZE then bytes_at rd (unat a) else 0)"

definition rdram_put :: "u32 \<Rightarrow> u8 \<Rightarrow> bytes \<Rightarrow> bytes" where
  "rdram_put a b rd = (if a < RDRAM_SIZE then bytes_set (unat a) b rd else rd)"

definition sp_mem :: "bool \<Rightarrow> rsp_regs \<Rightarrow> bytes" where
  "sp_mem imem r = (if imem then sp_imem r else sp_dmem r)"

definition set_sp_mem :: "bool \<Rightarrow> bytes \<Rightarrow> rsp_regs \<Rightarrow> rsp_regs" where
  "set_sp_mem imem b r = (if imem then r\<lparr>sp_imem := b\<rparr> else r\<lparr>sp_dmem := b\<rparr>)"

text \<open>One row in each direction.\<close>

definition row_in :: "bool \<Rightarrow> bytes \<Rightarrow> u32 \<Rightarrow> u32 \<Rightarrow> u32 \<Rightarrow> bytes \<Rightarrow> bytes" where
  "row_in imem rd dram m len b =
     fold (\<lambda>j. bytes_set (sp_index imem (m + word_of_nat j)) (rdram_get rd (dram + word_of_nat j)))
       [0..<unat len] b"

definition row_out :: "bool \<Rightarrow> bytes \<Rightarrow> u32 \<Rightarrow> u32 \<Rightarrow> u32 \<Rightarrow> bytes \<Rightarrow> bytes" where
  "row_out imem b dram m len rd =
     fold (\<lambda>j. rdram_put (dram + word_of_nat j) (bytes_at b (sp_index imem (m + word_of_nat j))))
       [0..<unat len] rd"

text \<open>\<open>k\<close> more rows follow the first; the last row adds no skip.\<close>

fun rows_in :: "nat \<Rightarrow> bool \<Rightarrow> bytes \<Rightarrow> u32 \<Rightarrow> u32 \<Rightarrow> u32 \<Rightarrow> u32 \<Rightarrow> rsp_regs \<Rightarrow> u32 \<times> u32 \<times> rsp_regs" where
  "rows_in 0 imem rd len skip dram m r = (dram, m, r)"
| "rows_in (Suc k) imem rd len skip dram m r =
     (let r1 = set_sp_mem imem (row_in imem rd dram m len (sp_mem imem r)) r;
          r2 = (if imem then note_imem_written m len r1 else r1)
      in rows_in k imem rd len skip
           ((dram + len + (if k = 0 then 0 else skip)) AND RSP_DRAM_ADDR_MASK)
           ((m + len) AND RSP_MEM_ADDR_MASK) r2)"

fun rows_out :: "nat \<Rightarrow> bool \<Rightarrow> bytes \<Rightarrow> u32 \<Rightarrow> u32 \<Rightarrow> u32 \<Rightarrow> u32 \<Rightarrow> bytes \<Rightarrow> u32 \<times> u32 \<times> bytes" where
  "rows_out 0 imem b len skip dram m rd = (dram, m, rd)"
| "rows_out (Suc k) imem b len skip dram m rd =
     rows_out k imem b len skip
       ((dram + len + (if k = 0 then 0 else skip)) AND RSP_DRAM_ADDR_MASK)
       ((m + len) AND RSP_MEM_ADDR_MASK) (row_out imem b dram m len rd)"

definition dma_finish :: "u32 \<Rightarrow> u32 \<Rightarrow> bool \<Rightarrow> u32 \<Rightarrow> rsp_regs \<Rightarrow> rsp_regs" where
  "dma_finish dram m imem skip r =
     r\<lparr>sp_dram_addr := bf_set 0 24 dram (sp_dram_addr r),
       sp_mem_addr := put_bit 12 imem (bf_set 0 12 m (sp_mem_addr r)),
       sp_dma := 0xFF8 OR push_bit 20 skip\<rparr>"

definition rsp_dma_read :: "'a rsp_state_scheme \<Rightarrow> 'a rsp_state_scheme" where
  "rsp_dma_read s =
     (let r = rsp s; imem = dma_imem r; dram = dma_dram_start r; m = dma_mem_start r;
          s1 = check_framebuffers dram (dma_check_len r) s
      in case rows_in (unat (dma_count r) + 1) imem (rdram (mem s1)) (dma_len r) (dma_skip r) dram m r of
           (dram', m', r') \<Rightarrow> map_rsp (\<lambda>_. dma_finish dram' m' imem (dma_skip r) r') s1)"

definition rsp_dma_write :: "'a rsp_state_scheme \<Rightarrow> 'a rsp_state_scheme" where
  "rsp_dma_write s =
     (let r = rsp s; imem = dma_imem r; dram = dma_dram_start r; m = dma_mem_start r;
          s1 = on_rdram_write dram (dma_check_len r) s
      in case rows_out (unat (dma_count r) + 1) imem (sp_mem imem r) (dma_len r) (dma_skip r) dram m
                (rdram (mem s1)) of
           (dram', m', rd') \<Rightarrow>
             map_rsp (dma_finish dram' m' imem (dma_skip r))
               (maybe_invalidate_code dram ((dma_count r + 1) * (dma_len r + dma_skip r))
                  (s1\<lparr>mem := (mem s1)\<lparr>rdram := rd'\<rparr>\<rparr>)))"

text \<open>The length registers: all ones is an empty transfer.\<close>

definition dma_start :: "bool \<Rightarrow> u32 \<Rightarrow> ('a rsp_state_scheme \<Rightarrow> 'a rsp_state_scheme) \<Rightarrow>
    'a rsp_state_scheme \<Rightarrow> 'a rsp_state_scheme" where
  "dma_start sync value dma s =
     (if value = 0xFFFFFFFF then map_rsp (\<lambda>r. r\<lparr>sp_dma := 0xFF8\<rparr>) s
      else dma (map_rsp (\<lambda>r. r\<lparr>sp_dma := value,
             sync_point := (if sync \<and> running_task r then True else sync_point r)\<rparr>) s))"

section \<open>The status register\<close>

definition status_flag :: "nat \<Rightarrow> bool \<Rightarrow> rsp_regs \<Rightarrow> rsp_regs" where
  "status_flag i b r = r\<lparr>sp_status := put_bit i b (sp_status r)\<rparr>"

definition rsp_halted :: "rsp_regs \<Rightarrow> bool" where
  "rsp_halted r = bit (sp_status r) SP_HALT"

text \<open>Flag \<open>i\<close> with a clear bit \<open>c\<close>, which wins, and a set bit \<open>c + 1\<close>.\<close>

definition sp_clear_set :: "u32 \<Rightarrow> nat \<Rightarrow> nat \<Rightarrow> u32 \<Rightarrow> u32" where
  "sp_clear_set v i c st =
     put_bit i (if bit v c then False else if bit v (c + 1) then True else bit st i) st"

definition status_bits_write :: "u32 \<Rightarrow> 'a rsp_state_scheme \<Rightarrow> 'a rsp_state_scheme" where
  "status_bits_write v s =
     (let s1 = (if bit v 0 \<and> \<not> bit v 1 then map_rsp (status_flag SP_HALT False) s else s);
          s2 = (if \<not> bit v 0 \<and> bit v 1
                then map_rsp (status_flag SP_HALT True) (cancel_named NE_Sp s1) else s1);
          s3 = (if bit v 2 then map_rsp (status_flag SP_BROKE False) s2 else s2);
          s4 = (if bit v 3 then lower_intr INTR_SP s3 else s3);
          s5 = (if bit v 4 then raise_intr INTR_SP s4 else s4)
      in map_rsp (\<lambda>r. r\<lparr>sp_status :=
           fold (\<lambda>k. sp_clear_set v (SP_SIGNAL_0 + k) (9 + 2 * k)) [0..<8]
             (sp_clear_set v SP_INTR_ON_BREAK 7 (sp_clear_set v SP_SSTEP 5 (sp_status r)))\<rparr>) s5)"

definition status_reg_write ::
  "('a rsp_state_scheme \<Rightarrow> 'a rsp_state_scheme res) \<Rightarrow> u32 \<Rightarrow> 'a rsp_state_scheme \<Rightarrow> 'a rsp_state_scheme res" where
  "status_reg_write task v s =
     (let was_halted = rsp_halted (rsp s); s1 = status_bits_write v s
      in if \<not> rsp_halted (rsp s1) \<and> was_halted
         then task (map_rsp (\<lambda>r. r\<lparr>broken := False, task_halted := False\<rparr>) s1)
         else ok s1)"

section \<open>COP0 of the RSP\<close>

definition sync_if :: "bool \<Rightarrow> rsp_regs \<Rightarrow> rsp_regs" where
  "sync_if cond r = (if running_task r \<and> cond then r\<lparr>sync_point := True\<rparr> else r)"

definition acquire_semaphore :: "bool \<Rightarrow> rsp_regs \<Rightarrow> u32 \<times> rsp_regs" where
  "acquire_semaphore sync r =
     (if semaphore_held r then (1, sync_if sync r) else (0, r\<lparr>semaphore_held := True\<rparr>))"

definition rsp_read_cp0 :: "u32 \<Rightarrow> 'a dpc_state_scheme \<Rightarrow> u32 \<times> 'a dpc_state_scheme" where
  "rsp_read_cp0 reg s =
     (let r = rsp s
      in if reg = 0 then (sp_mem_addr r, s)
         else if reg = 1 then (sp_dram_addr r, s)
         else if reg = 2 \<or> reg = 3 then (sp_dma r, s)
         else if reg = 4 then
           (let signals = sp_status r AND 0x7F80
            in (sp_status r, map_rsp (\<lambda>r. (sync_if (signals = last_status_signals r \<and> signals \<noteq> 0) r)
                  \<lparr>last_status_signals := signals\<rparr>) s))
         else if reg = 5 then (bf_get SP_DMA_FULL 1 (sp_status r), s)
         else if reg = 6 then (bf_get SP_DMA_BUSY 1 (sp_status r), s)
         else if reg = 7 then
           (case acquire_semaphore True r of (v, r') \<Rightarrow> (v, map_rsp (\<lambda>_. r') s))
         else if reg = 8 then (dpc_start (dpc s), s)
         else if reg = 9 then (dpc_end (dpc s), s)
         else if reg = 10 then (dpc_current (dpc s), s)
         else if reg = 11 then
           (let raw = dpc_status (dpc s); busy = raw AND 0x60
            in (raw, map_rsp (\<lambda>r. (sync_if (busy = last_dpc_busy r \<and> busy \<noteq> 0) r)
                  \<lparr>last_dpc_busy := busy\<rparr>) s))
         else (0, s))"

definition rsp_write_cp0 ::
  "('a dpc_state_scheme \<Rightarrow> 'a dpc_state_scheme res) \<Rightarrow> u32 \<Rightarrow> u32 \<Rightarrow> 'a dpc_state_scheme \<Rightarrow> 'a dpc_state_scheme res" where
  "rsp_write_cp0 task reg v s =
     (if reg = 0 then ok (map_rsp (\<lambda>r. r\<lparr>sp_shadow_mem_addr := v\<rparr>) s)
      else if reg = 1 then ok (map_rsp (\<lambda>r. r\<lparr>sp_shadow_dram_addr := v\<rparr>) s)
      else if reg = 2 then ok (dma_start True v rsp_dma_read s)
      else if reg = 3 then ok (dma_start True v rsp_dma_write s)
      else if reg = 4 then
        bindR (status_reg_write task v s) (\<lambda>s1.
          ok (if v AND 2 \<noteq> 0 \<and> v AND 1 = 0
              then map_rsp (\<lambda>r. (status_flag SP_HALT False r)\<lparr>task_halted := True, sync_point := True\<rparr>) s1
              else s1))
      else if reg = 7 then ok (map_rsp (\<lambda>r. r\<lparr>semaphore_held := False\<rparr>) s)
      else if reg = 8 then dpc_write_paddr32 0x04100000 v s
      else if reg = 9 then dpc_write_paddr32 0x04100004 v s
      else if reg = 11 then dpc_write_paddr32 0x0410000C v s
      else ok s)"

definition rsp_execute_cop0 ::
  "('a dpc_state_scheme \<Rightarrow> 'a dpc_state_scheme res) \<Rightarrow> u32 \<Rightarrow> 'a dpc_state_scheme \<Rightarrow> 'a dpc_state_scheme res" where
  "rsp_execute_cop0 task inst s =
     (if rsp_rs inst = 0x00 then
        (case rsp_read_cp0 (rsp_rd inst) s of (v, s1) \<Rightarrow> ok (map_rsp (rsp_set (rsp_rt inst) v) s1))
      else if rsp_rs inst = 0x04 then
        rsp_write_cp0 task (rsp_rd inst) (rsp_get (rsp_rt inst) (rsp s)) s
      else ok s)"

section \<open>Running\<close>

definition rsp_fetch :: "rsp_regs \<Rightarrow> rsp_handler \<times> u32" where
  "rsp_fetch r = imem_insns r (unat (drop_bit 2 (rsp_pc r AND 0xFFC)))"

definition rsp_advance :: "rsp_regs \<Rightarrow> rsp_regs" where
  "rsp_advance r = r\<lparr>rsp_pc := rsp_next_pc r, rsp_next_pc := (rsp_next_pc r + 4) AND 0xFFC,
     rsp_delay_slot := False\<rparr>"

definition rsp_handle ::
  "('a dpc_state_scheme \<Rightarrow> 'a dpc_state_scheme res) \<Rightarrow> rsp_handler \<Rightarrow> u32 \<Rightarrow> 'a dpc_state_scheme \<Rightarrow> 'a dpc_state_scheme res" where
  "rsp_handle task h inst s =
     (if h = Rsp_cop0 then rsp_execute_cop0 task inst s
      else bindR (rsp_local h inst (rsp s)) (\<lambda>r. ok (map_rsp (\<lambda>_. r) s)))"

definition rsp_step ::
  "('a dpc_state_scheme \<Rightarrow> 'a dpc_state_scheme res) \<Rightarrow> 'a dpc_state_scheme \<Rightarrow> 'a dpc_state_scheme res" where
  "rsp_step task s =
     (if rsp_halted (rsp s) then ok s
      else case rsp_fetch (rsp s) of (h, inst) \<Rightarrow>
        bindR (rsp_handle task h inst (map_rsp rsp_advance s)) (\<lambda>s1.
          ok (if bit (sp_status (rsp s1)) SP_SSTEP then map_rsp (status_flag SP_HALT True) s1 else s1)))"

definition rsp_stops :: "rsp_regs \<Rightarrow> bool" where
  "rsp_stops r \<longleftrightarrow> sync_point r \<or> broken r \<or> task_halted r \<or> rsp_halted r"

fun rsp_run ::
  "nat \<Rightarrow> ('a dpc_state_scheme \<Rightarrow> 'a dpc_state_scheme res) \<Rightarrow> 'a dpc_state_scheme \<Rightarrow> 'a dpc_state_scheme res" where
  "rsp_run 0 task s = ok s"
| "rsp_run (Suc n) task s =
     (if rsp_stops (rsp s) then ok s
      else bindR (rsp_step task s) (\<lambda>s1.
        rsp_run n task (map_rsp (\<lambda>r. r\<lparr>task_cycle_counter := task_cycle_counter r + 1\<rparr>) s1)))"

definition kMaxInsns :: nat where
  "kMaxInsns = 10000000"

definition run_until_sync ::
  "('a dpc_state_scheme \<Rightarrow> 'a dpc_state_scheme res) \<Rightarrow> 'a dpc_state_scheme \<Rightarrow> (u64 \<times> 'a dpc_state_scheme) res" where
  "run_until_sync task s =
     bindR (rsp_run kMaxInsns task (map_rsp (\<lambda>r. r\<lparr>broken := False, task_cycle_counter := 0,
                running_task := True, sync_point := False\<rparr>) s))
       (\<lambda>s1. ok ((task_cycle_counter (rsp s1) * 3) div 2, map_rsp (\<lambda>r. r\<lparr>running_task := False\<rparr>) s1))"

definition do_task_with ::
  "('a dpc_state_scheme \<Rightarrow> 'a dpc_state_scheme res) \<Rightarrow> 'a dpc_state_scheme \<Rightarrow> 'a dpc_state_scheme res" where
  "do_task_with task s =
     (let s1 = map_rsp (\<lambda>r. r\<lparr>sync_point := False, last_status_signals := 0, last_dpc_busy := 0\<rparr>) s
      in if bit (sp_status (rsp s1)) SP_DMA_BUSY then ok (map_rsp (\<lambda>r. r\<lparr>run_after_dma := True\<rparr>) s1)
         else bindR (run_until_sync task s1) (\<lambda>(timer_cycles, s2).
           ok (schedule_named NE_Sp timer_cycles On_sp_event s2)))"

text \<open>A nested start would be the error \<open>Unimplemented\<close>; none happens.\<close>

definition do_task :: "'a dpc_state_scheme \<Rightarrow> 'a dpc_state_scheme res" where
  "do_task = do_task_with (\<lambda>_. Inl Unimplemented)"

definition on_sp_event :: "'a dpc_state_scheme \<Rightarrow> 'a dpc_state_scheme res" where
  "on_sp_event s =
     (if broken (rsp s) then
        (let s1 = map_rsp (status_flag SP_BROKE True \<circ> status_flag SP_HALT True) s
         in ok (if bit (sp_status (rsp s1)) SP_INTR_ON_BREAK then raise_intr INTR_SP s1 else s1))
      else if task_halted (rsp s) then
        ok (map_rsp (\<lambda>r. (status_flag SP_HALT True r)\<lparr>task_halted := False\<rparr>) s)
      else if rsp_halted (rsp s) then ok s
      else do_task s)"

section \<open>Registers on the bus\<close>

definition rsp_read_paddr32 :: "u32 \<Rightarrow> 'a rsp_state_scheme \<Rightarrow> (u32 \<times> 'a rsp_state_scheme) res" where
  "rsp_read_paddr32 paddr s =
     (let r = rsp s
      in if paddr = 0x04040000 then ok (sp_mem_addr r, s)
         else if paddr = 0x04040004 then ok (sp_dram_addr r, s)
         else if paddr = 0x04040008 \<or> paddr = 0x0404000C then ok (sp_dma r, s)
         else if paddr = 0x04040010 then ok (sp_status r, s)
         else if paddr = 0x04040014 then ok (bf_get SP_DMA_FULL 1 (sp_status r), s)
         else if paddr = 0x04040018 then ok (bf_get SP_DMA_BUSY 1 (sp_status r), s)
         else if paddr = 0x0404001C then
           (case acquire_semaphore False r of (v, r') \<Rightarrow> ok (v, map_rsp (\<lambda>_. r') s))
         else if paddr = 0x04080000 then ok (ucast (rsp_pc r AND 0xFFC), s)
         else if paddr = 0x04080004 then ok (0, s)
         else Inl Aborted)"

definition rsp_write_paddr32 :: "u32 \<Rightarrow> u32 \<Rightarrow> 'a dpc_state_scheme \<Rightarrow> 'a dpc_state_scheme res" where
  "rsp_write_paddr32 paddr v s =
     (if paddr = 0x04040000 then ok (map_rsp (\<lambda>r. r\<lparr>sp_shadow_mem_addr := v\<rparr>) s)
      else if paddr = 0x04040004 then ok (map_rsp (\<lambda>r. r\<lparr>sp_shadow_dram_addr := v\<rparr>) s)
      else if paddr = 0x04040008 then ok (dma_start False v rsp_dma_read s)
      else if paddr = 0x0404000C then ok (dma_start False v rsp_dma_write s)
      else if paddr = 0x04040010 then status_reg_write do_task v s
      else if paddr = 0x04040014 \<or> paddr = 0x04040018 then ok s
      else if paddr = 0x0404001C then ok (map_rsp (\<lambda>r. r\<lparr>semaphore_held := False\<rparr>) s)
      else if paddr = 0x04080000 then ok (map_rsp (rsp_set_pc (ucast v)) s)
      else if paddr = 0x04080004 then ok s
      else Inl Aborted)"

end
