(* ===== verification/Rsp_Imem.thy ===== *)
theory Rsp_Imem
  imports Rsp
begin

text \<open>
  The table of decoded IMEM words is the decoding of IMEM: every instruction keeps both, every writer
  of IMEM refreshes the words it wrote, so the handler that \<open>Rsp::step\<close> calls is always that of the
  word in memory. Also: the inner start of a task is never reached, and a task schedules its event.
\<close>

section \<open>What the local instructions leave alone\<close>

text \<open>IMEM, its table and the registers of the device side.\<close>

definition device_view where
  "device_view (r :: rsp_regs) = (sp_imem r, imem_insns r, sp_status r,
     (sp_mem_addr r, sp_dram_addr r, sp_shadow_mem_addr r, sp_shadow_dram_addr r, sp_dma r),
     (semaphore_held r, task_halted r, running_task r, task_cycle_counter r))"

lemma view_updates [simp]:
  "device_view (put_lane vd i x r) = device_view r" "device_view (acc_set i v r) = device_view r"
  "device_view (set_acc_l i w r) = device_view r" "device_view (set_vcc_bit i b c r) = device_view r"
  "device_view (set_vco_bit i b c r) = device_view r" "device_view (set_vce_bit i b r) = device_view r"
  "device_view (rsp_set k u r) = device_view r" "device_view (set_vreg k q r) = device_view r"
  "device_view (dmem_put a e r) = device_view r" "device_view (rsp_branch t r) = device_view r"
  "device_view (rsp_delay r) = device_view r" "device_view (take_break r) = device_view r"
  "device_view (r\<lparr>vco := t\<rparr>) = device_view r" "device_view (r\<lparr>vcc := t\<rparr>) = device_view r"
  "device_view (r\<lparr>vce := e\<rparr>) = device_view r" "device_view (r\<lparr>rsp_delay_slot := b\<rparr>) = device_view r"
  "device_view (r\<lparr>divin := t\<rparr>) = device_view r" "device_view (r\<lparr>divout := t\<rparr>) = device_view r"
  "device_view (r\<lparr>divin_loaded := b\<rparr>) = device_view r"
  by (simp_all add: device_view_def put_lane_def acc_set_def set_acc_l_def set_vcc_bit_def set_vco_bit_def
      set_vce_bit_def rsp_set_def set_vreg_def dmem_put_def rsp_branch_def rsp_delay_def take_break_def)

lemma view_fold [simp]:
  "(\<And>i q. device_view (f i q) = device_view q) \<Longrightarrow> device_view (fold f xs r) = device_view r"
  by (induction xs arbitrary: r) simp_all

lemma view_for_lanes [simp]:
  "(\<And>i q. device_view (f i q) = device_view q) \<Longrightarrow> device_view (for_lanes f r) = device_view r"
  by (simp add: for_lanes_def)

lemmas lane_defs = lane_mulf_def lane_vrnd_def lane_vmulq_def lane_vmacq_def lane_mudl_def lane_mudm_def
  lane_mudn_def lane_mudh_def lane_vadd_def lane_vsub_def lane_vabs_def lane_vaddc_def lane_vsubc_def
  lane_vsar_def lane_compare_def lane_vmrg_def lane_logic_def lane_vzero_def lane_vcr_def

lemma view_lanes [simp]:
  "device_view (lane_mulf op vd s t i r) = device_view r" "device_view (lane_vrnd op vs vd t i r) = device_view r"
  "device_view (lane_vmulq vd s t i r) = device_view r" "device_view (lane_vmacq vd i r) = device_view r"
  "device_view (lane_mudl op vd s t i r) = device_view r" "device_view (lane_mudm op vd s t i r) = device_view r"
  "device_view (lane_mudn op vd s t i r) = device_view r" "device_view (lane_mudh op vd s t i r) = device_view r"
  "device_view (lane_vadd vd s t i r) = device_view r" "device_view (lane_vsub vd s t i r) = device_view r"
  "device_view (lane_vabs vd s t i r) = device_view r" "device_view (lane_vaddc vd s t i r) = device_view r"
  "device_view (lane_vsubc vd s t i r) = device_view r" "device_view (lane_vsar e vd i r) = device_view r"
  "device_view (lane_compare op vd s t i r) = device_view r" "device_view (lane_vmrg vd s t i r) = device_view r"
  "device_view (lane_logic op vd s t i r) = device_view r" "device_view (lane_vzero vd s t i r) = device_view r"
  "device_view (lane_vcr vd s t i r) = device_view r"
  by (simp_all add: lane_defs Let_def)

lemma view_vch [simp]: "device_view (lane_vch vd s t i r) = device_view r"
  by (simp add: lane_vch_def Let_def)

lemma view_vcl [simp]: "device_view (lane_vcl vd s t i r) = device_view r"
  by (simp add: lane_vcl_def Let_def)

lemma view_reciprocal:
  "holds_ok (\<lambda>q. device_view q = device_view r) (vu_reciprocal op vs vd e src vt r)"
  by (auto simp: vu_reciprocal_def Let_def acc_l_from_def holds_ok_def bindR_def split: sum.splits)

lemma view_vmov [simp]: "device_view (vu_vmov vs vd e src vt r) = device_view r"
  by (simp add: vu_vmov_def acc_l_from_def)

lemma view_compute: "holds_ok (\<lambda>q. device_view q = device_view r) (vu_execute_compute inst r)"
  unfolding vu_execute_compute_def Let_def
  by (simp add: view_reciprocal)

lemma view_stores [simp]:
  "device_view (dmem_store8 a b r) = device_view r" "device_view (dmem_store16 a h r) = device_view r"
  "device_view (dmem_store32 a w r) = device_view r" "device_view (dmem_bulk_store a src n r) = device_view r"
  by (simp_all add: dmem_store8_def dmem_store16_def dmem_store32_def Let_def) (induction n, simp_all)

lemma view_vu_load [simp]: "device_view (vu_load inst r) = device_view r"
  by (simp add: vu_load_def Let_def load_ltv_def)

lemma view_vu_store [simp]: "device_view (vu_store inst r) = device_view r"
  by (simp add: vu_store_def Let_def store_run_def store_ssv_def store_sqv_def store_srv_def
      store_packed_def store_shv_def store_sfv_def store_swv_def store_stv_def)

lemmas scalar_defs = rsp_op_j_def rsp_op_jal_def rsp_op_beq_def rsp_op_bne_def rsp_op_blez_def
  rsp_op_bgtz_def execute_regimm_def rsp_spec_jr_def rsp_spec_jalr_def rsp_op_addi_def rsp_op_slti_def
  rsp_op_sltiu_def rsp_op_andi_def rsp_op_ori_def rsp_op_xori_def rsp_op_lui_def rsp_op_lb_def
  rsp_op_lbu_def rsp_op_lh_def rsp_op_lhu_def rsp_op_lw_def rsp_op_sb_def rsp_op_sh_def rsp_op_sw_def
  rsp_spec_sll_def rsp_spec_srl_def rsp_spec_sra_def rsp_spec_sllv_def rsp_spec_srlv_def
  rsp_spec_srav_def rsp_spec_add_def rsp_spec_sub_def rsp_spec_and_def rsp_spec_or_def
  rsp_spec_xor_def rsp_spec_nor_def rsp_spec_slt_def rsp_spec_sltu_def rsp_mfc2_def rsp_cfc2_def
  rsp_mtc2_def rsp_ctc2_def

lemma view_branch_if [simp]: "device_view (rsp_branch_if c inst r) = device_view r"
  by (simp add: rsp_branch_if_def)

lemma view_cop2: "holds_ok (\<lambda>q. device_view q = device_view r) (execute_cop2 inst r)"
  by (simp add: execute_cop2_def Let_def view_compute scalar_defs)

lemma view_local: "holds_ok (\<lambda>q. device_view q = device_view r) (rsp_local h inst r)"
  by (cases h) (simp_all add: rsp_local_def view_cop2 scalar_defs Let_def)

section \<open>The table follows IMEM\<close>

definition imem_ok :: "rsp_regs \<Rightarrow> bool" where
  "imem_ok r \<longleftrightarrow> (\<forall>k < 1024. imem_insns r k = (rsp_decode_opcode (imem_word k r), imem_word k r))"

text \<open>The word of the table that an address names.\<close>

definition word_index :: "u32 \<Rightarrow> nat" where
  "word_index a = unat (drop_bit 2 (a AND 0xFFC))"

lemma low12_index: "unat (x AND 0xFFF) = unat x mod 4096" for x :: u32
  using unat_and_mask [of x 12] by (simp add: mask_eq_exp_minus_1)

lemma word_index_eq: "word_index a = unat a mod 4096 div 4"
proof -
  have d: "unat (drop_bit 2 y) = unat y div 4" for y :: u32
    using unat_drop_bit_eq [of 2 y] unfolding drop_bit_eq_div [where 'a = nat] by (simp only: power2_eq_square) simp
  have "drop_bit 2 (a AND 0xFFC) = drop_bit 2 a AND drop_bit 2 0xFFC" by (rule drop_bit_and)
  moreover have "drop_bit 2 (a AND 0xFFF) = drop_bit 2 a AND drop_bit 2 0xFFF" by (rule drop_bit_and)
  moreover have "drop_bit 2 (0xFFC :: u32) = drop_bit 2 0xFFF" by simp
  ultimately have "drop_bit 2 (a AND 0xFFC) = drop_bit 2 (a AND 0xFFF)" by (simp only:)
  then show ?thesis by (simp only: word_index_def d low12_index)
qed

lemma refresh_word_simps [simp]:
  "sp_imem (refresh_imem_word a r) = sp_imem r" "imem_word k (refresh_imem_word a r) = imem_word k r"
  "imem_insns (refresh_imem_word a r) = (imem_insns r)(word_index a :=
     (rsp_decode_opcode (imem_word (word_index a) r), imem_word (word_index a) r))"
  by (simp_all add: refresh_imem_word_def Let_def imem_word_def word_index_def)

lemma refresh_words_imem [simp]:
  "sp_imem (refresh_words n a r) = sp_imem r" "imem_word k (refresh_words n a r) = imem_word k r"
  by (induction n arbitrary: a r) (simp_all add: imem_word_def)

lemma refresh_words_table:
  "imem_insns (refresh_words n a r) k =
     (if \<exists>i<n. k = word_index (a + 4 * word_of_nat i)
      then (rsp_decode_opcode (imem_word k r), imem_word k r) else imem_insns r k)"
proof (induction n arbitrary: a r)
  case (Suc n)
  have "(\<exists>i<Suc n. k = word_index (a + 4 * word_of_nat i)) \<longleftrightarrow>
      k = word_index a \<or> (\<exists>i<n. k = word_index (a + 4 + 4 * word_of_nat i))"
    by (subst Ex_less_Suc2) (simp add: algebra_simps)
  then show ?case using Suc.IH [of "a + 4" "refresh_imem_word a r"] by auto
qed simp

lemma imem_ok_refresh:
  assumes "imem_ok r" and "imem_insns r' = imem_insns r"
    and same: "\<And>k. k < 1024 \<Longrightarrow> \<nexists>i. i < n \<and> k = word_index (a + 4 * word_of_nat i) \<Longrightarrow>
      imem_word k r' = imem_word k r"
  shows "imem_ok (refresh_words n a r')"
  using assms unfolding imem_ok_def refresh_words_table refresh_words_imem by (metis (no_types, lifting))

lemma rebuild_ok: "imem_ok (rebuild_imem_cache r)"
proof -
  have "k = word_index (0 + 4 * word_of_nat k)" if "k < 1024" for k
  proof -
    have "unat (4 * word_of_nat k :: u32) = 4 * k"
      using that by (simp add: unat_word_ariths unat_of_nat take_bit_nat_eq_self)
    then show ?thesis using that by (simp add: word_index_eq)
  qed
  then have "\<exists>i<1024. k = word_index (0 + 4 * word_of_nat i)" if "k < 1024" for k using that by blast
  then show ?thesis by (simp add: imem_ok_def rebuild_imem_cache_def refresh_words_table)
qed

text \<open>A DMA row into IMEM and the refresh of its words.\<close>

lemma fold_bytes_other:
  "i \<notin> f ` set xs \<Longrightarrow> bytes_at (fold (\<lambda>j. bytes_set (f j) (g j)) xs b) i = bytes_at b i"
  by (induction xs arbitrary: b) auto

lemma row_word:
  assumes "4 dvd unat m" "unat m + unat len < 2 ^ 32" "j < unat len"
  shows "(unat m + j) mod 4096 div 4 = word_index (m + 4 * word_of_nat (j div 4))"
proof -
  have le: "4 * (j div 4) \<le> j" by simp
  have w: "unat (4 * word_of_nat (j div 4) :: u32) = 4 * (j div 4)"
    using assms le by (simp add: unat_word_ariths unat_of_nat take_bit_nat_eq_self mult.commute)
  have "unat m + 4 * (j div 4) < 2 ^ 32" using assms(2,3) le by linarith
  then have "unat (m + 4 * word_of_nat (j div 4)) = unat m + 4 * (j div 4)"
    using unat_word_ariths(1) [of m "4 * word_of_nat (j div 4)"] unfolding w by simp
  moreover have "x mod 4096 div 4 = x div 4 mod 1024" for x :: nat
    using mod_mult2_eq [of x 4 1024] by simp
  moreover obtain q where "unat m = 4 * q" using assms(1) by blast
  ultimately show ?thesis by (simp add: word_index_eq)
qed

lemma imem_ok_row:
  assumes r: "imem_ok r" and m: "4 dvd unat m" "unat m + unat len < 2 ^ 32" and "0 < len"
  shows "imem_ok (note_imem_written m len (set_sp_mem True (row_in True rd dram m len (sp_mem True r)) r))"
proof -
  let ?b = "row_in True rd dram m len (sp_mem True r)"
  let ?n = "(unat len + 3) div 4"
  have "imem_ok (refresh_words ?n m (set_sp_mem True ?b r))"
  proof (rule imem_ok_refresh [OF r])
    fix k
    assume k: "k < 1024" and no: "\<nexists>i. i < ?n \<and> k = word_index (m + 4 * word_of_nat i)"
    have out: "4 * k + c \<notin> (\<lambda>j. sp_index True (m + word_of_nat j)) ` set [0..<unat len]" if "c < 4" for c
    proof
      assume "4 * k + c \<in> (\<lambda>j. sp_index True (m + word_of_nat j)) ` set [0..<unat len]"
      then obtain j where j: "j < unat len" "4 * k + c = sp_index True (m + word_of_nat j)" by auto
      have "unat (m + word_of_nat j) = unat m + j"
        using j(1) m(2) by (simp add: unat_word_ariths unat_of_nat take_bit_nat_eq_self)
      then have "4 * k + c = (unat m + j) mod 4096" using j(2) by (simp add: sp_index_def low12_index)
      then have "k = (unat m + j) mod 4096 div 4" using that by simp
      then have "k = word_index (m + 4 * word_of_nat (j div 4))" using row_word [OF m j(1)] by simp
      moreover have "j div 4 < ?n" using j(1) by simp
      ultimately show False using no by blast
    qed
    show "imem_word k (set_sp_mem True ?b r) = imem_word k r"
      using out [of 0] out [of 1] out [of 2] out [of 3]
      by (simp add: imem_word_def le32_at_def set_sp_mem_def sp_mem_def row_in_def fold_bytes_other)
  qed (simp add: set_sp_mem_def)
  moreover have "len \<noteq> 0" using \<open>0 < len\<close> by auto
  ultimately show ?thesis by (simp add: note_imem_written_def)
qed

section \<open>Every operation keeps the table\<close>

text \<open>\<open>evolves r r'\<close>: the table stays right, and only the run loop counts cycles.\<close>

definition evolves :: "rsp_regs \<Rightarrow> rsp_regs \<Rightarrow> bool" where
  "evolves r r' \<longleftrightarrow> (imem_ok r \<longrightarrow> imem_ok r') \<and> task_cycle_counter r' = task_cycle_counter r"

lemma evolves_refl [simp]: "evolves r r"
  by (simp add: evolves_def)

lemma evolves_trans: "evolves r r' \<Longrightarrow> evolves r' r'' \<Longrightarrow> evolves r r''"
  by (simp add: evolves_def)

lemma imem_ok_cong: "sp_imem r = sp_imem r' \<Longrightarrow> imem_insns r = imem_insns r' \<Longrightarrow> imem_ok r = imem_ok r'"
  by (simp add: imem_ok_def imem_word_def)

lemma imem_ok_updates [simp]:
  "imem_ok (r\<lparr>task_cycle_counter := c\<rparr>) = imem_ok r" "imem_ok (r\<lparr>running_task := b\<rparr>) = imem_ok r"
  "imem_ok (r\<lparr>broken := b\<rparr>) = imem_ok r" "imem_ok (r\<lparr>sync_point := b\<rparr>) = imem_ok r"
  "imem_ok (r\<lparr>task_halted := b\<rparr>) = imem_ok r" "imem_ok (r\<lparr>run_after_dma := b\<rparr>) = imem_ok r"
  "imem_ok (r\<lparr>last_status_signals := v\<rparr>) = imem_ok r" "imem_ok (r\<lparr>last_dpc_busy := v\<rparr>) = imem_ok r"
  "imem_ok (status_flag i b r) = imem_ok r"
  by (rule imem_ok_cong; simp add: status_flag_def)+

lemma evolves_same:
  "sp_imem r = sp_imem r' \<Longrightarrow> imem_insns r = imem_insns r' \<Longrightarrow>
   task_cycle_counter r = task_cycle_counter r' \<Longrightarrow> evolves r r'"
  using imem_ok_cong [of r r'] by (simp add: evolves_def)

lemma evolves_view: "device_view r' = device_view r \<Longrightarrow> evolves r r'"
  by (rule evolves_same) (simp_all add: device_view_def)

lemma note_imem_counter [simp]: "task_cycle_counter (note_imem_written m len r) = task_cycle_counter r"
proof -
  have "task_cycle_counter (refresh_words n a r) = task_cycle_counter r" for n a
    by (induction n arbitrary: a r) (simp_all add: refresh_imem_word_def Let_def)
  then show ?thesis by (simp add: note_imem_written_def)
qed

lemma dma_len_bounds: "0 < dma_len r" "unat (dma_len r) \<le> 4096" "8 dvd unat (dma_len r)"
proof -
  let ?x = "bf_get 0 12 (sp_dma r)" let ?l = "?x + 1 + 7"
  have "?x = take_bit 12 (sp_dma r)" by (simp add: bf_get_def)
  then have x: "unat ?x < 4096" using take_bit_nat_less_exp [of 12 "unat (sp_dma r)"]
    by (simp add: unsigned_take_bit_eq)
  then have l: "unat ?l = unat ?x + 8" by (simp add: unat_word_ariths)
  have "?l AND NOT 7 = ?l AND NOT (mask 3)" by (simp add: mask_eq_exp_minus_1)
  also have "\<dots> = push_bit 3 (drop_bit 3 ?l)"
    by (rule bit_word_eqI) (auto simp: bit_and_iff bit_not_iff bit_mask_iff bit_push_bit_iff bit_drop_bit_eq)
  finally have "dma_len r = push_bit 3 (drop_bit 3 ?l)" by (simp add: dma_len_def)
  moreover have "unat (drop_bit 3 ?l) = unat ?l div 8"
    using unat_drop_bit_eq [of 3 ?l] unfolding drop_bit_eq_div [where 'a = nat] by (simp only: power3_eq_cube) simp
  ultimately have u: "unat (dma_len r) = 8 * (unat ?l div 8)"
    using l x by (simp add: push_bit_eq_mult unat_word_ariths)
  then show "unat (dma_len r) \<le> 4096" "8 dvd unat (dma_len r)" using l x by simp_all
  have "0 < unat (dma_len r)" using u l by simp
  then show "0 < dma_len r" by (simp add: word_less_nat_alt)
qed

lemma mask_FF8: "unat (x AND RSP_MEM_ADDR_MASK) \<le> 0xFF8" "8 dvd unat (x AND RSP_MEM_ADDR_MASK)"
proof -
  have "x AND 0xFF8 \<le> 0xFF8" by (rule word_and_le1)
  then show "unat (x AND RSP_MEM_ADDR_MASK) \<le> 0xFF8" by (simp add: word_le_nat_alt)
  have "(x AND 0xFF8) AND 0x00FFFFF8 = x AND 0xFF8" by (simp add: and.assoc)
  then show "8 dvd unat (x AND RSP_MEM_ADDR_MASK)" by (rule aligned8)
qed

declare rows_in.simps [simp del] rows_out.simps [simp del]

lemma evolves_rows_in:
  assumes "8 dvd unat m" "unat m \<le> 0xFF8" "0 < len" "unat len \<le> 4096"
  shows "evolves r (snd (snd (rows_in k imem rd len skip dram m r)))"
  using assms(1,2)
proof (induction k arbitrary: dram m r)
  case (Suc k)
  let ?r = "set_sp_mem imem (row_in imem rd dram m len (sp_mem imem r)) r"
  have "(4 :: nat) dvd 8" by simp
  with Suc.prems(1) have m4: "4 dvd unat m" by (rule dvd_trans [rotated])
  have "evolves r (if imem then note_imem_written m len ?r else ?r)"
  proof (cases imem)
    case True
    then show ?thesis using imem_ok_row [of r m len rd dram] m4 assms(3,4) Suc.prems(2)
      by (simp add: evolves_def set_sp_mem_def)
  next
    case False
    then show ?thesis by (simp add: set_sp_mem_def evolves_same)
  qed
  then show ?case unfolding rows_in.simps Let_def
    by (rule evolves_trans) (rule Suc.IH [OF mask_FF8(2) mask_FF8(1)])
qed (simp add: rows_in.simps)

lemma evolves_dma_finish: "evolves r r' \<Longrightarrow> evolves r (dma_finish d m i sk r')"
  by (erule evolves_trans) (simp add: dma_finish_def evolves_same)

lemma rsp_other_devices [simp]:
  "rsp (check_framebuffers a l s) = rsp s" "rsp (on_rdram_write a l s) = rsp s"
  "rsp (maybe_invalidate_code a l s) = rsp s" "rsp (raise_intr i s) = rsp s" "rsp (lower_intr i s) = rsp s"
  "rsp (cancel_named e s) = rsp s" "rsp (schedule_named e c cb s) = rsp s"
  for s :: "'a rsp_state_scheme"
  by (simp_all add: check_framebuffers_def on_rdram_write_def maybe_mark_vi_fb_dirty_def map_rdp_def Let_def
      maybe_invalidate_code_def map_dcache_def raise_intr_def lower_intr_def check_interrupt_def
      set_cause_def set_mi_intr_def cancel_named_def schedule_named_def set_named_def split: code_hook.splits)

lemma evolves_dma_read: "evolves (rsp s) (rsp (rsp_dma_read s))"
  using evolves_rows_in [OF mask_FF8(2) mask_FF8(1) dma_len_bounds(1) dma_len_bounds(2)]
  by (simp add: rsp_dma_read_def Let_def dma_mem_start_def split_beta evolves_dma_finish)

lemma evolves_dma_write: "evolves (rsp s) (rsp (rsp_dma_write s))"
  by (simp add: rsp_dma_write_def Let_def split_beta evolves_dma_finish)

lemma evolves_dma_start:
  assumes "\<And>s. evolves (rsp s) (rsp (dma s))"
  shows "evolves (rsp s) (rsp (dma_start sync v dma s))"
proof -
  let ?s = "map_rsp (\<lambda>r. r\<lparr>sp_dma := v, sync_point := (if sync \<and> running_task r then True else sync_point r)\<rparr>) s"
  have "evolves (rsp s) (rsp ?s)" by (simp add: evolves_same)
  then have "evolves (rsp s) (rsp (dma ?s))" by (rule evolves_trans) (rule assms)
  then show ?thesis by (simp add: dma_start_def evolves_same)
qed

section \<open>The display processor leaves the RSP alone\<close>

text \<open>What the display processor's registers change is its own state and the interrupt: an observation
  that these do not affect survives every register write.\<close>

locale dpc_observer =
  fixes obs :: "'a dpc_state_scheme \<Rightarrow> 'v"
  assumes obs_rdp: "obs (map_rdp f s) = obs s"
    and obs_dpc: "obs (map_dpc g s) = obs s"
    and obs_raise: "obs (raise_intr i s) = obs s"
begin

lemma obs_flag: "obs (dpc_flag i b s) = obs s"
  by (simp add: dpc_flag_def obs_dpc)

lemma obs_one_command: "obs (run_one_command ws s) = obs s"
  by (simp add: run_one_command_def enqueue_command_def on_full_sync_def Let_def obs_rdp obs_flag obs_raise)

lemma obs_run_commands: "obs (snd (run_commands ws s)) = obs s"
proof -
  have "obs (fold run_one_command cs t) = obs t" for cs t
    by (induction cs arbitrary: t) (simp_all add: obs_one_command)
  then show ?thesis by (simp add: run_commands_split)
qed

lemma obs_process_list: "holds_ok (\<lambda>s'. obs s' = obs s) (process_list s)"
  by (auto simp: process_list_def Let_def split_beta check_framebuffers_def obs_flag obs_dpc obs_rdp obs_run_commands
      intro!: holds_ok_bindR [where Q = "\<lambda>_. True"])
    (auto simp: holds_ok_def split: sum.splits)

lemma obs_run_command: "holds_ok (\<lambda>s'. obs s' = obs s) (run_command s)"
  using obs_process_list [of "dpc_flag DPC_START_GCLK True (dpc_flag DPC_PIPE_BUSY True s)"]
  by (auto simp: run_command_def Let_def obs_flag intro!: holds_ok_bindR [where Q = "\<lambda>s'. obs s' = obs s"])

lemma obs_dpc_write: "holds_ok (\<lambda>s'. obs s' = obs s) (dpc_write_paddr32 p v s)"
proof -
  have c: "obs (dpc_clear_set i a b v t) = obs t" for i a b t
    by (simp add: dpc_clear_set_def Let_def obs_flag)
  have r: "obs t = obs s \<Longrightarrow> holds_ok (\<lambda>s'. obs s' = obs s) (run_command t)" for t
    using obs_run_command [of t] by simp
  have "holds_ok (\<lambda>s'. obs s' = obs s) (dpc_status_write v s)"
    unfolding dpc_status_write_def Let_def by (auto intro!: r simp: c obs_flag obs_dpc)
  moreover have "holds_ok (\<lambda>s'. obs s' = obs s) (dpc_write_end v s)"
    unfolding dpc_write_end_def Let_def by (rule r) (simp add: obs_flag obs_dpc)
  ultimately show ?thesis by (simp add: dpc_write_paddr32_def dpc_write_start_def obs_flag obs_dpc)
qed

end

interpretation rsp_seen: dpc_observer rsp
  by unfold_locales (simp_all add: map_rdp_def map_dpc_def raise_intr_def check_interrupt_def set_cause_def set_mi_intr_def)

lemmas rsp_dpc_write = rsp_seen.obs_dpc_write

section \<open>Registers, steps and tasks\<close>

lemma evolves_flag [simp]: "evolves r (status_flag i b r)" "evolves r (sync_if c r)"
  by (simp_all add: evolves_same status_flag_def sync_if_def)

lemma evolves_acquire: "evolves r (snd (acquire_semaphore b r))"
  by (simp add: acquire_semaphore_def evolves_same)

lemma status_bits_imem:
  "sp_imem (rsp (status_bits_write v s)) = sp_imem (rsp s)"
  "imem_insns (rsp (status_bits_write v s)) = imem_insns (rsp s)"
  "task_cycle_counter (rsp (status_bits_write v s)) = task_cycle_counter (rsp s)"
  by (simp_all add: status_bits_write_def Let_def status_flag_def)

lemma status_write_running:
  "\<not> rsp_halted (rsp s) \<Longrightarrow> status_reg_write task v s = ok (status_bits_write v s)"
  by (simp add: status_reg_write_def Let_def)

text \<open>While the RSP runs, no instruction reaches the inner start of a task.\<close>

lemma handle_task:
  "\<not> rsp_halted (rsp s) \<Longrightarrow> rsp_handle task h inst s = rsp_handle task' h inst s"
  by (simp add: rsp_handle_def rsp_execute_cop0_def rsp_write_cp0_def status_write_running)

lemma step_task: "rsp_step task = rsp_step task'"
proof (rule ext)
  fix s :: "'a dpc_state_scheme"
  show "rsp_step task s = rsp_step task' s"
  proof (cases "rsp_halted (rsp s)")
    case False
    then have "\<not> rsp_halted (rsp (map_rsp rsp_advance s))" by (simp add: rsp_advance_def rsp_halted_def)
    note h = handle_task [OF this, where task = task and task' = task']
    show ?thesis by (simp add: rsp_step_def split_beta h)
  qed (simp add: rsp_step_def)
qed

lemma run_task: "rsp_run n task s = rsp_run n task' s"
  by (induction n arbitrary: s) (simp_all add: step_task [of task task'])

text \<open>C38: The recursion between starting a task, running it and writing the status register never
  nests: \<open>do_task\<close>, defined with an inner start that fails, satisfies the equation of the source, in
  which the inner start is \<open>do_task\<close> itself.\<close>

theorem do_task_recursive: "do_task = do_task_with do_task"
proof -
  have "run_until_sync t = run_until_sync t'" for t t' :: "'a dpc_state_scheme \<Rightarrow> 'a dpc_state_scheme res"
    by (rule ext) (simp add: run_until_sync_def run_task [of _ t _ t'])
  then have "do_task_with t s = do_task_with t' s" for s and t t' :: "'a dpc_state_scheme \<Rightarrow> 'a dpc_state_scheme res"
    unfolding do_task_with_def by metis
  then have "do_task_with t = do_task_with t'" for t t' :: "'a dpc_state_scheme \<Rightarrow> 'a dpc_state_scheme res"
    by (rule ext)
  then show ?thesis unfolding do_task_def by blast
qed

lemma evolves_cp0_read: "evolves (rsp s) (rsp (snd (rsp_read_cp0 reg s)))"
proof -
  have a: "evolves r ((sync_if c r)\<lparr>last_status_signals := x\<rparr>)" "evolves r ((sync_if c r)\<lparr>last_dpc_busy := x\<rparr>)" for r c x
    by (simp_all add: evolves_same sync_if_def)
  show ?thesis using evolves_acquire [of "rsp s" True]
    by (simp add: rsp_read_cp0_def Let_def split_beta a)
qed

lemma evolves_cp0_write:
  assumes "\<not> rsp_halted (rsp s)"
  shows "holds_ok (\<lambda>s'. evolves (rsp s) (rsp s')) (rsp_write_cp0 task reg v s)"
proof -
  have d: "holds_ok (\<lambda>s'. evolves (rsp s) (rsp s')) (dpc_write_paddr32 p v s)" for p
    using rsp_dpc_write [of s p v] by (auto simp: holds_ok_iff)
  have st: "evolves (rsp s) (rsp (status_bits_write v s))"
    by (rule evolves_same) (simp_all add: status_bits_imem)
  have h: "evolves (rsp s) ((status_flag SP_HALT False (rsp (status_bits_write v s)))\<lparr>task_halted := True, sync_point := True\<rparr>)"
    by (rule evolves_trans [OF st]) (rule evolves_same, simp_all add: status_flag_def)
  show ?thesis using d
    by (simp add: rsp_write_cp0_def status_write_running [OF assms] st h evolves_same
        evolves_dma_start evolves_dma_read evolves_dma_write)
qed

lemma evolves_handle:
  assumes "\<not> rsp_halted (rsp s)"
  shows "holds_ok (\<lambda>s'. evolves (rsp s) (rsp s')) (rsp_handle task h inst s)"
proof (cases "h = Rsp_cop0")
  case True
  have "evolves r (rsp_set i v r)" for i v r by (rule evolves_view) simp
  then have "evolves (rsp s) (rsp_set i v (rsp (snd (rsp_read_cp0 reg s))))" for i v reg
    using evolves_cp0_read evolves_trans by blast
  with True show ?thesis using evolves_cp0_write [OF assms]
    by (simp add: rsp_handle_def rsp_execute_cop0_def split_beta)
next
  case False
  then show ?thesis using view_local [of "rsp s" h inst]
    by (auto simp: rsp_handle_def holds_ok_iff bindR_eq_Inr intro: evolves_view)
qed

lemma evolves_step: "holds_ok (\<lambda>s'. evolves (rsp s) (rsp s')) (rsp_step task s)"
proof (cases "rsp_halted (rsp s)")
  case False
  let ?s = "map_rsp rsp_advance s"
  have a: "evolves (rsp s) (rsp ?s)" by (simp add: evolves_same rsp_advance_def)
  have "\<not> rsp_halted (rsp ?s)" using False by (simp add: rsp_advance_def rsp_halted_def)
  note h = evolves_handle [OF this]
  have f: "evolves r (status_flag i b q)" if "evolves r q" for r q i b
    using that evolves_flag(1) by (rule evolves_trans)
  have "evolves (rsp s) (rsp x)" if "rsp_handle task h inst ?s = Inr x" for h inst x
    using evolves_trans [OF a] h [of task h inst] that by (simp add: holds_ok_def)
  then show ?thesis using False f
    by (auto simp: rsp_step_def split_beta holds_ok_iff bindR_eq_Inr)
qed (simp add: rsp_step_def)

text \<open>The run loop adds at most one cycle for each instruction it may run.\<close>

lemma run_bounds:
  "unat (task_cycle_counter (rsp s)) + n < 2 ^ 64 \<Longrightarrow>
   holds_ok (\<lambda>s'. (imem_ok (rsp s) \<longrightarrow> imem_ok (rsp s')) \<and>
     unat (task_cycle_counter (rsp s')) \<le> unat (task_cycle_counter (rsp s)) + n) (rsp_run n task s)"
proof (induction n arbitrary: s)
  case (Suc n)
  show ?case
  proof (cases "rsp_stops (rsp s)")
    case False
    have "(imem_ok (rsp s) \<longrightarrow> imem_ok (rsp s')) \<and>
        unat (task_cycle_counter (rsp s')) \<le> unat (task_cycle_counter (rsp s)) + Suc n"
      if st: "rsp_step task s = Inr t"
        and run: "rsp_run n task (map_rsp (\<lambda>r. r\<lparr>task_cycle_counter := task_cycle_counter r + 1\<rparr>) t) = Inr s'" for t s'
    proof -
      let ?t = "map_rsp (\<lambda>r. r\<lparr>task_cycle_counter := task_cycle_counter r + 1\<rparr>) t"
      have e: "evolves (rsp s) (rsp t)" using evolves_step [of s task] st by simp
      then have c: "unat (task_cycle_counter (rsp ?t)) = unat (task_cycle_counter (rsp s)) + 1"
        using Suc.prems by (simp add: evolves_def unat_word_ariths)
      have i: "imem_ok (rsp s) \<longrightarrow> imem_ok (rsp ?t)" using e by (simp add: evolves_def)
      have "unat (task_cycle_counter (rsp ?t)) + n < 2 ^ 64" using Suc.prems unfolding c by simp
      from Suc.IH [OF this] run i c show ?thesis by simp
    qed
    with False show ?thesis by (auto simp: holds_ok_iff bindR_eq_Inr)
  qed simp
qed simp

lemma until_bounds:
  "holds_ok (\<lambda>(t, s'). (imem_ok (rsp s) \<longrightarrow> imem_ok (rsp s')) \<and> t \<le> 15000000) (run_until_sync task s)"
proof -
  let ?s = "map_rsp (\<lambda>r. r\<lparr>broken := False, task_cycle_counter := 0, running_task := True, sync_point := False\<rparr>) s"
  have "unat (task_cycle_counter (rsp ?s)) + kMaxInsns < 2 ^ 64" by (simp add: kMaxInsns_def)
  from run_bounds [OF this, of task]
  have r: "holds_ok (\<lambda>s'. (imem_ok (rsp s) \<longrightarrow> imem_ok (rsp s')) \<and>
      unat (task_cycle_counter (rsp s')) \<le> 10000000) (rsp_run kMaxInsns task ?s)"
    by (simp add: kMaxInsns_def)
  have t: "(c * 3) div 2 \<le> (15000000 :: u64)" if "unat c \<le> 10000000" for c
  proof -
    have "unat (c * 3) = unat c * 3" using that by (simp add: unat_word_ariths)
    then show ?thesis using that by (simp add: word_le_nat_alt unat_div)
  qed
  show ?thesis unfolding run_until_sync_def
    by (rule holds_ok_bindR [OF r]) (simp add: t)
qed

section \<open>The properties\<close>

lemma do_task_keeps_imem: "imem_ok (rsp s) \<Longrightarrow> holds_ok (\<lambda>s'. imem_ok (rsp s')) (do_task s)"
proof -
  assume ok: "imem_ok (rsp s)"
  let ?s = "map_rsp (\<lambda>r. r\<lparr>sync_point := False, last_status_signals := 0, last_dpc_busy := 0\<rparr>) s"
  have "imem_ok (rsp ?s)" using ok by simp
  with until_bounds [of ?s] show ?thesis
    unfolding do_task_def do_task_with_def Let_def by (auto simp: holds_ok_iff bindR_eq_Inr)
qed

lemma status_write_keeps_imem:
  "imem_ok (rsp s) \<Longrightarrow> holds_ok (\<lambda>s'. imem_ok (rsp s')) (status_reg_write do_task v s)"
proof -
  assume ok: "imem_ok (rsp s)"
  have "imem_ok (rsp (status_bits_write v s))"
    using ok imem_ok_cong [of "rsp (status_bits_write v s)" "rsp s"] by (simp add: status_bits_imem)
  then show ?thesis by (simp add: status_reg_write_def Let_def do_task_keeps_imem)
qed

lemma evolves_imem: "imem_ok (rsp s) \<Longrightarrow> evolves (rsp s) (rsp t) \<Longrightarrow> imem_ok (rsp t)"
  by (simp add: evolves_def)

lemma rsp_write_keeps_imem:
  assumes "imem_ok (rsp s)"
  shows "holds_ok (\<lambda>s'. imem_ok (rsp s')) (rsp_write_paddr32 p v s)"
proof -
  have u: "imem_ok (rsp_set_pc w r) = imem_ok r" "imem_ok (r\<lparr>semaphore_held := b\<rparr>) = imem_ok r"
    "imem_ok (r\<lparr>sp_shadow_mem_addr := x\<rparr>) = imem_ok r" "imem_ok (r\<lparr>sp_shadow_dram_addr := x\<rparr>) = imem_ok r"
    for w b x r by (rule imem_ok_cong; simp add: rsp_set_pc_def)+
  have "imem_ok (rsp (dma_start False v rsp_dma_read s))" "imem_ok (rsp (dma_start False v rsp_dma_write s))"
    by (rule evolves_imem [OF assms], rule evolves_dma_start, rule evolves_dma_read evolves_dma_write)+
  then show ?thesis using assms status_write_keeps_imem [OF assms] by (simp add: rsp_write_paddr32_def u)
qed

text \<open>C7: The table of decoded instructions of the RSP is always the decoding of IMEM: an instruction
  of any kind, a whole task, the completion event and a write of any SP register (DMA into IMEM
  included) keep it so, and the step then runs the handler of the word that the program counter
  names.\<close>

theorem imem_always_decoded:
  assumes "imem_ok (rsp s)"
  shows "holds_ok (\<lambda>s'. imem_ok (rsp s')) (rsp_step do_task s) \<and>
    holds_ok (\<lambda>s'. imem_ok (rsp s')) (do_task s) \<and>
    holds_ok (\<lambda>s'. imem_ok (rsp s')) (on_sp_event s) \<and>
    holds_ok (\<lambda>s'. imem_ok (rsp s')) (rsp_write_paddr32 p v s) \<and>
    rsp_fetch (rsp s) = (let w = imem_word (unat (rsp_pc (rsp s)) mod 4096 div 4) (rsp s)
      in (rsp_decode_opcode w, w))"
proof (intro conjI)
  show "holds_ok (\<lambda>s'. imem_ok (rsp s')) (rsp_step do_task s)"
    using evolves_step [of s do_task] assms by (auto simp: holds_ok_iff intro: evolves_imem)
  show "holds_ok (\<lambda>s'. imem_ok (rsp s')) (do_task s)" by (rule do_task_keeps_imem [OF assms])
  then show "holds_ok (\<lambda>s'. imem_ok (rsp s')) (on_sp_event s)"
    using assms by (simp add: on_sp_event_def Let_def)
  show "holds_ok (\<lambda>s'. imem_ok (rsp s')) (rsp_write_paddr32 p v s)"
    by (rule rsp_write_keeps_imem [OF assms])
next
  let ?k = "unat (drop_bit 2 (rsp_pc (rsp s) AND 0xFFC))"
  have d: "unat (drop_bit 2 y) = unat y div 4" for y :: u16
    using unat_drop_bit_eq [of 2 y] unfolding drop_bit_eq_div [where 'a = nat] by (simp only: power2_eq_square) simp
  have "drop_bit 2 (x AND 0xFFC) = drop_bit 2 (x AND 0xFFF)" for x :: u16
    unfolding drop_bit_and by simp
  then have "?k = unat (rsp_pc (rsp s) AND 0xFFF) div 4" by (simp only: d)
  moreover have "unat (x AND 0xFFF) = unat x mod 4096" for x :: u16
    using unat_and_mask [of x 12] by (simp add: mask_eq_exp_minus_1)
  ultimately have k: "?k = unat (rsp_pc (rsp s)) mod 4096 div 4" by (simp only:)
  have "unat (rsp_pc (rsp s)) mod 4096 div 4 < 1024" by simp
  with assms show "rsp_fetch (rsp s) = (let w = imem_word (unat (rsp_pc (rsp s)) mod 4096 div 4) (rsp s)
      in (rsp_decode_opcode w, w))"
    unfolding rsp_fetch_def k by (simp add: imem_ok_def Let_def)
qed

text \<open>C39: A task that is started while no SP DMA is in flight leaves one enabled \<open>Sp\<close> event, due at
  most 15,000,000 cycles (the ten-million-instruction cap at three cycles for two instructions) after
  the start: the RSP always comes back to the scheduler.\<close>

theorem do_task_schedules:
  "holds_ok (\<lambda>s'. bit (sp_status (rsp s)) SP_DMA_BUSY \<or>
     (let e = sc_named (sched s') NE_Sp
      in ne_enabled e \<and> ne_cb e = Some On_sp_event \<and> ne_at e - sc_time (sched s') \<le> 15000000)) (do_task s)"
proof -
  let ?s = "map_rsp (\<lambda>r. r\<lparr>sync_point := False, last_status_signals := 0, last_dpc_busy := 0\<rparr>) s"
  show ?thesis using until_bounds [of ?s]
    unfolding do_task_def do_task_with_def Let_def
    by (auto simp: holds_ok_iff bindR_eq_Inr schedule_named_def set_named_def)
qed

end
