(* ===== verification/Rsp_Dma.thy ===== *)
theory Rsp_Dma
  imports Rsp_Imem
begin

text \<open>
  What the DMA engine of the RSP copies. Its loops index both memories in the byte order of the
  host; the lemmas state the transfer in the bytes the two processors see.
\<close>

section \<open>The bytes of SP memory\<close>

definition sp_byte :: "bool \<Rightarrow> rsp_regs \<Rightarrow> nat \<Rightarrow> u8" where
  "sp_byte imem r a = (if imem then n64_byte (sp_imem r) (word_of_nat a) else bytes_at (sp_dmem r) a)"

definition rdram_byte :: "bytes \<Rightarrow> u32 \<Rightarrow> u8" where
  "rdram_byte rd a = (if a < RDRAM_SIZE then n64_byte rd a else 0)"

text \<open>The same memories in the order in which the loops of the code visit them.\<close>

definition raw_byte :: "bool \<Rightarrow> rsp_regs \<Rightarrow> nat \<Rightarrow> u8" where
  "raw_byte imem r x = bytes_at (sp_mem imem r) (sp_index imem (word_of_nat x))"

text \<open>Position \<open>x\<close> counted from \<open>m\<close>, around the 4096 bytes.\<close>

definition ring_off :: "nat \<Rightarrow> nat \<Rightarrow> nat" where
  "ring_off m x = (x + 4096 - m) mod 4096"

lemma ring_off_iff: "m < 4096 \<Longrightarrow> x < 4096 \<Longrightarrow> j < 4096 \<Longrightarrow> (m + j) mod 4096 = x \<longleftrightarrow> j = ring_off m x"
  by (auto simp: ring_off_def mod_if)

lemma ring_off_less [simp]: "ring_off m x < 4096"
  by (simp add: ring_off_def)

lemma ring_off_step:
  assumes "m < 4096" "x < 4096" "n \<le> ring_off m x"
  shows "ring_off ((m + n) mod 4096) x = ring_off m x - n"
proof -
  obtain d where d: "ring_off m x = n + d" using assms(3) le_Suc_ex by blast
  then have "d < 4096" using ring_off_less [of m x] by linarith
  moreover have "((m + n) mod 4096 + d) mod 4096 = x"
    using ring_off_iff [of m x "ring_off m x"] ring_off_less [of m x] assms(1,2)
    by (simp add: d mod_add_left_eq add.assoc)
  ultimately show ?thesis using ring_off_iff [of "(m + n) mod 4096" x d] assms(2) by (simp add: d)
qed

lemma ring_off_early:
  assumes "m < 4096" "x < 4096" "n + k \<le> 4096" "ring_off m x < n"
  shows "k \<le> ring_off ((m + n) mod 4096) x"
proof (rule ccontr)
  let ?p = "ring_off ((m + n) mod 4096) x"
  assume "\<not> k \<le> ?p"
  then have "n + ?p < 4096" using assms(3) by simp
  moreover have "(m + (n + ?p)) mod 4096 = x"
    using ring_off_iff [of "(m + n) mod 4096" x ?p] assms(2) by (simp add: mod_add_left_eq add.assoc)
  ultimately have "ring_off m x = n + ?p" using ring_off_iff [of m x "n + ?p"] assms(1,2) by simp
  with assms(4) show False by simp
qed

lemma fold_bytes_at:
  assumes "\<And>j. j < n \<Longrightarrow> f j = i \<longleftrightarrow> j = p"
  shows "bytes_at (fold (\<lambda>j. bytes_set (f j) (g j)) [0..<n] b) i = (if p < n then g p else bytes_at b i)"
  using assms
proof (induction n)
  case (Suc n)
  then have "f n = i \<longleftrightarrow> n = p" by blast
  with Suc show ?case by (auto simp: less_Suc_eq)
qed simp

lemma sp_index_eq:
  "x < 4096 \<Longrightarrow> sp_index imem a = sp_index imem (word_of_nat x) \<longleftrightarrow> unat a mod 4096 = x"
proof -
  assume x: "x < 4096"
  then have w: "unat (word_of_nat x AND 0xFFF :: u32) = x"
    by (simp only: low12_index) (simp add: unat_of_nat take_bit_nat_eq_self)
  have "sp_index imem a = sp_index imem (word_of_nat x) \<longleftrightarrow> a AND 0xFFF = word_of_nat x AND 0xFFF"
    by (simp add: sp_index_def Let_def word_unat_eq_iff [symmetric])
  also have "\<dots> \<longleftrightarrow> unat a mod 4096 = x"
    by (simp only: word_unat_eq_iff w) (simp only: low12_index)
  finally show ?thesis .
qed

lemma raw_row:
  assumes "unat m < 4096" "unat len \<le> 4096" "x < 4096"
  shows "raw_byte imem (set_sp_mem imem (row_in imem rd dram m len (sp_mem imem r)) r) x =
    (if ring_off (unat m) x < unat len then rdram_get rd (dram + word_of_nat (ring_off (unat m) x))
     else raw_byte imem r x)"
proof -
  have "sp_index imem (m + word_of_nat j) = sp_index imem (word_of_nat x) \<longleftrightarrow> j = ring_off (unat m) x"
    if "j < unat len" for j
  proof -
    have "unat (m + word_of_nat j) = unat m + j"
      using that assms by (simp add: unat_word_ariths unat_of_nat take_bit_nat_eq_self)
    then show ?thesis using that assms by (simp add: sp_index_eq ring_off_iff)
  qed
  note f = fold_bytes_at [of "unat len" "\<lambda>j. sp_index imem (m + word_of_nat j)", OF this]
  have "sp_mem imem (set_sp_mem imem b r) = b" for b by (simp add: sp_mem_def set_sp_mem_def)
  then show ?thesis unfolding raw_byte_def row_in_def by (simp add: f)
qed

lemma note_imem_mem [simp]:
  "sp_imem (note_imem_written m len r) = sp_imem r" "sp_dmem (note_imem_written m len r) = sp_dmem r"
  "raw_byte imem (note_imem_written m len r) x = raw_byte imem r x"
proof -
  have d: "sp_dmem (refresh_words n a r) = sp_dmem r" for n a
    by (induction n arbitrary: a r) (simp_all add: refresh_imem_word_def Let_def)
  then show "sp_imem (note_imem_written m len r) = sp_imem r" "sp_dmem (note_imem_written m len r) = sp_dmem r"
    by (simp_all add: note_imem_written_def)
  then show "raw_byte imem (note_imem_written m len r) x = raw_byte imem r x"
    by (simp add: raw_byte_def sp_mem_def)
qed

text \<open>Where row \<open>i\<close> starts in RDRAM.\<close>

fun row_start :: "u32 \<Rightarrow> u32 \<Rightarrow> u32 \<Rightarrow> nat \<Rightarrow> u32" where
  "row_start len skip dram 0 = dram"
| "row_start len skip dram (Suc i) = row_start len skip ((dram + len + skip) AND RSP_DRAM_ADDR_MASK) i"

lemma ring_next: "8 dvd unat m \<Longrightarrow> 8 dvd unat len \<Longrightarrow> unat m \<le> 0xFF8 \<Longrightarrow> unat len \<le> 4096 \<Longrightarrow>
   unat ((m + len) AND RSP_MEM_ADDR_MASK) = (unat m + unat len) mod 4096"
proof -
  assume a: "8 dvd unat m" "8 dvd unat len" "unat m \<le> 0xFF8" "unat len \<le> 4096"
  have u: "unat (m + len) = unat m + unat len" using a by (simp add: unat_word_ariths)
  have "\<not> bit (m + len) n" if "n < 3" for n
  proof -
    have "take_bit 3 (unat (m + len)) = 0" using a(1,2) unfolding u by (simp add: take_bit_eq_mod dvd_eq_mod_eq_0 [symmetric])
    then have "take_bit 3 (m + len) = 0" by (simp only: unsigned_take_bit_eq [symmetric] unsigned_eq_0_iff)
    then show ?thesis using that by (metis bit_0_eq bot_apply bot_bool_def bit_take_bit_iff)
  qed
  then have "(m + len) AND 0xFF8 = (m + len) AND 0xFFF"
  proof -
    assume low: "\<And>n. n < 3 \<Longrightarrow> \<not> bit (m + len) n"
    have e: "(0xFF8 :: u32) = NOT (mask 3) AND 0xFFF" by (simp add: mask_eq_exp_minus_1)
    moreover have "(m + len) AND NOT (mask 3) = m + len"
      by (rule bit_word_eqI) (use low in \<open>auto simp: bit_and_iff bit_not_iff bit_mask_iff\<close>)
    ultimately show ?thesis unfolding e by (simp only: and.assoc [symmetric])
  qed
  then show ?thesis by (simp only: low12_index u)
qed

section \<open>All rows\<close>

lemma raw_rows:
  assumes "8 dvd unat m" "unat m \<le> 0xFF8" and len: "8 dvd unat len" "0 < len" "unat len \<le> 4096"
    and "k * unat len \<le> 4096" "x < 4096"
  shows "raw_byte imem (snd (snd (rows_in k imem rd len skip dram m r))) x =
    (let p = ring_off (unat m) x
     in if p < k * unat len
        then rdram_get rd (row_start len skip dram (p div unat len) + word_of_nat (p mod unat len))
        else raw_byte imem r x)"
  using assms(1,2,6)
proof (induction k arbitrary: dram m r)
  case 0
  then show ?case by (simp add: rows_in.simps)
next
  case (Suc k)
  let ?r = "set_sp_mem imem (row_in imem rd dram m len (sp_mem imem r)) r"
  let ?r' = "if imem then note_imem_written m len ?r else ?r"
  let ?m = "(m + len) AND RSP_MEM_ADDR_MASK" and ?p = "ring_off (unat m) x" and ?l = "unat len"
  let ?d = "(dram + len + (if k = 0 then 0 else skip)) AND RSP_DRAM_ADDR_MASK"
  have l: "0 < ?l" using len(2) by (simp add: word_less_nat_alt)
  have m: "unat m < 4096" using Suc.prems(2) by simp
  have nx: "unat ?m = (unat m + ?l) mod 4096" by (rule ring_next [OF Suc.prems(1) len(1) Suc.prems(2) len(3)])
  have row: "raw_byte imem ?r' x = (if ?p < ?l then rdram_get rd (dram + word_of_nat ?p) else raw_byte imem r x)"
    using raw_row [OF m len(3) assms(7), of imem rd dram r] by (cases imem) simp_all
  have "k * ?l \<le> 4096" using Suc.prems(3) by simp
  note IH = Suc.IH [OF mask_FF8(2) mask_FF8(1) this, of ?d "m + len" ?r', unfolded Let_def nx]
  show ?case
  proof (cases "?p < ?l")
    case True
    have "?l + k * ?l \<le> 4096" using Suc.prems(3) by simp
    from ring_off_early [OF m assms(7) this True] have "\<not> ring_off ((unat m + ?l) mod 4096) x < k * ?l"
      by simp
    then show ?thesis using True l unfolding rows_in.simps Let_def IH row by (simp add: add_strict_increasing)
  next
    case False
    then have p: "ring_off ((unat m + ?l) mod 4096) x = ?p - ?l"
      by (intro ring_off_step [OF m assms(7)]) simp
    obtain e where e: "?p = ?l + e" using False le_Suc_ex [of ?l ?p] by auto
    show ?thesis using l unfolding rows_in.simps Let_def IH row p e
      by (cases "k = 0") (simp_all add: div_add_self1 mod_add_self1)
  qed
qed

lemma raw_rows_other: "raw_byte (\<not> imem) (snd (snd (rows_in k imem rd len skip dram m r))) x = raw_byte (\<not> imem) r x"
proof (induction k arbitrary: dram m r)
  case (Suc k)
  have "raw_byte (\<not> imem) (set_sp_mem imem b r) x = raw_byte (\<not> imem) r x" for b
    by (simp add: raw_byte_def sp_mem_def set_sp_mem_def)
  moreover have "raw_byte (\<not> imem) (if imem then note_imem_written m len q else q) x = raw_byte (\<not> imem) q x" for q
    by simp
  ultimately show ?case unfolding rows_in.simps Let_def Suc.IH by (simp only:)
qed (simp add: rows_in.simps)

section \<open>In the bytes the processors see\<close>

text \<open>The console's byte \<open>a\<close> is at position \<open>a XOR 3\<close> of the host's order.\<close>

definition flip3 :: "nat \<Rightarrow> nat" where
  "flip3 a = 4 * (a div 4) + (3 - a mod 4)"

lemma flip3_div [simp]: "flip3 a div 4 = a div 4" and flip3_mod [simp]: "flip3 a mod 4 = 3 - a mod 4"
proof -
  obtain d where d: "3 - a mod 4 = d" "d < 4" by simp
  show "flip3 a div 4 = a div 4" "flip3 a mod 4 = 3 - a mod 4"
    unfolding flip3_def d(1) using d(2) by simp_all
qed

lemma flip3_less: "4 dvd n \<Longrightarrow> flip3 a < n \<longleftrightarrow> a < n"
  by (elim dvdE) (simp only: less_mult4_iff flip3_div)

lemma unat_byte_address: "unat (byte_address a) = flip3 (unat a)"
  by (simp add: byte_address_def unat_flip3 flip3_def)

lemma flip3_flip3 [simp]: "flip3 (flip3 a) = a"
proof -
  have c: "3 - (3 - c) = c" if "c < 4" for c :: nat using that by simp
  have "flip3 (flip3 a) = 4 * (a div 4) + (3 - (3 - a mod 4))"
    by (simp only: flip3_def [of "flip3 a"] flip3_div flip3_mod)
  also have "\<dots> = a" by (subst c) simp_all
  finally show ?thesis .
qed

lemma sp_byte_raw: "a < 4096 \<Longrightarrow> sp_byte imem r a = raw_byte imem r (flip3 a)"
proof -
  assume a: "a < 4096"
  then have f: "flip3 a < 4096" by (simp add: flip3_less)
  have u: "unat (word_of_nat x AND 0xFFF :: u32) = x" if "x < 4096" for x
    using that by (simp only: low12_index) (simp add: unat_of_nat take_bit_nat_eq_self)
  have "unat (word_of_nat a :: u32) = a" using a by (simp add: unat_of_nat take_bit_nat_eq_self)
  then show ?thesis using u [OF f]
    by (simp add: sp_byte_def raw_byte_def sp_mem_def sp_index_def Let_def n64_byte_def unat_byte_address)
qed

lemma quad_mod: "d < 4 \<Longrightarrow> (4 * z + d) mod 4096 = 4 * (z mod 1024) + d" for z d :: nat
  using mod_mult2_eq [of "4 * z + d" 4 1024] by simp

lemma ring_off_flip:
  assumes "4 dvd m" "m < 4096" "a < 4096"
  shows "ring_off m (flip3 a) = flip3 (ring_off m a)"
proof -
  let ?o = "ring_off m a"
  obtain q where q: "m = 4 * q" using assms(1) by blast
  have o: "?o < 4096" "flip3 ?o < 4096" by (simp_all add: flip3_less)
  have "(m + ?o) mod 4096 = a" using ring_off_iff [OF assms(2,3) o(1)] by simp
  moreover have "y mod 4096 = 4 * (y div 4 mod 1024) + y mod 4" for y :: nat
    using mod_mult2_eq [of y 4 1024] by simp
  ultimately have a: "a = 4 * ((q + ?o div 4) mod 1024) + ?o mod 4"
    by (metis q div_mult_self4 mod_mult_self4 add.commute zero_neq_numeral)
  obtain d where d: "3 - ?o mod 4 = d" "d < 4" by simp
  have "m + flip3 ?o = 4 * (q + ?o div 4) + d" unfolding flip3_def d(1) using q by simp
  then have "(m + flip3 ?o) mod 4096 = 4 * ((q + ?o div 4) mod 1024) + d"
    by (simp only: quad_mod [OF d(2)])
  also have "\<dots> = flip3 a"
  proof -
    have "(4 * u + c) div 4 = u" "(4 * u + c) mod 4 = c" if "c < 4" for u c :: nat using that by simp_all
    then show ?thesis using d(1) unfolding flip3_def by (subst (1 2) a) simp
  qed
  finally show ?thesis
    using ring_off_iff [of m "flip3 a" "flip3 ?o"] assms o by (simp add: flip3_less)
qed

lemma flip3_split:
  assumes "4 dvd (l :: nat)" "0 < l"
  shows "flip3 n div l = n div l" "flip3 n mod l = flip3 (n mod l)"
proof -
  obtain q where q: "l = 4 * q" using assms(1) by blast
  have n: "n = l * (n div l) + n mod l" by simp
  have f: "flip3 n = l * (n div l) + flip3 (n mod l)"
  proof -
    have "flip3 (4 * b + c) = 4 * b + flip3 c" for b c by (simp add: flip3_def)
    then have "flip3 (l * (n div l) + n mod l) = l * (n div l) + flip3 (n mod l)"
      unfolding q by (metis mult.assoc)
    then show ?thesis by simp
  qed
  have "flip3 (n mod l) < l" using assms by (simp add: flip3_less)
  then show "flip3 n div l = n div l" "flip3 n mod l = flip3 (n mod l)"
    unfolding f by simp_all
qed

lemma rdram_byte_raw:
  assumes "4 dvd unat d" "unat d + 4096 < 2 ^ 32" "j < 4096"
  shows "rdram_get rd (d + word_of_nat (flip3 j)) = rdram_byte rd (d + word_of_nat j)"
proof -
  have f: "flip3 j < 4096" using assms(3) by (simp add: flip3_less)
  have u: "unat (d + word_of_nat i) = unat d + i" if "i < 4096" for i
    using that assms by (simp add: unat_word_ariths unat_of_nat take_bit_nat_eq_self)
  obtain q where q: "unat d = 4 * q" using assms(1) by blast
  have "flip3 (unat d + j) = unat d + flip3 j" by (simp add: q flip3_def)
  moreover have "flip3 (unat d + j) < 0x800000 \<longleftrightarrow> unat d + j < 0x800000" by (rule flip3_less) simp
  ultimately show ?thesis
    by (simp add: rdram_get_def rdram_byte_def n64_byte_def unat_byte_address word_less_nat_alt u f assms(3))
qed

text \<open>Row starts are multiples of 8 below 16 MB.\<close>

lemma row_start_bounds:
  "dram AND RSP_DRAM_ADDR_MASK = dram \<Longrightarrow>
   4 dvd unat (row_start len skip dram i) \<and> unat (row_start len skip dram i) + 4096 < 2 ^ 32"
proof (induction i arbitrary: dram)
  case 0
  have "dram \<le> 0xFFFFF8" using 0 word_and_le1 [of dram "0xFFFFF8"] by metis
  moreover have "8 dvd unat dram" by (rule aligned8) (use 0 in simp)
  moreover have "(4 :: nat) dvd 8" by simp
  ultimately show ?case by (auto simp: word_le_nat_alt intro: dvd_trans)
next
  case (Suc i)
  show ?case unfolding row_start.simps by (rule Suc.IH) (simp add: and.assoc)
qed

text \<open>C15: An RSP DMA read copies \<open>count + 1\<close> rows of \<open>length\<close> bytes from RDRAM to the selected SP
  memory: in the byte order each memory has for its processor, byte \<open>p\<close> of the transfer, counted around
  the 4096 bytes of SP memory, is byte \<open>p mod length\<close> of row \<open>p div length\<close> (zero beyond the end of
  RDRAM), rows being \<open>length + skip\<close> bytes apart; every other byte of both SP memories and all of RDRAM
  stay as they were.\<close>

theorem rsp_dma_read_copies:
  assumes "(unat (dma_count (rsp s)) + 1) * unat (dma_len (rsp s)) \<le> 4096" and "a < 4096"
  shows "let r = rsp s; r' = rsp (rsp_dma_read s); l = unat (dma_len r);
      p = ring_off (unat (dma_mem_start r)) a;
      row = row_start (dma_len r) (dma_skip r) (dma_dram_start r) (p div l)
    in sp_byte (dma_imem r) r' a =
         (if p < (unat (dma_count r) + 1) * l then rdram_byte (rdram (mem s)) (row + word_of_nat (p mod l))
          else sp_byte (dma_imem r) r a) \<and>
       sp_byte (\<not> dma_imem r) r' a = sp_byte (\<not> dma_imem r) r a \<and>
       mem (rsp_dma_read s) = mem s"
proof -
  let ?r = "rsp s" let ?imem = "dma_imem ?r" and ?l = "unat (dma_len ?r)" and ?m = "dma_mem_start ?r"
  let ?k = "unat (dma_count ?r) + 1" and ?d = "dma_dram_start ?r" and ?p = "ring_off (unat (dma_mem_start ?r)) a"
  let ?res = "rows_in ?k ?imem (rdram (mem s)) (dma_len ?r) (dma_skip ?r) ?d ?m ?r"
  note len = dma_len_bounds [of ?r]
  have l: "0 < ?l" "4 dvd ?l" using len(1,3) by (simp_all add: word_less_nat_alt dvd_trans [of 4 8])
  have m: "8 dvd unat ?m" "unat ?m \<le> 0xFF8" "4 dvd unat ?m" "unat ?m < 4096"
    using mask_FF8 [of "bf_get 0 12 (sp_shadow_mem_addr ?r)"]
    by (simp_all add: dma_mem_start_def dvd_trans [of 4 8])
  have f: "flip3 a < 4096" using assms(2) by (simp add: flip3_less)
  have byte: "raw_byte i (rsp (rsp_dma_read s)) x = raw_byte i (snd (snd ?res)) x" for i x
    by (simp add: rsp_dma_read_def Let_def split_beta dma_finish_def raw_byte_def sp_mem_def)
  have frame: "mem (rsp_dma_read s) = mem s"
    by (simp add: rsp_dma_read_def Let_def split_beta)
  have pos: "?p div ?l < 4096 \<and> ?p mod ?l < 4096"
  proof -
    have "?p div ?l \<le> ?p" "?p mod ?l \<le> ?p" "?p < 4096" by simp_all
    then show ?thesis by linarith
  qed
  have row: "4 dvd unat (row_start (dma_len ?r) (dma_skip ?r) ?d i) \<and>
      unat (row_start (dma_len ?r) (dma_skip ?r) ?d i) + 4096 < 2 ^ 32" for i
    by (rule row_start_bounds) (simp add: dma_dram_start_def and.assoc)
  have "raw_byte ?imem (snd (snd ?res)) (flip3 a) =
    (if ?p < ?k * ?l
     then rdram_byte (rdram (mem s)) (row_start (dma_len ?r) (dma_skip ?r) ?d (?p div ?l) + word_of_nat (?p mod ?l))
     else raw_byte ?imem ?r (flip3 a))"
    unfolding raw_rows [OF m(1,2) len(3,1,2) assms(1) f] Let_def ring_off_flip [OF m(3,4) assms(2)]
    using l pos row by (simp add: flip3_less flip3_split rdram_byte_raw)
  moreover have "raw_byte (\<not> ?imem) (snd (snd ?res)) (flip3 a) = raw_byte (\<not> ?imem) ?r (flip3 a)"
    by (rule raw_rows_other)
  ultimately show ?thesis using frame by (simp add: Let_def sp_byte_raw [OF assms(2)] byte)
qed

end
