(* ===== verification/Rsp_Witnesses.thy ===== *)
theory Rsp_Witnesses
  imports Witnesses Rsp_Vector_Spec Rsp_Dma
begin

text \<open>
  A signal processor with loaded vector registers, and the instances of the properties of the vector
  unit at it.
\<close>

definition zero_rsp :: rsp_regs where
  "zero_rsp = \<lparr>sp_dmem = bytes_fill 0x1000 0, sp_imem = bytes_fill 0x1000 0,
     imem_insns = (\<lambda>_. (Rsp_sll, 0)), rsp_pc = 0, rsp_next_pc = 4, rsp_delay_slot = False,
     sp_status = 1, sp_mem_addr = 0, sp_dram_addr = 0, sp_shadow_mem_addr = 0, sp_shadow_dram_addr = 0,
     sp_dma = 0, semaphore_held = False, sync_point = False, broken = False, task_halted = False,
     running_task = False, run_after_dma = False, last_status_signals = 0, last_dpc_busy = 0,
     task_cycle_counter = 0, rsp_gpr = (\<lambda>_. 0),
     vpr = (\<lambda>k i. if k = 1 then 0xFFFE else if k = 2 then 0x8000 else if k = 3 then 0x0003 else 0x4000),
     acc_h = (\<lambda>_. 0), acc_m = (\<lambda>_. 0), acc_l = (\<lambda>_. 0), vcc = 0, vco = 0, vce = 0, divin = 0,
     divout = 0, divin_loaded = False\<rparr>"

text \<open>The fixed-point product \<open>-1.5 * 3.25\<close> in all eight lanes.\<close>

lemma vu_double_multiply_witness:
  "\<exists>r'. vu_run [vu_inst 0x04 5 2 4, vu_inst 0x0D 5 1 4, vu_inst 0x0E 5 2 3, vu_inst 0x0F 5 1 3] zero_rsp = Inr r' \<and>
     map (\<lambda>i. acc_get i r') [0..<8] = replicate 8 (- 319488)"
proof -
  have "lane32 1 2 i zero_rsp * lane32 3 4 i zero_rsp div 2 ^ 16 = - 319488" for i
    by (simp add: lane32_def zero_rsp_def)
  then show ?thesis using vu_double_multiply [of 5 1 2 3 4 zero_rsp]
    by (simp add: map_replicate_const)
qed

lemma vu_double_add_witness:
  "\<exists>r'. vu_run [vu_inst 0x14 6 2 4, vu_inst 0x10 5 1 3] zero_rsp = Inr r' \<and>
     list_all (\<lambda>i. lane32 5 6 i r' = 114688) [0..<8]"
proof -
  have "lane32 1 2 i zero_rsp + lane32 3 4 i zero_rsp = 114688" for i
    by (simp add: lane32_def zero_rsp_def)
  then show ?thesis using vu_double_add [of 5 6 1 2 3 4 zero_rsp] by simp
qed

lemma rsp_rcp_accuracy_witness:
  "unat (3 :: u32) * unat (rsp_rcp 3) \<le> 2 ^ 31 + 2 ^ 22 + 96 \<and>
   2 ^ 31 \<le> unat (3 :: u32) * (unat (rsp_rcp 3) + 1) + 2 ^ 15"
  by (rule rsp_rcp_accuracy [of 3]) simp_all

section \<open>The RSP and the display processor in the machine\<close>

definition zero_dpc :: dpc_regs where
  "zero_dpc = \<lparr>dpc_start = 0, dpc_end = 0, dpc_current = 0, dpc_status = 0, dpc_clock = 0, dpc_tmem = 0,
     dpc_cmd_buf = []\<rparr>"

text \<open>RDRAM begins with the word 0x08000000, the head of a triangle command of eight words.\<close>

definition rsp_machine :: dpc_state where
  "rsp_machine = \<lparr>cop0 = zero_cop0, mi = \<lparr>mi_mode = 0, mi_intr = 0, mi_intr_mask = 0\<rparr>,
     sched = sched machine, hook = Interp_hook, dcache = dcache machine,
     mem = zero_mem\<lparr>rdram := bytes_set 3 8 (bytes_fill 0x800000 0)\<rparr>,
     vi = zero_vi, rdp = zero_rdp, ai = zero_ai, pi_if = zero_pi, si = zero_si, tlb = zero_tlb,
     cpu = zero_cpu, cop1 = cop1 machine, idle = idle machine,
     rsp = zero_rsp\<lparr>sp_dma := 0x7\<rparr>, dpc = zero_dpc\<rparr>"

lemma rsp_machine_fields [simp]:
  "rsp rsp_machine = zero_rsp\<lparr>sp_dma := 0x7\<rparr>" "dpc rsp_machine = zero_dpc" "rdp rsp_machine = zero_rdp"
  "rdram (mem rsp_machine) = bytes_set 3 8 (bytes_fill 0x800000 0)" "mi_intr (mi rsp_machine) = 0"
  by (simp_all add: rsp_machine_def)

lemma read_words_numeral: "read_words rd (numeral k) a =
   bindR (rd a) (\<lambda>w. bindR (read_words rd (pred_numeral k) (a + 4)) (\<lambda>ws. ok (w # ws)))"
  by (simp add: numeral_eq_Suc)

text \<open>A triangle command of eight words, cut in the middle by two END writes, and an empty one after it.\<close>

lemma display_list_cuts_witness:
  "\<exists>s'. write_ends [0x10, 0x28] rsp_machine = Inr s' \<and>
     dpc_abs s' = absorb [0x08000000, 0, 0, 0, 0, 0, 0, 0, 0, 0] (dpc_abs rsp_machine) \<and> dpc_ready 0x28 s'"
proof -
  have r: "dpc_ready 0 rsp_machine" by (simp add: dpc_ready_def leftover_ok_def zero_dpc_def)
  have w: "read_words (dpc_reader rsp_machine) 10 0 = Inr [0x08000000, 0, 0, 0, 0, 0, 0, 0, 0, 0]"
  proof -
    have rd: "dpc_reader rsp_machine a = (if unat a + 4 \<le> 0x800000 then ok (if unat a = 0 then 0x08000000 else
        le32_at (bytes_set 3 8 (bytes_fill 0x800000 0)) (unat a)) else Inl OutOfBounds)" for a
      by (simp add: dpc_reader_def zero_dpc_def read_from_byte_array32_def bytes_fill_def le32_at_def le32_def)
    have z: "le32_at (bytes_set 3 8 (bytes_fill 0x800000 0)) k = 0" if "4 \<le> k" for k
      using that by (simp add: bytes_fill_def le32_at_def le32_def)
    show ?thesis by (simp add: read_words_numeral rd z)
  qed
  show ?thesis
    using display_list_cuts [OF r, of "[0x10, 0x28]" "[0x08000000, 0, 0, 0, 0, 0, 0, 0, 0, 0]"] w
    by (simp add: zero_dpc_def)
qed

lemma triangle_submitted:
  "absorb [0x08000000, 0, 0, 0, 0, 0, 0, 0, 0, 0] ([], True, False, []) =
     ([Cp_enqueue [0x08000000, 0, 0, 0, 0, 0, 0, 0]], True, False, [])"
  by (simp add: split_commands.simps command_length_def command_of_def COMMAND_LENGTHS_def handed_over_def)

lemma rsp_machine_imem: "imem_ok (rsp rsp_machine)"
proof -
  have w: "imem_word k zero_rsp = 0" for k
    by (simp add: imem_word_def zero_rsp_def bytes_fill_def le32_at_def le32_def)
  have d: "rsp_decode_opcode 0 = Rsp_sll" by (simp add: rsp_decode_opcode_def rsp_opc_def rsp_funct_def rsp_special_table_def)
  show ?thesis using w by (simp add: imem_ok_def d imem_word_def) (simp add: zero_rsp_def)
qed

lemma imem_always_decoded_witness:
  "holds_ok (\<lambda>s'. imem_ok (rsp s')) (rsp_step do_task rsp_machine) \<and>
   holds_ok (\<lambda>s'. imem_ok (rsp s')) (do_task rsp_machine) \<and>
   holds_ok (\<lambda>s'. imem_ok (rsp s')) (rsp_write_paddr32 0x04040008 0x17 rsp_machine)"
  using imem_always_decoded [OF rsp_machine_imem, of "0x04040008" "0x17"] by blast

text \<open>A transfer of eight bytes: the first byte of DMEM is the first byte of the triangle.\<close>

lemma rsp_dma_read_copies_witness:
  "sp_byte False (rsp (rsp_dma_read rsp_machine)) 0 = 0x08"
proof -
  have r: "dma_count (rsp rsp_machine) = 0" "dma_len (rsp rsp_machine) = 8" "dma_skip (rsp rsp_machine) = 0"
    "dma_mem_start (rsp rsp_machine) = 0" "dma_dram_start (rsp rsp_machine) = 0" "\<not> dma_imem (rsp rsp_machine)"
    by (simp_all add: dma_count_def dma_len_def dma_skip_def dma_mem_start_def dma_dram_start_def dma_imem_def
        zero_rsp_def bf_get_def)
  have b: "rdram_byte (rdram (mem rsp_machine)) 0 = 8"
    by (simp add: rdram_byte_def n64_byte_def byte_address_def)
  show ?thesis
    using rsp_dma_read_copies [of rsp_machine 0, unfolded Let_def r]
    by (simp del: rsp_machine_fields add: b r ring_off_def)
qed

end
