(* ===== verification/Bus.thy ===== *)
theory Bus
  imports Rsp_Dma
begin

text \<open>
  The physical memory bus of the CPU (\<open>src/memory/bus.cpp\<close>): which component answers a physical
  address, at which widths, and what a store does besides writing (waiting for the display processor,
  invalidating decoded instructions, keeping the decoded IMEM current).

  The templates \<open>read_paddr<Wire>\<close> and \<open>write_paddr<Wire>\<close> become one definition each, with the
  operations that depend on \<open>Wire\<close> as arguments; the four instances follow. The registers answer
  32-bit accesses only. The observers of the debugger are left out.
\<close>

section \<open>The map of physical pages\<close>

datatype phys_kind =
    Unmapped | SpMem | RspReg | Dpc | Mi | Vi | Ai | Pi | Ri | Si | Sram | Rom | PifPage

abbreviation (input) "PHYS_RDRAM_MEM_END \<equiv> 0x007FFFFF :: u32"
abbreviation (input) "PHYS_SPDMEM_BASE \<equiv> 0x04000000 :: u32"
abbreviation (input) "PHYS_SPDMEM_END \<equiv> 0x04000FFF :: u32"
abbreviation (input) "PHYS_SPIMEM_BASE \<equiv> 0x04001000 :: u32"
abbreviation (input) "PHYS_SPIMEM_END \<equiv> 0x04001FFF :: u32"
abbreviation (input) "PHYS_SRAM_BASE \<equiv> 0x08000000 :: u32"
abbreviation (input) "PHYS_ROM_BASE \<equiv> 0x10000000 :: u32"
abbreviation (input) "PHYS_PIF_RAM_BASE \<equiv> 0x1FC007C0 :: u32"
abbreviation (input) "PHYS_PIF_RAM_END \<equiv> 0x1FC007FF :: u32"

text \<open>\<open>fill\<close> marks the pages of 64 KiB from the one of \<open>base\<close> to the one of \<open>end_addr\<close>.\<close>

definition phys_fill :: "u32 \<Rightarrow> u32 \<Rightarrow> phys_kind \<Rightarrow> (u32 \<Rightarrow> phys_kind) \<Rightarrow> u32 \<Rightarrow> phys_kind" where
  "phys_fill base end_addr kind m =
     (\<lambda>i. if drop_bit 16 base \<le> i \<and> i \<le> drop_bit 16 end_addr then kind else m i)"

definition phys_map :: "u32 \<Rightarrow> phys_kind" where
  "phys_map =
     (phys_fill 0x10000000 0x1FBFFFFF Rom
       (phys_fill 0x08000000 0x0FFFFFFF Sram
         (phys_fill 0x04800000 0x048FFFFF Si
           (phys_fill 0x04700000 0x047FFFFF Ri
             (phys_fill 0x04600000 0x046FFFFF Pi
               (phys_fill 0x04500000 0x045FFFFF Ai
                 (phys_fill 0x04400000 0x044FFFFF Vi
                   (phys_fill 0x04300000 0x043FFFFF Mi
                     (phys_fill 0x04100000 0x041FFFFF Dpc
                       (phys_fill 0x04040000 0x040FFFFF RspReg
                         (phys_fill PHYS_SPDMEM_BASE PHYS_SPIMEM_END SpMem
                           (\<lambda>_. Unmapped))))))))))))
       (drop_bit 16 PHYS_PIF_RAM_BASE := PifPage)"

definition in_dmem :: "u32 \<Rightarrow> bool" where
  "in_dmem paddr \<longleftrightarrow> PHYS_SPDMEM_BASE \<le> paddr \<and> paddr \<le> PHYS_SPDMEM_END"

definition in_imem :: "u32 \<Rightarrow> bool" where
  "in_imem paddr \<longleftrightarrow> PHYS_SPIMEM_BASE \<le> paddr \<and> paddr \<le> PHYS_SPIMEM_END"

definition in_pif_ram :: "u32 \<Rightarrow> bool" where
  "in_pif_ram paddr \<longleftrightarrow> PHYS_PIF_RAM_BASE \<le> paddr \<and> paddr \<le> PHYS_PIF_RAM_END"

section \<open>Reads\<close>

definition sram_bus_offset :: "u32 \<Rightarrow> bytes \<Rightarrow> u32" where
  "sram_bus_offset paddr sr = (paddr - PHYS_SRAM_BASE) AND (word_of_nat (bytes_len sr) - 1)"

text \<open>Behind RDRAM and the SP memories: what a 32-bit read of a page of each kind returns.\<close>

definition read_device32 :: "phys_kind \<Rightarrow> u32 \<Rightarrow> 'a dpc_state_scheme \<Rightarrow> (u32 \<times> 'a dpc_state_scheme) res" where
  "read_device32 kind paddr s =
     (let pure = (\<lambda>r. bindR r (\<lambda>v. ok (v, s)))
      in case kind of
           RspReg \<Rightarrow> rsp_read_paddr32 paddr s
         | Dpc \<Rightarrow> pure (dpc_read_paddr32 paddr (dpc s))
         | Vi \<Rightarrow> pure (vi_read_paddr32 paddr s)
         | Ai \<Rightarrow> pure (ai_read_paddr32 paddr s)
         | Mi \<Rightarrow> pure (mi_read_paddr32 paddr s)
         | Pi \<Rightarrow> pure (pi_read_paddr32 paddr s)
         | Ri \<Rightarrow> pure (ri_read_paddr32 paddr (ri (mem s)))
         | Si \<Rightarrow> pure (si_read_paddr32 paddr s)
         | Sram \<Rightarrow>
             (let sr = sram (mem s)
              in if bytes_len sr = 0 then ok (0xFFFFFFFF, s)
                 else pure (read_from_byte_array32_be sr (sram_bus_offset paddr sr)))
         | Rom \<Rightarrow> pure (read_offset32 (rom (mem s)) (paddr - PHYS_ROM_BASE))
         | PifPage \<Rightarrow>
             (if in_pif_ram paddr
              then pure (read_from_byte_array32_be (pif_ram (si s)) (paddr - PHYS_PIF_RAM_BASE))
              else Inl Aborted)
         | SpMem \<Rightarrow> Inl Aborted
         | Unmapped \<Rightarrow> Inl Aborted)"

text \<open>The template: \<open>n\<close> is \<open>sizeof(Wire)\<close>, \<open>host\<close> and \<open>be\<close> read a value of the type from an array in
  host order and in the order of DMEM, \<open>device\<close> answers for the other pages.\<close>

definition read_paddr ::
  "u32 \<Rightarrow> (bytes \<Rightarrow> u32 \<Rightarrow> 'w res) \<Rightarrow> (bytes \<Rightarrow> u32 \<Rightarrow> 'w res) \<Rightarrow>
   (phys_kind \<Rightarrow> u32 \<Rightarrow> 'a dpc_state_scheme \<Rightarrow> ('w \<times> 'a dpc_state_scheme) res) \<Rightarrow>
   u32 \<Rightarrow> 'a dpc_state_scheme \<Rightarrow> ('w \<times> 'a dpc_state_scheme) res" where
  "read_paddr n host be device paddr s =
     (if paddr \<le> PHYS_RDRAM_MEM_END then
        (let s1 = check_framebuffers paddr n s
         in bindR (host (rdram (mem s1)) paddr) (\<lambda>v. ok (v, s1)))
      else let kind = phys_map (drop_bit 16 paddr)
      in if kind = SpMem \<and> in_dmem paddr then
           bindR (be (sp_dmem (rsp s)) ((paddr - PHYS_SPDMEM_BASE) AND 0xFFF)) (\<lambda>v. ok (v, s))
         else if kind = SpMem \<and> in_imem paddr then
           bindR (host (sp_imem (rsp s)) (paddr - PHYS_SPIMEM_BASE)) (\<lambda>v. ok (v, s))
         else device kind paddr s)"

definition dmem_read64 :: "bytes \<Rightarrow> u32 \<Rightarrow> u64 res" where
  "dmem_read64 m offs =
     bindR (read_from_byte_array32_be m offs) (\<lambda>h.
     bindR (read_from_byte_array32_be m ((offs + 4) AND 0xFFF)) (\<lambda>l.
       ok (push_bit 32 (ucast h) OR ucast l)))"

definition read_paddr64 :: "u32 \<Rightarrow> 'a dpc_state_scheme \<Rightarrow> (u64 \<times> 'a dpc_state_scheme) res" where
  "read_paddr64 = read_paddr 8 read_from_byte_array64 dmem_read64 (\<lambda>_ _ _. Inl Aborted)"

definition read_paddr32 :: "u32 \<Rightarrow> 'a dpc_state_scheme \<Rightarrow> (u32 \<times> 'a dpc_state_scheme) res" where
  "read_paddr32 = read_paddr 4 read_from_byte_array32 read_from_byte_array32_be read_device32"

definition read_paddr16 :: "u32 \<Rightarrow> 'a dpc_state_scheme \<Rightarrow> (u16 \<times> 'a dpc_state_scheme) res" where
  "read_paddr16 = read_paddr 2 read_from_byte_array16 read_from_byte_array16_be (\<lambda>_ _ _. Inl Aborted)"

definition read_paddr8 :: "u32 \<Rightarrow> 'a dpc_state_scheme \<Rightarrow> (u8 \<times> 'a dpc_state_scheme) res" where
  "read_paddr8 = read_paddr 1 read_from_byte_array8 get_plain (\<lambda>_ _ _. Inl Aborted)"

section \<open>Writes\<close>

definition write_device32 :: "phys_kind \<Rightarrow> u32 \<Rightarrow> u32 \<Rightarrow> 'a dpc_state_scheme \<Rightarrow> 'a dpc_state_scheme res" where
  "write_device32 kind paddr v s =
     (case kind of
        RspReg \<Rightarrow> rsp_write_paddr32 paddr v s
      | Dpc \<Rightarrow> dpc_write_paddr32 paddr v s
      | Vi \<Rightarrow> vi_write_paddr32 paddr v s
      | Ai \<Rightarrow> ai_write_paddr32 paddr v s
      | Mi \<Rightarrow> mi_write_paddr32 paddr v s
      | Pi \<Rightarrow> pi_write_paddr32 paddr v s
      | Ri \<Rightarrow> bindR (ri_write_paddr32 paddr v (ri (mem s))) (\<lambda>r. ok (s\<lparr>mem := (mem s)\<lparr>ri := r\<rparr>\<rparr>))
      | Si \<Rightarrow> si_write_paddr32 paddr v s
      | Sram \<Rightarrow>
          (let sr = sram (mem s)
           in if bytes_len sr = 0 then ok s
              else map_sram (write_to_byte_array32_be (sram_bus_offset paddr sr) v) s)
      | Rom \<Rightarrow>
          bindR (write_to_byte_array32 (paddr - PHYS_ROM_BASE) v (rom_data (rom (mem s)))) (\<lambda>b.
            ok (s\<lparr>mem := (mem s)\<lparr>rom := (rom (mem s))\<lparr>rom_data := b\<rparr>\<rparr>\<rparr>))
      | PifPage \<Rightarrow>
          (if in_pif_ram paddr then
             bindR (write_to_byte_array32_be (paddr - PHYS_PIF_RAM_BASE) v (pif_ram (si s))) (\<lambda>b.
             bindR ((if paddr = 0x1FC007C0 then pif_control_write else ok) ((si s)\<lparr>pif_ram := b\<rparr>)) (\<lambda>r.
               ok (map_si (\<lambda>_. r) s)))
           else Inl Aborted)
      | SpMem \<Rightarrow> Inl Aborted
      | Unmapped \<Rightarrow> Inl Aborted)"

text \<open>At the other widths a write of a cartridge without SRAM is ignored and the rest stops the emulator.\<close>

definition write_device_narrow :: "phys_kind \<Rightarrow> u32 \<Rightarrow> 'w \<Rightarrow> 'a dpc_state_scheme \<Rightarrow> 'a dpc_state_scheme res" where
  "write_device_narrow kind paddr v s =
     (if kind = Sram \<and> bytes_len (sram (mem s)) = 0 then ok s else Inl Aborted)"

text \<open>The SP memories are written by whole words: \<open>unit\<close> is the number of bytes, \<open>be_put\<close> and
  \<open>host_put\<close> store the value at an offset into DMEM and IMEM.\<close>

definition write_paddr ::
  "u32 \<Rightarrow> (u32 \<Rightarrow> 'w \<Rightarrow> bytes \<Rightarrow> bytes res) \<Rightarrow> u32 \<Rightarrow>
   (u32 \<Rightarrow> 'w \<Rightarrow> bytes \<Rightarrow> bytes res) \<Rightarrow> (u32 \<Rightarrow> 'w \<Rightarrow> bytes \<Rightarrow> bytes res) \<Rightarrow>
   (phys_kind \<Rightarrow> u32 \<Rightarrow> 'w \<Rightarrow> 'a dpc_state_scheme \<Rightarrow> 'a dpc_state_scheme res) \<Rightarrow>
   u32 \<Rightarrow> 'w \<Rightarrow> 'a dpc_state_scheme \<Rightarrow> 'a dpc_state_scheme res" where
  "write_paddr n host unit be_put host_put device paddr v s =
     (if paddr \<le> PHYS_RDRAM_MEM_END then
        bindR (map_rdram (host paddr v) (on_rdram_write paddr n s)) (\<lambda>s1. ok (maybe_invalidate_code paddr n s1))
      else let kind = phys_map (drop_bit 16 paddr)
      in if kind = SpMem \<and> in_dmem paddr then
           (let offs = (paddr - PHYS_SPDMEM_BASE) AND 0xFFF
            in bindR (be_put offs v (sp_dmem (rsp s))) (\<lambda>b. ok (map_rsp (\<lambda>r. r\<lparr>sp_dmem := b\<rparr>) s)))
         else if kind = SpMem \<and> in_imem paddr then
           (let offs = (paddr - PHYS_SPIMEM_BASE) AND 0xFFF
            in bindR (host_put offs v (sp_imem (rsp s))) (\<lambda>b.
                 ok (map_rsp (\<lambda>r. note_imem_written (offs AND NOT (unit - 1)) unit (r\<lparr>sp_imem := b\<rparr>)) s)))
         else device kind paddr v s)"

text \<open>The word that a byte or a halfword becomes: the other bytes are zero.\<close>

definition sp_word8 :: "u32 \<Rightarrow> u8 \<Rightarrow> u32" where
  "sp_word8 offs v = push_bit (8 * (3 - unat (offs AND 3))) (ucast v)"

definition sp_word16 :: "u32 \<Rightarrow> u16 \<Rightarrow> u32" where
  "sp_word16 offs v = (if offs AND 2 = 0 then push_bit 16 (ucast v) else ucast v)"

abbreviation (input) "word_of_offs offs \<equiv> offs AND NOT (3 :: u32)"

definition write_paddr64 :: "u32 \<Rightarrow> u64 \<Rightarrow> 'a dpc_state_scheme \<Rightarrow> 'a dpc_state_scheme res" where
  "write_paddr64 = write_paddr 8 write_to_byte_array64 8
     (\<lambda>offs. write_to_byte_array64_be (offs AND NOT 7)) (\<lambda>offs. write_to_byte_array64 (offs AND NOT 7))
     write_device_narrow"

definition write_paddr32 :: "u32 \<Rightarrow> u32 \<Rightarrow> 'a dpc_state_scheme \<Rightarrow> 'a dpc_state_scheme res" where
  "write_paddr32 = write_paddr 4 write_to_byte_array32 4
     (\<lambda>offs. write_to_byte_array32_be (word_of_offs offs)) (\<lambda>offs. write_to_byte_array32 (word_of_offs offs))
     write_device32"

definition write_paddr16 :: "u32 \<Rightarrow> u16 \<Rightarrow> 'a dpc_state_scheme \<Rightarrow> 'a dpc_state_scheme res" where
  "write_paddr16 = write_paddr 2 write_to_byte_array16 4
     (\<lambda>offs v. write_to_byte_array32_be (word_of_offs offs) (sp_word16 offs v))
     (\<lambda>offs v. write_to_byte_array32 (word_of_offs offs) (sp_word16 offs v))
     write_device_narrow"

definition write_paddr8 :: "u32 \<Rightarrow> u8 \<Rightarrow> 'a dpc_state_scheme \<Rightarrow> 'a dpc_state_scheme res" where
  "write_paddr8 = write_paddr 1 write_to_byte_array8 4
     (\<lambda>offs v. write_to_byte_array32_be (word_of_offs offs) (sp_word8 offs v))
     (\<lambda>offs v. write_to_byte_array32 (word_of_offs offs) (sp_word8 offs v))
     write_device_narrow"

end
