(* ===== verification/Bus_Spec.thy ===== *)
theory Bus_Spec
  imports Bus
begin

text \<open>
  What a store on the bus does to memory. The contract \<open>rdram_access\<close> says of the accessors of one
  width that they agree with the console's byte order; the bus is correct for every width that meets
  it, and the four widths do.
\<close>

section \<open>Natural alignment\<close>

definition naturally_aligned :: "u32 \<Rightarrow> u32 \<Rightarrow> bool" where
  "naturally_aligned n a \<longleftrightarrow> unat a mod unat n = 0"

text \<open>The bytes of an access of \<open>n\<close> bytes at \<open>a\<close>.\<close>

definition within :: "u32 \<Rightarrow> u32 \<Rightarrow> u32 \<Rightarrow> bool" where
  "within a n b \<longleftrightarrow> unat a \<le> unat b \<and> unat b < unat a + unat n"

section \<open>The contract of the accessors of one width\<close>

locale rdram_access = word_store rd wr cells
  for rd :: "bytes \<Rightarrow> u32 \<Rightarrow> 'w::len word res" and wr :: "u32 \<Rightarrow> 'w word \<Rightarrow> bytes \<Rightarrow> bytes res"
    and cells :: "u32 \<Rightarrow> nat set" +
  fixes n :: u32
  assumes cells_within: "naturally_aligned n a \<Longrightarrow> unat (byte_address b) \<in> cells a \<Longrightarrow> within a n b"
    and wr_inside: "naturally_aligned n a \<Longrightarrow> unat a < bytes_len m \<Longrightarrow> bytes_len m mod 8 = 0 \<Longrightarrow>
                    \<exists>m'. wr a v m = Inr m'"
begin

lemma wr_bytes:
  assumes "naturally_aligned n a" and "wr a v m = Inr m'" and "\<not> within a n b"
  shows "n64_byte m' b = n64_byte m b"
  using wr_frame [OF assms(2)] cells_within [OF assms(1), of b] assms(3) by (auto simp: n64_byte_def)

lemma bus_store:
  assumes "mem_ok s" and "paddr \<le> PHYS_RDRAM_MEM_END" and "naturally_aligned n paddr"
  obtains m where "wr paddr v (rdram (mem s)) = Inr m" and "bytes_len m = 0x800000"
    and "write_paddr n wr unit be_put host_put device paddr v s =
      Inr (maybe_invalidate_code paddr n ((on_rdram_write paddr n s)\<lparr>mem := (mem s)\<lparr>rdram := m\<rparr>\<rparr>))"
proof -
  have len: "bytes_len (rdram (mem s)) = 0x800000" using assms(1) by (simp add: mem_ok_def)
  moreover have "unat paddr < 0x800000" using assms(2) by (simp add: word_le_nat_alt)
  ultimately obtain m where m: "wr paddr v (rdram (mem s)) = Inr m"
    using wr_inside [OF assms(3), of "rdram (mem s)" v] by auto
  moreover have "bytes_len m = 0x800000" using wr_len [OF m] len by simp
  moreover have "write_paddr n wr unit be_put host_put device paddr v s =
      Inr (maybe_invalidate_code paddr n ((on_rdram_write paddr n s)\<lparr>mem := (mem s)\<lparr>rdram := m\<rparr>\<rparr>))"
    using assms(2) m by (simp add: write_paddr_def map_rdram_def)
  ultimately show ?thesis by (rule that)
qed

lemma bus_store_correct:
  assumes "mem_ok s" and "code_coherent s" and "hook s = Interp_hook"
    and "paddr \<le> PHYS_RDRAM_MEM_END" and "naturally_aligned n paddr"
  shows "\<exists>s'. write_paddr n wr unit be_put host_put device paddr v s = Inr s' \<and>
    rd (rdram (mem s')) paddr = Inr v \<and>
    (\<forall>b. \<not> within paddr n b \<longrightarrow> n64_byte (rdram (mem s')) b = n64_byte (rdram (mem s)) b) \<and>
    mem_ok s' \<and> code_coherent s'"
proof -
  obtain m where m: "wr paddr v (rdram (mem s)) = Inr m" "bytes_len m = 0x800000"
    and r: "write_paddr n wr unit be_put host_put device paddr v s =
      Inr (maybe_invalidate_code paddr n ((on_rdram_write paddr n s)\<lparr>mem := (mem s)\<lparr>rdram := m\<rparr>\<rparr>))"
    using bus_store [OF assms(1,4,5)] by metis
  note keep = wr_bytes [OF assms(5) m(1)]
  have coh: "code_coherent (maybe_invalidate_code paddr n
      ((on_rdram_write paddr n s)\<lparr>mem := (mem (on_rdram_write paddr n s))\<lparr>rdram := m\<rparr>\<rparr>))"
  proof (rule coherent_store)
    show "code_coherent (on_rdram_write paddr n s)"
      using assms(2) code_coherent_cong [of "on_rdram_write paddr n s" s] by simp
    show "hook (on_rdram_write paddr n s) = Interp_hook" using assms(3) by simp
    show "bytes_len (rdram (mem (on_rdram_write paddr n s))) = 0x800000" "bytes_len m = 0x800000"
      using assms(1) m(2) by (simp_all add: mem_ok_def)
    fix b assume "n64_byte m b \<noteq> n64_byte (rdram (mem (on_rdram_write paddr n s))) b"
    then show "unat paddr \<le> unat b \<and> unat b < unat paddr + unat n"
      using keep [of b] by (auto simp: within_def)
  qed
  have "mem_ok (maybe_invalidate_code paddr n ((on_rdram_write paddr n s)\<lparr>mem := (mem s)\<lparr>rdram := m\<rparr>\<rparr>))"
    using assms(1) m(2) by (simp add: mem_ok_def)
  with r coh keep wr_rd [OF m(1)] show ?thesis by simp
qed

end

text \<open>A byte address by its word and its place in the word.\<close>

lemma byte_place:
  obtains q r where "unat b = 4 * q + r" and "r = 0 \<or> r = 1 \<or> r = 2 \<or> r = 3"
    and "unat (byte_address b) = 4 * q + (3 - r)"
proof
  show "unat b = 4 * (unat b div 4) + unat b mod 4" by simp
  have "unat b mod 4 < 4" by simp
  then show "unat b mod 4 = 0 \<or> unat b mod 4 = 1 \<or> unat b mod 4 = 2 \<or> unat b mod 4 = 3" by linarith
  show "unat (byte_address b) = 4 * (unat b div 4) + (3 - unat b mod 4)"
    by (simp only: byte_address_def unat_flip3)
qed

lemma aligned_multiple:
  assumes "naturally_aligned n a"
  obtains p where "unat a = unat n * p"
  using assms by (auto simp: naturally_aligned_def mod_eq_0_iff_dvd elim: dvdE)

lemma aligned_fits:
  assumes "naturally_aligned n a" and "unat a < len" and "len mod 8 = 0" and "unat n dvd 8"
  shows "unat a + unat n \<le> len"
proof -
  have "unat n dvd len" using assms(3,4) by (metis dvd_trans mod_eq_0_iff_dvd)
  then obtain k where k: "len = unat n * k" by (auto elim: dvdE)
  obtain p where p: "unat a = unat n * p" using assms(1) by (rule aligned_multiple)
  have "p < k" using assms(2) k p by simp
  then have "unat n * Suc p \<le> unat n * k" by (intro mult_le_mono2) simp
  then show ?thesis using k p by simp
qed

interpretation access8: rdram_access read_from_byte_array8 write_to_byte_array8
    "\<lambda>a. {unat (byte_address a)}" 1
proof unfold_locales
  fix a :: u32 and m :: bytes and v :: u8
  assume a: "unat a < bytes_len m" and l: "bytes_len m mod 8 = 0"
  have "bytes_len m mod 4 = 0" using l by (simp add: mod_eq_0_iff_dvd dvd_trans [of 4 8])
  with a show "\<exists>m'. write_to_byte_array8 a v m = Inr m'"
    using write8_in_range [of m a v] by (simp add: in_range_def word_sized_def)
qed (simp add: within_def)

text \<open>An even address is the first or the third byte of its word.\<close>

lemma half_place:
  assumes "naturally_aligned 2 a"
  obtains p s where "unat a = 4 * p + s" and "s = 0 \<or> s = 2" and "unat (half_address a) = 4 * p + (2 - s)"
proof
  show "unat a = 4 * (unat a div 4) + unat a mod 4" by simp
  have "unat a mod 4 mod 2 = 0" using assms by (simp add: naturally_aligned_def mod_mod_cancel)
  moreover have "unat a mod 4 < 4" by simp
  then have "unat a mod 4 = 0 \<or> unat a mod 4 = 1 \<or> unat a mod 4 = 2 \<or> unat a mod 4 = 3" by linarith
  ultimately show s: "unat a mod 4 = 0 \<or> unat a mod 4 = 2" by fastforce
  then show "unat (half_address a) = 4 * (unat a div 4) + (2 - unat a mod 4)"
    unfolding half_address_def unat_flip2 by (elim disjE) simp_all
qed

interpretation access16: rdram_access read_from_byte_array16 write_to_byte_array16
    "\<lambda>a. {unat (half_address a), unat (half_address a) + 1}" 2
proof unfold_locales
  fix a b :: u32
  assume al: "naturally_aligned 2 a"
    and c: "unat (byte_address b) \<in> {unat (half_address a), unat (half_address a) + 1}"
  obtain p s where a: "unat a = 4 * p + s" "s = 0 \<or> s = 2" "unat (half_address a) = 4 * p + (2 - s)"
    using al by (rule half_place)
  obtain q r where b: "unat b = 4 * q + r" "r = 0 \<or> r = 1 \<or> r = 2 \<or> r = 3"
      "unat (byte_address b) = 4 * q + (3 - r)" by (rule byte_place)
  show "within a 2 b" using c a(2) b(2) unfolding a(3) b(3) within_def a(1) b(1)
    by (elim disjE) (simp_all, presburger+)
next
  fix a :: u32 and m :: bytes and v :: u16
  assume al: "naturally_aligned 2 a" and m: "unat a < bytes_len m" "bytes_len m mod 8 = 0"
  obtain p s where a: "unat a = 4 * p + s" "s = 0 \<or> s = 2" "unat (half_address a) = 4 * p + (2 - s)"
    using al by (rule half_place)
  obtain k where "bytes_len m = 8 * k" using m(2) by (auto simp: mod_eq_0_iff_dvd elim: dvdE)
  then have "unat (half_address a) + 2 \<le> bytes_len m" using m(1) a by auto
  then show "\<exists>m'. write_to_byte_array16 a v m = Inr m'" by (simp add: write_to_byte_array16_def Let_def)
qed

interpretation access32: rdram_access read_from_byte_array32 write_to_byte_array32
    "\<lambda>a. cells4 (unat a)" 4
proof unfold_locales
  fix a b :: u32
  assume al: "naturally_aligned 4 a" and c: "unat (byte_address b) \<in> cells4 (unat a)"
  obtain p where a: "unat a = 4 * p" using aligned_multiple [OF al] by auto
  obtain q r where b: "unat b = 4 * q + r" "r = 0 \<or> r = 1 \<or> r = 2 \<or> r = 3"
      "unat (byte_address b) = 4 * q + (3 - r)" by (rule byte_place)
  show "within a 4 b" using c b(2) unfolding b(3) within_def a b(1) cells4_def
    by (elim disjE) (simp_all, presburger+)
next
  fix a :: u32 and m :: bytes and v :: u32
  assume "naturally_aligned 4 a" "unat a < bytes_len m" "bytes_len m mod 8 = 0"
  from aligned_fits [OF this] show "\<exists>m'. write_to_byte_array32 a v m = Inr m'"
    by (simp add: write_to_byte_array32_def)
qed

interpretation access64: rdram_access read_from_byte_array64 write_to_byte_array64
    "\<lambda>a. cells4 (unat a) \<union> cells4 (unat a + 4)" 8
proof unfold_locales
  fix a b :: u32
  assume al: "naturally_aligned 8 a" and c: "unat (byte_address b) \<in> cells4 (unat a) \<union> cells4 (unat a + 4)"
  obtain p where a: "unat a = 8 * p" using aligned_multiple [OF al] by auto
  obtain q r where b: "unat b = 4 * q + r" "r = 0 \<or> r = 1 \<or> r = 2 \<or> r = 3"
      "unat (byte_address b) = 4 * q + (3 - r)" by (rule byte_place)
  show "within a 8 b" using c b(2) unfolding b(3) within_def a b(1) cells4_def
    by (elim disjE) (simp_all, presburger+)
next
  fix a :: u32 and m :: bytes and v :: u64
  assume "naturally_aligned 8 a" "unat a < bytes_len m" "bytes_len m mod 8 = 0"
  from aligned_fits [OF this] show "\<exists>m'. write_to_byte_array64 a v m = Inr m'"
    by (simp add: write_to_byte_array64_def Let_def)
qed

lemma bus_read_rdram:
  assumes "a \<le> PHYS_RDRAM_MEM_END" and "host (rdram (mem s)) a = Inr v"
  shows "\<exists>t. read_paddr n host be device a s = Inr (v, t)"
  using assms by (simp add: read_paddr_def Let_def)

section \<open>IMEM\<close>

lemma unat_align:
  fixes x :: u32
  shows "unat (x AND NOT (mask k)) = 2 ^ k * (unat x div 2 ^ k)"
proof -
  have "x AND NOT (mask k) = push_bit k (drop_bit k x)"
    by (rule bit_word_eqI) (auto simp: bit_and_iff bit_not_iff bit_mask_iff bit_push_bit_iff bit_drop_bit_eq)
  then have e: "unat (x AND NOT (mask k)) = take_bit 32 (push_bit k (drop_bit k (unat x)))"
    by (simp only: unsigned_push_bit_eq unat_drop_bit_eq len_bit0 len_num1 mult_1_right) simp
  have "2 ^ k * (unat x div 2 ^ k) \<le> unat x" by simp
  moreover have "unat x < 2 ^ 32" using unsigned_less [of x] by simp
  ultimately have "2 ^ k * (unat x div 2 ^ k) < 2 ^ 32" by (rule le_less_trans)
  then show ?thesis unfolding e
    by (simp only: push_bit_eq_mult drop_bit_eq_div [where 'a = nat] mult.commute take_bit_nat_eq_self)
qed

lemma unat_align48:
  "unat (x AND NOT 3) = 4 * (unat x div 4)" "unat (x AND NOT 7) = 8 * (unat x div 8)"
  "unat (x AND - 4) = 4 * (unat x div 4)" "unat (x AND - 8) = 8 * (unat x div 8)" for x :: u32
  using unat_align [of x 2] unat_align [of x 3] by (simp_all add: mask_eq_exp_minus_1)

text \<open>A store that only changes the words from \<open>a\<close> on, and the refresh of these words.\<close>

lemma imem_ok_stored:
  assumes "imem_ok r" and "unat a = 4 * p" and "p + n \<le> 1024"
    and "\<And>k. k < p \<or> p + n \<le> k \<Longrightarrow> le32_at b (4 * k) = le32_at (sp_imem r) (4 * k)"
  shows "imem_ok (refresh_words n a (r\<lparr>sp_imem := b\<rparr>))"
proof (rule imem_ok_refresh [OF assms(1)])
  fix k assume k: "k < 1024" and no: "\<nexists>i. i < n \<and> k = word_index (a + 4 * word_of_nat i)"
  have "k < p \<or> p + n \<le> k"
  proof (rule ccontr)
    assume "\<not> ?thesis"
    then obtain i where i: "k = p + i" "i < n" by (metis le_Suc_ex nat_add_left_cancel_less not_le)
    have "unat (4 * word_of_nat i :: u32) = 4 * i"
      using i assms(3) by (simp add: unat_word_ariths unat_of_nat take_bit_nat_eq_self)
    then have "unat (a + 4 * word_of_nat i) = 4 * k"
      using i assms(2,3) unat_word_ariths(1) [of a "4 * word_of_nat i"] by simp
    then have "k = word_index (a + 4 * word_of_nat i)" using k by (simp add: word_index_eq)
    with no i show False by blast
  qed
  then show "imem_word k (r\<lparr>sp_imem := b\<rparr>) = imem_word k r"
    using assms(4) by (simp add: imem_word_def)
qed simp

lemma imem_store32:
  assumes "imem_ok r" and "write_to_byte_array32 (x AND NOT 3) v (sp_imem r) = Inr b" and "x \<le> 0xFFF"
  shows "imem_ok (note_imem_written (x AND NOT 3) 4 (r\<lparr>sp_imem := b\<rparr>))"
proof -
  let ?p = "unat x div 4"
  have b: "b = le32_put (4 * ?p) v (sp_imem r)"
    using assms(2) by (simp add: write_to_byte_array32_def unat_align48 split: if_splits)
  have "unat x \<le> 4095" using assms(3) by (simp add: word_le_nat_alt)
  then have "?p + 1 \<le> 1024" by linarith
  moreover have "le32_at b (4 * k) = le32_at (sp_imem r) (4 * k)" if "k < ?p \<or> ?p + 1 \<le> k" for k
    unfolding b by (rule le32_at_put_other) (use that in linarith)
  ultimately have "imem_ok (refresh_words 1 (x AND NOT 3) (r\<lparr>sp_imem := b\<rparr>))"
    by (intro imem_ok_stored [OF assms(1) unat_align48(1)])
  then show ?thesis by (simp add: note_imem_written_def)
qed

lemma imem_store64:
  assumes "imem_ok r" and "write_to_byte_array64 (x AND NOT 7) v (sp_imem r) = Inr b" and "x \<le> 0xFFF"
  shows "imem_ok (note_imem_written (x AND NOT 7) 8 (r\<lparr>sp_imem := b\<rparr>))"
proof -
  let ?q = "unat x div 8" let ?p = "2 * ?q"
  obtain l h where b: "b = le32_put (8 * ?q + 4) h (le32_put (8 * ?q) l (sp_imem r))
      \<or> b = le32_put (8 * ?q) l (le32_put (8 * ?q + 4) h (sp_imem r))"
    using assms(2) by (auto simp: write_to_byte_array64_def Let_def unat_align48 split: if_splits)
  have "unat x \<le> 4095" using assms(3) by (simp add: word_le_nat_alt)
  then have "unat x div 8 \<le> 4095 div 8" by (rule div_le_mono)
  then have "?p + 2 \<le> 1024" by simp
  moreover have "le32_at b (4 * k) = le32_at (sp_imem r) (4 * k)" if "k < ?p \<or> ?p + 2 \<le> k" for k
  proof -
    have o: "8 * ?q + 4 \<le> 4 * k \<or> 4 * k + 4 \<le> 8 * ?q" "(8 * ?q + 4) + 4 \<le> 4 * k \<or> 4 * k + 4 \<le> 8 * ?q + 4"
      using that by linarith+
    show ?thesis using b by (elim disjE) (simp_all only: le32_at_put_other [OF o(1)] le32_at_put_other [OF o(2)])
  qed
  moreover have "unat (x AND NOT 7) = 4 * ?p" by (simp add: unat_align48)
  ultimately have "imem_ok (refresh_words 2 (x AND NOT 7) (r\<lparr>sp_imem := b\<rparr>))"
    by (intro imem_ok_stored [OF assms(1)])
  then show ?thesis by (simp add: note_imem_written_def)
qed

section \<open>The other devices leave the RSP alone\<close>

lemma rsp_device_updates [simp]:
  "rsp (map_ai f s) = rsp s" "rsp (map_pi g s) = rsp s" "rsp (map_si h s) = rsp s"
  "rsp (set_timer c cb s) = rsp s" "rsp (pi_finish d ca l cb s) = rsp s" "rsp (si_finish s) = rsp s"
  for s :: "'a rsp_state_scheme"
  by (simp_all add: map_ai_def map_pi_def map_si_def set_timer_def pi_finish_def si_finish_def
      raise_intr_def check_interrupt_def set_cause_def set_mi_intr_def)

lemma rsp_map_rdram: "holds_ok (\<lambda>s'. rsp s' = rsp s) (map_rdram f s)"
  and rsp_map_sram: "holds_ok (\<lambda>s'. rsp s' = rsp s) (map_sram f s)" for s :: "'a rsp_state_scheme"
  by (auto simp: map_rdram_def map_sram_def holds_ok_iff bindR_eq_Inr)

lemma rsp_check_interrupt [simp]: "rsp (check_interrupt s) = rsp s" "rsp (set_mi_intr i b s) = rsp s"
    "rsp (set_mi_mode v s) = rsp s"
  for s :: "'a rsp_state_scheme"
  by (simp_all add: check_interrupt_def set_cause_def set_mi_intr_def set_mi_mode_def)

lemma keeps_rsp_bind:
  assumes "holds_ok (\<lambda>t. rsp t = rsp s) m" and "\<And>t. rsp t = rsp s \<Longrightarrow> holds_ok (\<lambda>t. rsp t = rsp s) (f t)"
  shows "holds_ok (\<lambda>t. rsp t = rsp s) (bindR m f)"
  using assms by (rule holds_ok_bindR)

lemma rsp_vi_write: "holds_ok (\<lambda>t. rsp t = rsp s) (vi_write_paddr32 p v s)"
  by (simp add: vi_write_paddr32_def Let_def)

lemma rsp_mi_write: "holds_ok (\<lambda>t. rsp t = rsp s) (mi_write_paddr32 p v s)"
  by (simp add: mi_write_paddr32_def mi_write_mode_def mi_write_mask_def Let_def)

lemma rsp_push_audio: "holds_ok (\<lambda>t. rsp t = rsp s) (push_dma_audio a l s)"
  by (auto simp: push_dma_audio_def holds_ok_iff bindR_eq_Inr)

lemma rsp_next_dma: "holds_ok (\<lambda>t. rsp t = rsp s) (start_next_dma s)"
proof -
  have "holds_ok (\<lambda>t. rsp t = rsp s) (push_dma_audio a l (set_timer d c (raise_intr i (s\<lparr>ai := x\<rparr>))))" for a l d c i x
    using rsp_push_audio [of "set_timer d c (raise_intr i (s\<lparr>ai := x\<rparr>))" a l] by simp
  then show ?thesis by (simp add: start_next_dma_def Let_def)
qed

lemma rsp_ai_write: "holds_ok (\<lambda>t. rsp t = rsp s) (ai_write_paddr32 p v s)"
proof -
  have "holds_ok (\<lambda>t. rsp t = rsp s) (start_next_dma (s\<lparr>ai := x\<rparr>))" for x
    using rsp_next_dma [of "s\<lparr>ai := x\<rparr>"] by simp
  then show ?thesis by (simp add: ai_write_paddr32_def enqueue_dma_def Let_def)
qed

lemma rsp_pi_copy:
  "holds_ok (\<lambda>t. rsp t = rsp s) (pi_copy_to_rdram c d l s)" "holds_ok (\<lambda>t. rsp t = rsp s) (pi_copy_from_rdram c d l s)"
  by (simp_all add: pi_copy_to_rdram_def pi_copy_from_rdram_def Let_def rsp_map_rdram rsp_map_sram)

lemma rsp_pi_dma:
  "holds_ok (\<lambda>t. rsp t = rsp s) (pi_dma_write s)" "holds_ok (\<lambda>t. rsp t = rsp s) (pi_dma_read s)"
proof -
  have w: "holds_ok (\<lambda>t. rsp t = rsp s) (pi_copy_to_rdram c d l (on_rdram_write a n (map_pi f s)))" for c d l a n f
    using rsp_pi_copy(1) [of "on_rdram_write a n (map_pi f s)" c d l] by simp
  have r: "holds_ok (\<lambda>t. rsp t = rsp s) (pi_copy_from_rdram c d l (check_framebuffers a n (map_pi f s)))" for c d l a n f
    using rsp_pi_copy(2) [of "check_framebuffers a n (map_pi f s)" c d l] by simp
  show "holds_ok (\<lambda>t. rsp t = rsp s) (pi_dma_write s)" unfolding pi_dma_write_def Let_def
    by (rule keeps_rsp_bind [OF w]) simp
  show "holds_ok (\<lambda>t. rsp t = rsp s) (pi_dma_read s)" unfolding pi_dma_read_def Let_def
    by (rule keeps_rsp_bind [OF r]) simp
qed

lemma rsp_pi_write: "holds_ok (\<lambda>t. rsp t = rsp s) (pi_write_paddr32 p v s)"
proof -
  have d: "holds_ok (\<lambda>t. rsp t = rsp s) (pi_dma_write (map_pi f s))" "holds_ok (\<lambda>t. rsp t = rsp s) (pi_dma_read (map_pi f s))" for f
    using rsp_pi_dma [of "map_pi f s"] by simp_all
  have "rsp (pi_write_status v s) = rsp s" by (simp add: pi_write_status_def Let_def)
  then show ?thesis by (simp add: pi_write_paddr32_def d)
qed

lemma rsp_si_dma:
  "holds_ok (\<lambda>t. rsp t = rsp s) (dma_from_pif_to_dram s)" "holds_ok (\<lambda>t. rsp t = rsp s) (dma_from_dram_to_pif s)"
proof -
  have "holds_ok (\<lambda>t. rsp t = rsp s) (map_rdram f (on_rdram_write a n (s\<lparr>si := r\<rparr>)))" for f a n r
    using rsp_map_rdram [of "on_rdram_write a n (s\<lparr>si := r\<rparr>)" f] by simp
  then have w: "holds_ok (\<lambda>t. rsp t = rsp s)
      (bindR (map_rdram f (on_rdram_write a n (s\<lparr>si := r\<rparr>))) (\<lambda>s3. ok (si_finish s3)))" for f a n r
    by (rule keeps_rsp_bind) simp
  show "holds_ok (\<lambda>t. rsp t = rsp s) (dma_from_pif_to_dram s)" unfolding dma_from_pif_to_dram_def Let_def
    by (intro holds_ok_bindR [of "\<lambda>_. True"] w) (simp add: holds_ok_def split: sum.splits)
  show "holds_ok (\<lambda>t. rsp t = rsp s) (dma_from_dram_to_pif s)" unfolding dma_from_dram_to_pif_def Let_def
    by (auto simp: holds_ok_iff bindR_eq_Inr)
qed

lemma rsp_si_write: "holds_ok (\<lambda>t. rsp t = rsp s) (si_write_paddr32 p v s)"
proof -
  have "holds_ok (\<lambda>t. rsp t = rsp s) (dma_from_pif_to_dram (map_si f s))"
    "holds_ok (\<lambda>t. rsp t = rsp s) (dma_from_dram_to_pif (map_si f s))" for f
    using rsp_si_dma [of "map_si f s"] by simp_all
  then show ?thesis by (simp add: si_write_paddr32_def)
qed

lemma imem_kept: "holds_ok (\<lambda>t. rsp t = rsp s) m \<Longrightarrow> imem_ok (rsp s) \<Longrightarrow> holds_ok (\<lambda>t. imem_ok (rsp t)) m"
  by (auto simp: holds_ok_iff)

lemma device32_keeps_imem:
  assumes "imem_ok (rsp s)"
  shows "holds_ok (\<lambda>t. imem_ok (rsp t)) (write_device32 kind a v s)"
proof -
  have "holds_ok (\<lambda>t. imem_ok (rsp t)) (rsp_write_paddr32 a v s)"
    by (rule rsp_write_keeps_imem [OF assms])
  moreover have sram: "holds_ok (\<lambda>t. rsp t = rsp s) (map_sram f s)" for f by (rule rsp_map_sram)
  ultimately show ?thesis
    using imem_kept [OF rsp_dpc_write assms] imem_kept [OF rsp_vi_write assms] imem_kept [OF rsp_ai_write assms]
      imem_kept [OF rsp_mi_write assms] imem_kept [OF rsp_pi_write assms] imem_kept [OF rsp_si_write assms]
      imem_kept [OF sram assms] assms
    by (cases kind) (auto simp: write_device32_def Let_def holds_ok_iff bindR_eq_Inr)
qed

lemma write_keeps_imem:
  fixes s :: "'a dpc_state_scheme"
  assumes "imem_ok (rsp s)"
    and "\<And>k. holds_ok (\<lambda>t. imem_ok (rsp t)) (device k a v s)"
    and "\<And>x b. x \<le> 0xFFF \<Longrightarrow> host_put x v (sp_imem (rsp s)) = Inr b \<Longrightarrow>
           imem_ok (note_imem_written (x AND NOT (unit - 1)) unit ((rsp s)\<lparr>sp_imem := b\<rparr>))"
  shows "holds_ok (\<lambda>t. imem_ok (rsp t)) (write_paddr n host unit be_put host_put device a v s)"
proof -
  have r: "imem_ok (rsp (maybe_invalidate_code a n t))" if "map_rdram f (on_rdram_write a n s) = Inr t" for f t
    using that assms(1) rsp_map_rdram [of "on_rdram_write a n s" f] by simp
  have d: "imem_ok ((rsp s)\<lparr>sp_dmem := b\<rparr>)" for b
    using assms(1) imem_ok_cong [of "(rsp s)\<lparr>sp_dmem := b\<rparr>" "rsp s"] by simp
  have le: "x AND 0xFFF \<le> 0xFFF" for x :: u32 by (rule word_and_le1)
  show ?thesis
    unfolding write_paddr_def Let_def using r d assms(2) assms(3) [OF le]
    by (auto simp: holds_ok_iff bindR_eq_Inr)
qed

definition stored ::
  "u32 \<Rightarrow> (u32 \<Rightarrow> 'a dpc_state_scheme \<Rightarrow> ('w \<times> 'a dpc_state_scheme) res) \<Rightarrow> u32 \<Rightarrow> 'w \<Rightarrow>
   'a dpc_state_scheme \<Rightarrow> 'a dpc_state_scheme res \<Rightarrow> bool" where
  "stored n load a v s r \<longleftrightarrow>
     (\<exists>s' t. r = Inr s' \<and> load a s' = Inr (v, t) \<and>
        (\<forall>b. \<not> within a n b \<longrightarrow> n64_byte (rdram (mem s')) b = n64_byte (rdram (mem s)) b) \<and>
        mem_ok s' \<and> code_coherent s')"

lemma storedI:
  assumes "a \<le> PHYS_RDRAM_MEM_END"
    and "\<exists>s'. r = Inr s' \<and> host (rdram (mem s')) a = Inr v \<and>
      (\<forall>b. \<not> within a n b \<longrightarrow> n64_byte (rdram (mem s')) b = n64_byte (rdram (mem s)) b) \<and>
      mem_ok s' \<and> code_coherent s'"
  shows "stored n (read_paddr n host be device) a v s r"
  using assms(2) bus_read_rdram [OF assms(1), of host] unfolding stored_def by blast

text \<open>C3: A naturally aligned store of any width to RDRAM succeeds, is read back by a load of that
  width, changes no other byte as the console sees them, and leaves no stale decoded instruction.\<close>

theorem bus_store_coherent:
  assumes "mem_ok s" and "code_coherent s" and "hook s = Interp_hook" and "a \<le> PHYS_RDRAM_MEM_END"
  shows "stored 1 read_paddr8 a v8 s (write_paddr8 a v8 s) \<and>
    (naturally_aligned 2 a \<longrightarrow> stored 2 read_paddr16 a v16 s (write_paddr16 a v16 s)) \<and>
    (naturally_aligned 4 a \<longrightarrow> stored 4 read_paddr32 a v32 s (write_paddr32 a v32 s)) \<and>
    (naturally_aligned 8 a \<longrightarrow> stored 8 read_paddr64 a v64 s (write_paddr64 a v64 s))"
  unfolding read_paddr8_def read_paddr16_def read_paddr32_def read_paddr64_def
    write_paddr8_def write_paddr16_def write_paddr32_def write_paddr64_def
  by (intro conjI impI storedI access8.bus_store_correct access16.bus_store_correct
      access32.bus_store_correct access64.bus_store_correct assms) (simp_all add: naturally_aligned_def)

text \<open>C40: No write on the bus, of any width, to any address and with all it sets off (DMA into IMEM,
  a whole RSP task), leaves a decoded RSP instruction that differs from IMEM.\<close>

theorem bus_keeps_imem:
  assumes "imem_ok (rsp s)"
  shows "holds_ok (\<lambda>t. imem_ok (rsp t)) (write_paddr8 a v8 s) \<and>
    holds_ok (\<lambda>t. imem_ok (rsp t)) (write_paddr16 a v16 s) \<and>
    holds_ok (\<lambda>t. imem_ok (rsp t)) (write_paddr32 a v32 s) \<and>
    holds_ok (\<lambda>t. imem_ok (rsp t)) (write_paddr64 a v64 s)"
proof -
  have n: "holds_ok (\<lambda>t. imem_ok (rsp t)) (write_device_narrow k a v s)" for k v
    using assms by (simp add: write_device_narrow_def)
  have m: "(4 - 1 :: u32) = 3" "(8 - 1 :: u32) = 7" by simp_all
  note st = imem_store32 [OF assms] imem_store64 [OF assms]
  show ?thesis
    unfolding write_paddr8_def write_paddr16_def write_paddr32_def write_paddr64_def
    by (intro conjI write_keeps_imem assms n device32_keeps_imem; unfold m; erule (1) st)
qed

end
