(* ===== verification/Machine.thy ===== *)
theory Machine
  imports Bus_Spec
begin

text \<open>
  The devices behind the scheduler: which handler each scheduled callback runs, and that the handlers
  meet the scheduler's contract. So \<open>tick\<close> always returns, with nothing due left.
\<close>

section \<open>Callbacks\<close>

definition perform_event :: "callback \<Rightarrow> 'a dpc_state_scheme \<Rightarrow> 'a dpc_state_scheme res" where
  "perform_event cb s =
     (case cb of
        On_ai_dma_complete \<Rightarrow> on_ai_dma_complete s
      | On_pi_dma_write_completed \<Rightarrow> ok (on_pi_dma_completed s)
      | On_pi_dma_read_completed \<Rightarrow> ok (on_pi_dma_completed s)
      | On_sp_event \<Rightarrow> on_sp_event s)"

section \<open>What the scheduler can see of a handler\<close>

definition sched_good :: "'a dpc_state_scheme \<Rightarrow> bool" where
  "sched_good s \<longleftrightarrow> sched_ok s \<and> ai_regs_ok (ai s) \<and> vi_timing_ok (vi s)"

text \<open>A handler leaves the clock alone and the audio and video state well formed; of new events it adds only
  events that are later than now.\<close>

definition handled :: "'a dpc_state_scheme \<Rightarrow> 'a dpc_state_scheme \<Rightarrow> bool" where
  "handled s s' \<longleftrightarrow> sched_good s' \<and> now s' = now s \<and> due s' \<subseteq># due s"

lemma events_timer:
  "events (set_timer d cb s) = add_mset (now s + d, Timer cb) (events s)" "now (set_timer d cb s) = now s"
  by (simp_all add: events_def set_timer_def mset_q_push named_part_def now_def)

lemma sched_ok_timer: "sched_ok s \<Longrightarrow> sched_ok (set_timer d cb s)"
  by (simp add: sched_ok_def now_def) (simp add: set_timer_def q_ok_push)

lemma later:
  assumes "sched_ok s" and "0 < d" and "unat d < 0x80000000"
  shows "now s < now s + d"
proof -
  have "unat (now s) \<le> 0xFFFFFFFFFFFF" using assms(1) by (simp add: sched_ok_def word_le_nat_alt)
  then have "unat (now s + d) = unat (now s) + unat d" using assms(3) by (simp add: unat_word_ariths)
  moreover have "0 < unat d" using assms(2) by (simp add: word_less_nat_alt)
  ultimately show ?thesis by (simp add: word_less_nat_alt)
qed

lemma due_timer:
  assumes "sched_ok s" and "0 < d" and "unat d < 0x80000000"
  shows "due (set_timer d cb s) = due s"
  using later [OF assms] by (simp add: due_def events_timer not_le)

lemma due_named:
  assumes "i < 2" and "ne_enabled e \<longrightarrow> now s < ne_at e"
  shows "due (set_named i e s) \<subseteq># due s"
proof -
  have "events (set_named i e s) \<subseteq># named_part ((sched s)\<lparr>sc_named := (sc_named (sched s))(i := e)\<rparr>) i + events s"
    using assms(1) by (auto simp: events_def named_part_def set_named_def less_2_cases_iff
        intro: subset_mset.add_left_mono)
  then have "due (set_named i e s) \<subseteq># filter_mset (\<lambda>x. fst x \<le> now s)
      (named_part ((sched s)\<lparr>sc_named := (sc_named (sched s))(i := e)\<rparr>) i) + due s"
    unfolding due_def by (simp flip: filter_union_mset add: multiset_filter_mono)
  moreover have "filter_mset (\<lambda>x. fst x \<le> now s)
      (named_part ((sched s)\<lparr>sc_named := (sc_named (sched s))(i := e)\<rparr>) i) = {#}"
    using assms(2) by (simp add: named_part_def not_le)
  ultimately show ?thesis by simp
qed

lemma due_sched: "sched s = sched t \<Longrightarrow> due s = due t"
  using events_sched [of s t] by (simp add: due_def)

lemma sched_ok_sched: "sched s = sched t \<Longrightarrow> sched_ok s = sched_ok t"
  by (simp add: sched_ok_def now_def)

lemma now_sched: "sched s = sched t \<Longrightarrow> now s = now t"
  by (simp add: now_def)

section \<open>Audio\<close>

lemma vi_frames [simp]:
  "vi (set_timer d cb s) = vi s" "vi (raise_intr i s) = vi s" "vi (map_ai f t) = vi t"
  for s :: "'a vi_state_scheme" and t :: "'b ai_state_scheme"
  by (simp_all add: set_timer_def raise_intr_def check_interrupt_def set_cause_def set_mi_intr_def map_ai_def)

lemma ai_next_handled:
  assumes "sched_good s"
  shows "holds_ok (\<lambda>s'. handled s s') (start_next_dma s)"
proof (cases "fifo_count (ai s) = 0")
  case True
  then show ?thesis using assms by (simp add: start_next_dma_def handled_def)
next
  case False
  have good: "sched_ok s" "ai_regs_ok (ai s)" "vi_timing_ok (vi s)" using assms by (simp_all add: sched_good_def)
  let ?a0 = "ai s"
  define a1 where "a1 = (if delayed_carry ?a0
    then ?a0\<lparr>ai_addr := (fst (ai_addr ?a0) + 0x2000, snd (ai_addr ?a0)), delayed_carry := False\<rparr> else ?a0)"
  let ?d = "cycles_for_length (fst (ai_length a1)) a1"
  define a2 where "a2 = a1\<lparr>dma_duration_cycles := ?d, dma_start_time := sc_time (sched s)\<rparr>"
  let ?s3 = "set_timer ?d On_ai_dma_complete (raise_intr INTR_AI (s\<lparr>ai := a2\<rparr>))"
  have a1: "ai_regs_ok a1" "fifo_count a1 = fifo_count ?a0"
    using good(2) mod8_add [of "fst (ai_addr ?a0)" "0x2000"] by (auto simp: a1_def ai_regs_ok_def)
  then have a2: "ai_regs_ok a2" by (simp add: a2_def ai_regs_ok_def)
  have "len_ok (fst (ai_length a1))" "unat (dacrate a1) \<le> 0x3FFF"
    using a1 False by (auto simp: ai_regs_ok_def)
  then have d: "7 \<le> unat ?d" "unat ?d < 0x80000000" by (rule cycles_for_length_bounds)+
  have t: "sched (raise_intr INTR_AI (s\<lparr>ai := a2\<rparr>)) = sched s" by simp
  have ok: "sched_ok (raise_intr INTR_AI (s\<lparr>ai := a2\<rparr>))" using sched_ok_sched [OF t] good(1) by simp
  have pos: "0 < ?d" using d(1) by (simp add: word_less_nat_alt)
  have "due ?s3 = due s" using due_timer [OF ok pos d(2)] due_sched [OF t] by simp
  moreover have "now ?s3 = now s" using now_sched [OF t] by (simp add: events_timer)
  ultimately have h: "handled s (map_ai f ?s3)" if "\<And>a. ai_regs_ok (f a) = ai_regs_ok a" for f
    using a2 that good(3) sched_ok_timer [OF ok] sched_ok_sched [of "map_ai f ?s3" ?s3] due_sched [of "map_ai f ?s3" ?s3]
      now_sched [of "map_ai f ?s3" ?s3]
    by (simp add: handled_def sched_good_def map_ai_def)
  have "handled s ?s3"
    using a2 good(3) sched_ok_timer [OF ok] \<open>due ?s3 = due s\<close> \<open>now ?s3 = now s\<close> by (simp add: handled_def sched_good_def)
  moreover have "start_next_dma s = push_dma_audio (fst (ai_addr a2)) (fst (ai_length a2)) ?s3"
    using False by (simp add: start_next_dma_def Let_def a1_def [symmetric] a2_def [symmetric]) (simp add: a2_def)
  ultimately show ?thesis
    by (auto simp: push_dma_audio_def holds_ok_iff bindR_eq_Inr intro!: h)
qed

lemma ai_complete_handled:
  assumes "sched_good s"
  shows "holds_ok (\<lambda>s'. handled s s') (on_ai_dma_complete s)"
proof (cases "fifo_count (ai s) = 0")
  case True
  then show ?thesis using assms by (simp add: on_ai_dma_complete_def handled_def)
next
  case False
  have u: "handled s s'" if "handled (s\<lparr>ai := a\<rparr>) s'" for a s'
    using that due_sched [of "s\<lparr>ai := a\<rparr>" s] now_sched [of "s\<lparr>ai := a\<rparr>" s] by (simp add: handled_def)
  have k: "handled s (s\<lparr>ai := a\<rparr>)" "sched_good (s\<lparr>ai := a\<rparr>)" if "ai_regs_ok a" for a
    using that assms due_sched [of "s\<lparr>ai := a\<rparr>" s] now_sched [of "s\<lparr>ai := a\<rparr>" s] sched_ok_sched [of "s\<lparr>ai := a\<rparr>" s]
    by (simp_all add: handled_def sched_good_def)
  have n: "holds_ok (\<lambda>s'. handled s s') (start_next_dma (s\<lparr>ai := a\<rparr>))" if "ai_regs_ok a" for a
    using ai_next_handled [OF k(2) [OF that]] u by (auto simp: holds_ok_iff)
  show ?thesis using False assms
    by (auto simp: on_ai_dma_complete_def Let_def sched_good_def intro!: n k) (auto simp: ai_regs_ok_def)
qed

section \<open>The RSP\<close>

text \<open>An instruction leaves the audio and video state alone and of the schedule it can only cancel the event of
  the RSP itself.\<close>

definition quiet :: "'a dpc_state_scheme \<Rightarrow> 'a dpc_state_scheme \<Rightarrow> bool" where
  "quiet s s' \<longleftrightarrow> ai s' = ai s \<and> vi s' = vi s \<and> (sched s' = sched s \<or> sched s' = sched (cancel_named NE_Sp s))"

lemma cancel_sched: "sched (cancel_named i s) = (sched s)\<lparr>sc_named := (sc_named (sched s))
    (i := \<lparr>ne_enabled = False, ne_at = 0, ne_cb = None\<rparr>)\<rparr>"
  by (simp add: cancel_named_def set_named_def)

lemma quiet_trans [trans]: "quiet s t \<Longrightarrow> quiet t u \<Longrightarrow> quiet s u"
  by (auto simp: quiet_def cancel_sched)

lemma quiet_same: "sched s' = sched s \<Longrightarrow> ai s' = ai s \<Longrightarrow> vi s' = vi s \<Longrightarrow> quiet s s'"
  by (simp add: quiet_def)

lemma quiet_map_rsp: "quiet s (map_rsp f t) = quiet s t" "quiet (map_rsp f s) t = quiet s t"
  by (simp_all add: quiet_def cancel_sched) (simp_all add: map_rsp_def)

lemma sched_frames [simp]:
  "ai (check_framebuffers a l s) = ai s" "ai (on_rdram_write a l s) = ai s"
  "ai (maybe_invalidate_code a l s) = ai s" "sched (maybe_invalidate_code a l s) = sched s"
  "ai (map_rsp f t) = ai t" "vi (map_rsp f t) = vi t"
  "vi (check_framebuffers a l u) = vi u" "vi (on_rdram_write a l u) = vi u" "vi (maybe_invalidate_code a l w) = vi w"
  for s :: "'a ai_state_scheme" and t :: "'b rsp_state_scheme" and u :: "'c rdp_state_scheme" and w :: "'d vi_state_scheme"
  by (simp_all add: check_framebuffers_def on_rdram_write_def maybe_mark_vi_fb_dirty_def map_rdp_def Let_def
      maybe_invalidate_code_def map_dcache_def map_rsp_def split: code_hook.splits)

interpretation sched_seen: dpc_observer "\<lambda>s. (sched s, ai s, vi s)"
  by unfold_locales
    (simp_all add: map_rdp_def map_dpc_def raise_intr_def check_interrupt_def set_cause_def set_mi_intr_def)

lemma quiet_dpc_write: "holds_ok (quiet s) (dpc_write_paddr32 p v s)"
  using sched_seen.obs_dpc_write [of s p v] by (auto simp: holds_ok_iff quiet_def)

lemma quiet_dma: "quiet s (rsp_dma_read s)" "quiet s (rsp_dma_write s)"
  by (simp_all add: rsp_dma_read_def rsp_dma_write_def Let_def split_beta quiet_map_rsp quiet_same)

lemma quiet_dma_start:
  assumes "\<And>s. quiet s (dma s)"
  shows "quiet s (dma_start sync v dma s)"
proof -
  have "quiet s (dma (map_rsp f s))" for f using assms [of "map_rsp f s"] by (simp add: quiet_map_rsp)
  then show ?thesis by (simp add: dma_start_def quiet_map_rsp quiet_same)
qed

lemma quiet_cancel: "quiet s (cancel_named NE_Sp t) = quiet s (t\<lparr>sched := sched (cancel_named NE_Sp t)\<rparr>)"
  by (simp add: quiet_def cancel_named_def set_named_def)

lemma quiet_status_bits: "quiet s (status_bits_write v s)"
proof -
  have l: "quiet s (lower_intr i t) = quiet s t" "quiet s (raise_intr i t) = quiet s t" for i and t :: "'a dpc_state_scheme"
    by (simp_all add: quiet_def)
  have c: "quiet s (cancel_named NE_Sp (map_rsp f s))" "quiet s (cancel_named NE_Sp s)" for f
    by (simp_all add: quiet_def cancel_sched) (simp_all add: cancel_named_def set_named_def map_rsp_def)
  show ?thesis
    by (simp add: status_bits_write_def Let_def quiet_map_rsp l c quiet_same)
qed

lemma quiet_cp0_write:
  assumes "\<not> rsp_halted (rsp s)"
  shows "holds_ok (quiet s) (rsp_write_cp0 task reg v s)"
proof -
  have d: "quiet s (dma_start sync v rsp_dma_read s)" "quiet s (dma_start sync v rsp_dma_write s)" for sync
    by (rule quiet_dma_start, rule quiet_dma)+
  show ?thesis
    by (simp add: rsp_write_cp0_def status_write_running [OF assms] quiet_map_rsp quiet_status_bits d
        quiet_dpc_write quiet_same)
qed

lemma quiet_cp0_read: "quiet s (snd (rsp_read_cp0 reg s))"
  by (simp add: rsp_read_cp0_def Let_def split_beta quiet_map_rsp quiet_same)

lemma quiet_step: "holds_ok (quiet s) (rsp_step task s)"
proof (cases "rsp_halted (rsp s)")
  case False
  let ?s = "map_rsp rsp_advance s"
  have n: "\<not> rsp_halted (rsp ?s)" using False by (simp add: rsp_advance_def rsp_halted_def)
  have "holds_ok (quiet ?s) (rsp_handle task h inst ?s)" for h inst
    using quiet_cp0_write [OF n, of task] quiet_cp0_read [of ?s]
    by (auto simp: rsp_handle_def rsp_execute_cop0_def split_beta quiet_map_rsp quiet_same holds_ok_iff bindR_eq_Inr)
  then have h: "holds_ok (quiet s) (rsp_handle task h inst ?s)" for h inst
    by (auto simp: holds_ok_iff quiet_map_rsp)
  show ?thesis using False
    by (simp add: rsp_step_def split_beta) (rule holds_ok_bindR [OF h], simp add: quiet_map_rsp)
qed (simp add: rsp_step_def quiet_same)

lemma quiet_run:
  "unat (task_cycle_counter (rsp s)) + n < 2 ^ 64 \<Longrightarrow>
   holds_ok (\<lambda>s'. quiet s s' \<and> unat (task_cycle_counter (rsp s)) \<le> unat (task_cycle_counter (rsp s')))
     (rsp_run n task s)"
proof (induction n arbitrary: s)
  case (Suc n)
  have "quiet s s' \<and> unat (task_cycle_counter (rsp s)) \<le> unat (task_cycle_counter (rsp s'))"
    if st: "rsp_step task s = Inr t"
      and run: "rsp_run n task (map_rsp (\<lambda>r. r\<lparr>task_cycle_counter := task_cycle_counter r + 1\<rparr>) t) = Inr s'" for t s'
  proof -
    let ?t = "map_rsp (\<lambda>r. r\<lparr>task_cycle_counter := task_cycle_counter r + 1\<rparr>) t"
    have q: "quiet s ?t" using quiet_step [of s task] st by (simp add: quiet_map_rsp)
    have c: "unat (task_cycle_counter (rsp ?t)) = unat (task_cycle_counter (rsp s)) + 1"
      using evolves_step [of s task] st Suc.prems by (simp add: evolves_def unat_word_ariths)
    have "unat (task_cycle_counter (rsp ?t)) + n < 2 ^ 64" using Suc.prems unfolding c by simp
    from Suc.IH [OF this] run have "quiet ?t s'" "unat (task_cycle_counter (rsp ?t)) \<le> unat (task_cycle_counter (rsp s'))"
      by simp_all
    with q c show ?thesis by (auto intro: quiet_trans)
  qed
  then show ?case by (auto simp: holds_ok_iff bindR_eq_Inr quiet_same)
qed (simp add: quiet_same)

text \<open>A run that can start executes an instruction, so it takes at least a cycle.\<close>

lemma first_step_counts:
  assumes "\<not> rsp_stops (rsp s)" and "unat (task_cycle_counter (rsp s)) + Suc n < 2 ^ 64"
  shows "holds_ok (\<lambda>s'. quiet s s' \<and> unat (task_cycle_counter (rsp s)) < unat (task_cycle_counter (rsp s')))
    (rsp_run (Suc n) task s)"
proof -
  have "quiet s s' \<and> unat (task_cycle_counter (rsp s)) < unat (task_cycle_counter (rsp s'))"
    if st: "rsp_step task s = Inr t"
      and run: "rsp_run n task (map_rsp (\<lambda>r. r\<lparr>task_cycle_counter := task_cycle_counter r + 1\<rparr>) t) = Inr s'" for t s'
  proof -
    let ?t = "map_rsp (\<lambda>r. r\<lparr>task_cycle_counter := task_cycle_counter r + 1\<rparr>) t"
    have q: "quiet s ?t" using quiet_step [of s task] st by (simp add: quiet_map_rsp)
    have c: "unat (task_cycle_counter (rsp ?t)) = unat (task_cycle_counter (rsp s)) + 1"
      using evolves_step [of s task] st assms(2) by (simp add: evolves_def unat_word_ariths)
    have "unat (task_cycle_counter (rsp ?t)) + n < 2 ^ 64" using assms(2) unfolding c by simp
    from quiet_run [OF this, of task] run have "quiet ?t s'"
        "unat (task_cycle_counter (rsp ?t)) \<le> unat (task_cycle_counter (rsp s'))" by simp_all
    with q c show ?thesis by (auto intro: quiet_trans)
  qed
  then show ?thesis using assms(1) by (auto simp: holds_ok_iff bindR_eq_Inr)
qed

lemma run_until_later:
  assumes "\<not> task_halted (rsp s)" and "\<not> rsp_halted (rsp s)"
  shows "holds_ok (\<lambda>(t, s'). quiet s s' \<and> 0 < t \<and> unat t < 0x80000000) (run_until_sync task s)"
proof -
  let ?s = "map_rsp (\<lambda>r. r\<lparr>broken := False, task_cycle_counter := 0, running_task := True, sync_point := False\<rparr>) s"
  have "\<not> rsp_stops (rsp ?s)" using assms by (simp add: rsp_stops_def rsp_halted_def)
  from first_step_counts [OF this, of 9999999 task]
  have "holds_ok (\<lambda>s'. quiet s s' \<and> 0 < unat (task_cycle_counter (rsp s'))) (rsp_run kMaxInsns task ?s)"
    unfolding kMaxInsns_def by (simp add: quiet_map_rsp)
  moreover have "holds_ok (\<lambda>s'. unat (task_cycle_counter (rsp s')) \<le> 10000000) (rsp_run kMaxInsns task ?s)"
    using run_bounds [of ?s kMaxInsns task] by (simp add: kMaxInsns_def holds_ok_iff)
  ultimately have r: "holds_ok (\<lambda>s'. quiet s s' \<and> 0 < unat (task_cycle_counter (rsp s')) \<and>
      unat (task_cycle_counter (rsp s')) \<le> 10000000) (rsp_run kMaxInsns task ?s)"
    by (simp add: holds_ok_iff)
  have t: "0 < (c * 3) div 2 \<and> unat ((c * 3) div 2) < 0x80000000"
    if "0 < unat c" "unat c \<le> 10000000" for c :: u64
  proof -
    have "unat (c * 3) = unat c * 3" using that by (simp add: unat_word_ariths)
    then have "unat ((c * 3) div 2) = unat c * 3 div 2" by (simp add: unat_div)
    then show ?thesis using that by (simp add: word_less_nat_alt)
  qed
  show ?thesis unfolding run_until_sync_def
    by (rule holds_ok_bindR [OF r]) (simp add: t quiet_map_rsp)
qed

lemma same_handled: "sched_good s \<Longrightarrow> sched t = sched s \<Longrightarrow> ai t = ai s \<Longrightarrow> vi t = vi s \<Longrightarrow> handled s t"
  using due_sched [of t s] now_sched [of t s] sched_ok_sched [of t s]
  by (simp add: handled_def sched_good_def)

lemma do_task_handled:
  assumes "sched_good s" and "\<not> task_halted (rsp s)" and "\<not> rsp_halted (rsp s)"
  shows "holds_ok (\<lambda>s'. handled s s') (do_task s)"
proof -
  let ?s = "map_rsp (\<lambda>r. r\<lparr>sync_point := False, last_status_signals := 0, last_dpc_busy := 0\<rparr>) s"
  have "handled s (schedule_named NE_Sp t On_sp_event u)"
    if q: "quiet s u" and t: "0 < t" "unat t < 0x80000000" for t u
  proof -
    let ?e = "\<lparr>ne_enabled = True, ne_at = now s + t, ne_cb = Some On_sp_event\<rparr>"
    have ok: "sched_ok s" and a: "ai_regs_ok (ai s)" "vi_timing_ok (vi s)" using assms(1) by (simp_all add: sched_good_def)
    have "sched (schedule_named NE_Sp t On_sp_event u) = sched (set_named NE_Sp ?e s)"
      using q by (auto simp: quiet_def cancel_sched schedule_named_def set_named_def now_def)
    moreover have "due (set_named NE_Sp ?e s) \<subseteq># due s"
      by (rule due_named) (use later [OF ok t] in simp_all)
    moreover have "ai (schedule_named NE_Sp t On_sp_event u) = ai s" "vi (schedule_named NE_Sp t On_sp_event u) = vi s"
      using q by (simp_all add: quiet_def schedule_named_def set_named_def)
    ultimately show ?thesis using ok a due_sched now_sched sched_ok_sched set_named_simps(1,2)
      unfolding handled_def sched_good_def by metis
  qed
  moreover have "\<not> task_halted (rsp ?s)" "\<not> rsp_halted (rsp ?s)" using assms(2,3) by (simp_all add: rsp_halted_def)
  note run_until_later [OF this]
  ultimately show ?thesis unfolding do_task_def do_task_with_def Let_def
    by (auto simp: holds_ok_iff bindR_eq_Inr quiet_map_rsp intro: same_handled [OF assms(1)])
qed

lemma sp_event_handled:
  assumes "sched_good s"
  shows "holds_ok (\<lambda>s'. handled s s') (on_sp_event s)"
  using do_task_handled [OF assms] by (simp add: on_sp_event_def Let_def same_handled [OF assms])

section \<open>The contract holds\<close>

lemma perform_handled:
  assumes "sched_good s"
  shows "holds_ok (\<lambda>s'. handled s s') (perform_event cb s)"
proof -
  have "handled s (on_pi_dma_completed s)"
    using assms due_sched [of "on_pi_dma_completed s" s] now_sched [of "on_pi_dma_completed s" s]
      sched_ok_sched [of "on_pi_dma_completed s" s]
    by (simp add: handled_def sched_good_def on_pi_dma_completed_def map_pi_def)
  then show ?thesis
    using ai_complete_handled [OF assms] sp_event_handled [OF assms] by (cases cb) (simp_all add: perform_event_def)
qed

lemma vi_of_more: "sched_state.more s = sched_state.more t \<Longrightarrow> vi s = vi t" for s t :: "'a vi_state_scheme"
  by (cases s; cases t) simp

lemma good_after_take: "sched_good s \<Longrightarrow> dispatches perform s e s1 \<Longrightarrow> sched_good s1"
  using ai_of_more [of s1 s] vi_of_more [of s1 s] by (simp add: sched_good_def dispatches_def)

interpretation devices: event_handlers perform_event sched_good
proof unfold_locales
  fix s e s1 cb s'
  assume g: "sched_good s" and d: "dispatches perform_event s e s1" and p: "perform_event cb s1 = Inr s'"
  have "handled s1 s'" using perform_handled [OF good_after_take [OF g d], of cb] p by simp
  then show "sched_good s'" "now s' = now s1" "due s' \<subseteq># due s1" by (simp_all add: handled_def)
qed (simp add: sched_good_def, rule good_after_take)

lemma sched_good_time: "sched_good s \<Longrightarrow> t \<le> 0x0000FFFFFFFFFFFF \<Longrightarrow> sched_good (s\<lparr>sched := (sched s)\<lparr>sc_time := t\<rparr>\<rparr>)"
  by (simp add: sched_good_def sched_ok_def now_def)

lemma tick_handled:
  assumes "sched_good s" and "unat (now s) + unat cycles \<le> 0x0000FFFFFFFFFFFF"
  shows "\<exists>r. tick perform_event cycles s = Some r \<and>
    holds_ok (\<lambda>s'. now s' = now s + cycles \<and> due s' = {#} \<and> sched_good s') r"
proof -
  let ?s1 = "s\<lparr>sched := (sched s)\<lparr>sc_time := now s + cycles\<rparr>\<rparr>"
  have "unat (now s + cycles) = unat (now s) + unat cycles" using assms(2) by (simp add: unat_word_ariths)
  then have le: "now s + cycles \<le> 0x0000FFFFFFFFFFFF" using assms(2) by (simp add: word_le_nat_alt)
  obtain r where "run_due perform_event ?s1 = Some r"
      "holds_ok (\<lambda>s'. sched_good s' \<and> now s' = now ?s1 \<and> due s' = {#}) r"
    using devices.run_due_returns [OF sched_good_time [OF assms(1) le]] by blast
  moreover have "now ?s1 = now s + cycles" by (simp add: now_def)
  moreover have "tick perform_event cycles s = run_due perform_event ?s1"
    using le by (simp only: tick_def Let_def now_def not_less if_not_P)
  ultimately show ?thesis by (simp add: conj_commute holds_ok_iff)
qed

text \<open>C14: The scheduler's loop always ends: with the handlers of the devices, an advance of the clock
  returns (a device may stop the emulator, but it never loops), and then the clock stands where it
  should, no event is due and the audio and queue invariants hold again.\<close>

theorem tick_returns:
  assumes "sched_good s" and "unat (now s) + unat cycles \<le> 0x0000FFFFFFFFFFFF"
  shows "\<exists>r. tick perform_event cycles s = Some r \<and>
    holds_ok (\<lambda>s'. now s' = now s + cycles \<and> due s' = {#} \<and> sched_good s') r"
  by (rule tick_handled [OF assms])

end
