(* ===== verification/Idle_Skip.thy ===== *)
theory Idle_Skip
  imports Machine
begin

text \<open>
  Skipping idle loops (\<open>src/cpu/idle_skip.cpp\<close>): a taken branch to itself with an empty delay slot
  marks a warp, and the interpreter's loop then advances the clock to just before the next thing that
  can happen.
\<close>

section \<open>The idle context\<close>

definition map_idle :: "(idle_ctx \<Rightarrow> idle_ctx) \<Rightarrow> 'a cpu_state_scheme \<Rightarrow> 'a cpu_state_scheme" where
  "map_idle f s = s\<lparr>idle := f (idle s)\<rparr>"

definition idle_skip_begin_slice :: "int \<Rightarrow> 'a cpu_state_scheme \<Rightarrow> 'a cpu_state_scheme" where
  "idle_skip_begin_slice budget =
     map_idle (\<lambda>c. c\<lparr>budget_left := (if budget > 0 then budget else 0), pending_skip := 0, idle_active := True\<rparr>)"

definition idle_skip_consume :: "int \<Rightarrow> 'a cpu_state_scheme \<Rightarrow> 'a cpu_state_scheme" where
  "idle_skip_consume cycles =
     map_idle (\<lambda>c. if \<not> idle_active c \<or> cycles \<le> 0 then c
       else if cycles \<ge> budget_left c then c\<lparr>budget_left := 0\<rparr>
       else c\<lparr>budget_left := budget_left c - cycles\<rparr>)"

definition idle_skip_pending :: "'a cpu_state_scheme \<Rightarrow> bool" where
  "idle_skip_pending s \<longleftrightarrow> idle_active (idle s) \<and> pending_skip (idle s) > 0"

section \<open>Finding idle loops\<close>

definition peek_delay_slot_word :: "'a dpc_state_scheme \<Rightarrow> (u32 \<times> 'a dpc_state_scheme) res" where
  "peek_delay_slot_word s =
     (let va = lo32 (pc (cpu s))
      in case try_direct_map va of
           Some p \<Rightarrow> read_paddr32 p s
         | None \<Rightarrow> bindR (resolve_vaddr va LOAD s) (\<lambda>(r, s1).
             case r of Some p \<Rightarrow> read_paddr32 p s1 | None \<Rightarrow> ok (0xFFFFFFFF, s1)))"

definition queue_idle_warp :: "'a dpc_state_scheme \<Rightarrow> 'a dpc_state_scheme res" where
  "queue_idle_warp s =
     (if \<not> idle_active (idle s) \<or> pending_skip (idle s) > 0 then ok s
      else bindR (peek_delay_slot_word s) (\<lambda>(w, s1).
        ok (if w \<noteq> 0 then s1 else map_idle (\<lambda>c. c\<lparr>pending_skip := 1\<rparr>) s1)))"

definition idle_skip_check_relative :: "u16 \<Rightarrow> 'a dpc_state_scheme \<Rightarrow> 'a dpc_state_scheme res" where
  "idle_skip_check_relative imm s = (if imm \<noteq> - 1 then ok s else queue_idle_warp s)"

definition idle_skip_check_absolute :: "u64 \<Rightarrow> 'a dpc_state_scheme \<Rightarrow> 'a dpc_state_scheme res" where
  "idle_skip_check_absolute target s = (if target \<noteq> pc (cpu s) - 4 then ok s else queue_idle_warp s)"

section \<open>Warping\<close>

definition cycles_until_compare :: "'a irq_state_scheme \<Rightarrow> u64" where
  "cycles_until_compare s =
     (let before = c0_count (cop0 s); target = compare_target (cop0 s);
          dist = (target - before) AND 0x1FFFFFFFF
      in if dist = 0 then UINT64_MAX else dist)"

definition idle_skip_distance :: "'a cpu_state_scheme \<Rightarrow> u64" where
  "idle_skip_distance s =
     (let skip0 = cycles_until_next_event s;
          to_cmp = cycles_until_compare s;
          skip1 = (if to_cmp < skip0 then to_cmp else skip0);
          budget = budget_left (idle s)
      in if budget > 0 \<and> word_of_int budget < skip1 then word_of_int budget else skip1)"

abbreviation (input) "kMaxWarp \<equiv> 0x100000 :: u64"

definition idle_skip_apply_pending :: "'a dpc_state_scheme \<Rightarrow> (int \<times> 'a dpc_state_scheme) res option" where
  "idle_skip_apply_pending s =
     (if \<not> idle_active (idle s) \<or> pending_skip (idle s) \<le> 0 then Some (ok (0, s))
      else let s1 = map_idle (\<lambda>c. c\<lparr>pending_skip := 0\<rparr>) s;
               skip = idle_skip_distance s1
      in if skip < 4 \<or> skip = UINT64_MAX then Some (ok (0, s1))
         else let warped = (if skip > kMaxWarp then kMaxWarp else skip)
         in case advance_after_cpu perform_event (uint warped) (add_count (ucast warped) s1) of
              None \<Rightarrow> None
            | Some r \<Rightarrow> Some (bindR r (\<lambda>s2. ok (uint warped, idle_skip_consume (uint warped) s2))))"

section \<open>A warp stops before anything happens\<close>

lemma map_idle_frame [simp]:
  "sched (map_idle f s) = sched s" "cop0 (map_idle f s) = cop0 s" "idle (map_idle f s) = f (idle s)"
  "events (map_idle f s) = events s" "now (map_idle f s) = now s" "due (map_idle f s) = due s"
  "cycles_until_next_event (map_idle f s) = cycles_until_next_event s"
  by (simp_all add: map_idle_def events_def named_part_def now_def due_def cycles_until_next_event_def)

lemma sched_good_map_idle [simp]: "sched_good (map_idle f s) = sched_good s"
  by (simp add: sched_good_def sched_ok_def) (simp add: map_idle_def)

lemma add_count_frame [simp]: "sched (add_count n s) = sched s" "ai (add_count n t) = ai t" "vi (add_count n u) = vi u"
  for s :: "'a sched_state_scheme" and t :: "'b ai_state_scheme" and u :: "'c vi_state_scheme"
  by (simp_all add: add_count_def Let_def map_cop0_def check_interrupt_def set_cause_def)

lemma sched_good_add_count [simp]: "sched_good (add_count n s) = sched_good s" "now (add_count n s) = now s"
  using sched_ok_sched [of "add_count n s" s] by (simp_all add: sched_good_def now_def)

lemma idle_distance_le:
  "idle_skip_distance s \<le> cycles_until_next_event s" "idle_skip_distance s \<le> cycles_until_compare s"
  "budget_left (idle s) > 0 \<Longrightarrow> idle_skip_distance s \<le> word_of_int (budget_left (idle s))"
  by (auto simp: idle_skip_distance_def Let_def)

lemma event_after_warp:
  assumes "sched_ok s" and "e \<in># events s" and "w \<le> cycles_until_next_event s" and "0 < w"
  shows "unat (now s) + unat w \<le> unat (fst e)"
proof -
  have "w \<le> remaining (fst e) (now s)"
    using assms(1,2,3) cycles_until_le [of s e] by (auto simp: sched_ok_def)
  moreover from this assms(4) have "\<not> fst e \<le> now s" by (auto simp: remaining_def)
  ultimately have "w \<le> fst e - now s" "now s \<le> fst e" by (auto simp: remaining_def)
  then show ?thesis by (simp add: word_le_nat_alt unat_sub)
qed

lemma pow20: "(2 :: int) ^ 20 = 0x100000"
  by simp

text \<open>The timer matches when the 33-bit counter of half cycles equals twice the Compare register.\<close>

definition timer_match_in :: "'a irq_state_scheme \<Rightarrow> int \<Rightarrow> bool" where
  "timer_match_in s k \<longleftrightarrow> (uint (c0_count (cop0 s)) + k) mod 2 ^ 33 = 2 * uint (c0_compare (cop0 s))"

lemma uint_compare_dist:
  "uint ((compare_target c - b) AND 0x1FFFFFFFF) = (2 * uint (c0_compare c) - uint b) mod 2 ^ 33"
proof -
  have lt: "uint (c0_compare c) < 2 ^ 32" using uint_lt2p [of "c0_compare c"] by simp
  then have "uint (ucast (c0_compare c) :: u64) = uint (c0_compare c)"
    by (simp add: unsigned_ucast_eq take_bit_eq_mod mod_pos_pos_trivial)
  with lt have p: "uint (push_bit 1 (ucast (c0_compare c) :: u64)) = 2 * uint (c0_compare c)"
    by (simp add: push_bit_eq_mult uint_word_ariths)
  have t: "uint (compare_target c) = 2 * uint (c0_compare c)"
    using lt unfolding compare_target_def m33 unsigned_take_bit_eq p by (simp add: take_bit_eq_mod [where 'a = int])
  show ?thesis
    unfolding m33 by (simp add: unsigned_take_bit_eq uint_word_ariths take_bit_eq_mod [where 'a = int] mod_mod_cancel t)
qed

lemma no_match_before:
  assumes "n \<le> uint (cycles_until_compare s)" "0 < k" "k < n" "n \<le> 2 ^ 20"
  shows "\<not> timer_match_in s k"
proof
  let ?c = "uint (c0_count (cop0 s))" and ?m = "2 * uint (c0_compare (cop0 s))"
  assume "timer_match_in s k"
  then have "(?m - ?c) mod 2 ^ 33 = ((?c + k) mod 2 ^ 33 - ?c) mod 2 ^ 33" by (simp add: timer_match_in_def)
  also have "\<dots> = k mod 2 ^ 33" by (simp add: mod_simps)
  also have "\<dots> = k" using assms(2-4) by (intro mod_pos_pos_trivial) auto
  finally have d: "uint ((compare_target (cop0 s) - c0_count (cop0 s)) AND 0x1FFFFFFFF) = k"
    by (simp only: uint_compare_dist)
  then have "(compare_target (cop0 s) - c0_count (cop0 s)) AND 0x1FFFFFFFF \<noteq> 0" using assms(2) by auto
  then have "uint (cycles_until_compare s) = k" using d by (simp add: cycles_until_compare_def Let_def)
  with assms show False by simp
qed

text \<open>What a warp of \<open>n\<close> cycles may do.\<close>

definition warp_clear :: "'a dpc_state_scheme \<Rightarrow> int \<Rightarrow> 'a dpc_state_scheme \<Rightarrow> bool" where
  "warp_clear s n s' \<longleftrightarrow> sched_good s' \<and>
     (if n = 0 then now s' = now s \<and> events s' = events s
      else 4 \<le> n \<and> n \<le> 2 ^ 20 \<and> int (unat (now s')) = int (unat (now s)) + n \<and> due s' = {#} \<and>
        (\<forall>e \<in># events s. int (unat (now s)) + n \<le> int (unat (fst e))) \<and>
        (\<forall>k. 0 < k \<and> k < n \<longrightarrow> \<not> timer_match_in s k))"

definition warp_ok :: "'a dpc_state_scheme \<Rightarrow> int \<Rightarrow> 'a dpc_state_scheme \<Rightarrow> bool" where
  "warp_ok s n s' \<longleftrightarrow> warp_clear s n s' \<and> (budget_left (idle s) > 0 \<longrightarrow> n \<le> budget_left (idle s))"

lemma apply_pending_warps:
  assumes "sched_good s" and "unat (now s) + 0x100000 \<le> 0x0000FFFFFFFFFFFF"
  shows "\<exists>r. idle_skip_apply_pending s = Some r \<and>
    holds_ok (\<lambda>(n, s'). warp_clear s n s' \<and> (budget_left (idle s) < 2 ^ 31 \<longrightarrow> warp_ok s n s')) r"
proof -
  let ?s1 = "map_idle (\<lambda>c. c\<lparr>pending_skip := 0\<rparr>) s"
  let ?skip = "idle_skip_distance ?s1"
  define w where "w = (if ?skip > kMaxWarp then kMaxWarp else ?skip)"
  have le: "?skip \<le> cycles_until_next_event s" "?skip \<le> cycles_until_compare s"
      "budget_left (idle s) > 0 \<Longrightarrow> ?skip \<le> word_of_int (budget_left (idle s))"
    using idle_distance_le [of ?s1] by (simp_all add: cycles_until_compare_def)
  show ?thesis
  proof (cases "idle_skip_pending s \<and> \<not> (?skip < 4 \<or> ?skip = UINT64_MAX)")
    case False
    then show ?thesis by (auto simp: idle_skip_apply_pending_def idle_skip_pending_def Let_def warp_ok_def warp_clear_def assms(1))
  next
    case True
    have ws: "w \<le> ?skip" "w \<le> kMaxWarp" "4 \<le> w" using True by (auto simp: w_def)
    then have wn: "unat w \<le> 0x100000" "4 \<le> unat w" by (simp_all add: word_le_nat_alt)
    have wi: "uint w = int (unat w)" by simp
    let ?t = "add_count (ucast w) ?s1"
    have "sched_good ?t" "unat (now ?t) + unat w \<le> 0x0000FFFFFFFFFFFF" using assms(1,2) wn by simp_all
    from tick_handled [OF this] obtain r where r: "tick perform_event w ?t = Some r"
      "holds_ok (\<lambda>s'. now s' = now s + w \<and> due s' = {#} \<and> sched_good s') r" by auto
    have adv: "advance_after_cpu perform_event (uint w) ?t = Some r"
      using r(1) by (simp add: advance_after_cpu_def)
    have run: "idle_skip_apply_pending s = Some (bindR r (\<lambda>s2. ok (uint w, idle_skip_consume (uint w) s2)))"
      using True adv unfolding w_def
      by (simp add: idle_skip_apply_pending_def idle_skip_pending_def Let_def)
    have "0 < w" using ws(3) by (rule less_le_trans [rotated]) simp
    moreover have "w \<le> cycles_until_next_event s" using ws(1) le(1) by (rule order_trans)
    moreover have "sched_ok s" using assms(1) by (simp add: sched_good_def)
    ultimately have ev: "unat (now s) + unat w \<le> unat (fst e)" if "e \<in># events s" for e
      using event_after_warp [OF _ that] by blast
    have "w \<le> cycles_until_compare s" using ws(1) le(2) by (rule order_trans)
    then have "int (unat w) \<le> uint (cycles_until_compare s)" by (simp add: word_le_def)
    moreover have "int (unat w) \<le> 2 ^ 20" using wn unfolding pow20 by linarith
    ultimately have cmp: "\<not> timer_match_in s k" if "0 < k" "k < int (unat w)" for k
      using no_match_before that by blast
    have bud: "int (unat w) \<le> budget_left (idle s)" if "budget_left (idle s) > 0" "budget_left (idle s) < 2 ^ 31"
    proof -
      have "w \<le> word_of_int (budget_left (idle s))" using ws(1) le(3) [OF that(1)] by (rule order_trans)
      then have "uint w \<le> uint (word_of_int (budget_left (idle s)) :: u64)" by (simp add: word_le_def)
      also have "\<dots> = budget_left (idle s)" using that by (simp add: unsigned_of_int take_bit_int_eq_self)
      finally show ?thesis by simp
    qed
    have n: "unat (now s + w) = unat (now s) + unat w" using assms(2) wn by (simp add: unat_word_ariths)
    have "warp_clear s (uint w) (idle_skip_consume (uint w) s2) \<and>
        (budget_left (idle s) < 2 ^ 31 \<longrightarrow> warp_ok s (uint w) (idle_skip_consume (uint w) s2))"
      if "now s2 = now s + w" "due s2 = {#}" "sched_good s2" for s2
    proof -
      have c: "now (idle_skip_consume (uint w) s2) = now s + w" "due (idle_skip_consume (uint w) s2) = {#}"
        "sched_good (idle_skip_consume (uint w) s2)"
        using that by (simp_all add: idle_skip_consume_def)
      have b: "4 \<le> int (unat w)" "int (unat w) \<le> 2 ^ 20" using wn unfolding pow20 by linarith+
      have e: "int (unat (now s)) + int (unat w) \<le> int (unat (fst e))" if "e \<in># events s" for e
        using ev [OF that] by linarith
      have "int (unat (now s + w)) = int (unat (now s)) + int (unat w)" unfolding n by (rule of_nat_add)
      then have "warp_clear s (uint w) (idle_skip_consume (uint w) s2)"
        unfolding warp_clear_def wi using c b e cmp by auto
      then show ?thesis unfolding warp_ok_def wi using bud by auto
    qed
    with r(2) run show ?thesis by (auto simp: holds_ok_iff bindR_eq_Inr)
  qed
qed

text \<open>C13: A warp is invisible to the devices and the timer: applying it always returns, and when it
  advances the clock it does so by 4 to 2^20 cycles and reaches no scheduled event before its last
  cycle; in none of the cycles before its last does the 33-bit counter equal twice Compare; if some
  of the slice's budget is left, the warp stays within it (a budget of 0 is no bound); the schedule
  stays well formed.\<close>

theorem idle_warp_invisible:
  assumes "sched_good s" and "unat (now s) + 0x100000 \<le> 0x0000FFFFFFFFFFFF" and "budget_left (idle s) < 2 ^ 31"
  shows "\<exists>r. idle_skip_apply_pending s = Some r \<and> holds_ok (\<lambda>(n, s'). warp_ok s n s') r"
  using apply_pending_warps [OF assms(1,2)] assms(3) by (auto simp: holds_ok_iff)

end
