(* ===== verification/Cpu_Branch.thy ===== *)
theory Cpu_Branch
  imports Idle_Skip Alu
begin

text \<open>
  The jumps, branches and traps and the instructions of the system coprocessor
  (\<open>src/cpu/cpu_instruction_impl.cpp\<close>, the branch helpers of \<open>src/cpu/cpu.cpp\<close>). While a handler
  runs, \<open>pc\<close> is the address of the delay slot and \<open>next_pc\<close> the one after it.
\<close>

section \<open>Branch helpers\<close>

definition branch_addr64 :: "bool \<Rightarrow> u64 \<Rightarrow> 'a dpc_state_scheme \<Rightarrow> 'a dpc_state_scheme res" where
  "branch_addr64 cond vaddr s =
     (let s1 = map_cpu (\<lambda>c. c\<lparr>delay_slot := True\<rparr>) s
      in if cond then idle_skip_check_absolute vaddr (map_cpu (\<lambda>c. c\<lparr>next_pc := vaddr\<rparr>) s1) else ok s1)"

definition branch_likely_addr64 :: "bool \<Rightarrow> u64 \<Rightarrow> 'a dpc_state_scheme \<Rightarrow> 'a dpc_state_scheme res" where
  "branch_likely_addr64 cond vaddr s =
     (let s1 = map_cpu (\<lambda>c. c\<lparr>delay_slot := True\<rparr>) s
      in if cond then idle_skip_check_absolute vaddr (map_cpu (\<lambda>c. c\<lparr>next_pc := vaddr\<rparr>) s1)
         else ok (set_pc64 (pc (cpu s1) + 4) s1))"

definition branch_offset16 :: "bool \<Rightarrow> u32 \<Rightarrow> 'a dpc_state_scheme \<Rightarrow> 'a dpc_state_scheme res" where
  "branch_offset16 cond inst s = branch_addr64 cond (pc (cpu s) + sext16 (i_imm inst) * 4) s"

definition branch_likely_offset16 :: "bool \<Rightarrow> u32 \<Rightarrow> 'a dpc_state_scheme \<Rightarrow> 'a dpc_state_scheme res" where
  "branch_likely_offset16 cond inst s = branch_likely_addr64 cond (pc (cpu s) + sext16 (i_imm inst) * 4) s"

abbreviation (input) "RA \<equiv> 31 :: u32"

definition jump_target :: "u32 \<Rightarrow> 'a cpu_state_scheme \<Rightarrow> u64" where
  "jump_target inst s =
     push_bit 2 (ucast (j_target inst)) OR ((pc (cpu s) - 4) AND 0xFFFFFFFFF0000000)"

section \<open>Jumps and branches\<close>

abbreviation (input) si_val :: "u32 \<Rightarrow> 'a cpu_state_scheme \<Rightarrow> int" where
  "si_val inst s \<equiv> sint (gpr_read (i_rs inst) s)"

definition op_jr :: "u32 \<Rightarrow> 'a dpc_state_scheme \<Rightarrow> 'a dpc_state_scheme res" where
  "op_jr inst s =
     assert_encoding_is_valid (r_rt inst = 0 \<and> r_rd inst = 0 \<and> r_sa inst = 0)
       (branch_addr64 True (rs_val inst s) s)"

definition op_jalr :: "u32 \<Rightarrow> 'a dpc_state_scheme \<Rightarrow> 'a dpc_state_scheme res" where
  "op_jalr inst s =
     bindR (branch_addr64 True (rs_val inst s) s) (\<lambda>s1. ok (link (r_rd inst) s1))"

definition op_j :: "u32 \<Rightarrow> 'a dpc_state_scheme \<Rightarrow> 'a dpc_state_scheme res" where
  "op_j inst s =
     branch_addr64 True (jump_target inst s) s"

definition op_jal :: "u32 \<Rightarrow> 'a dpc_state_scheme \<Rightarrow> 'a dpc_state_scheme res" where
  "op_jal inst s =
     (let s1 = link RA s in branch_addr64 True (jump_target inst s1) s1)"

definition op_bltz :: "u32 \<Rightarrow> 'a dpc_state_scheme \<Rightarrow> 'a dpc_state_scheme res" where
  "op_bltz inst s =
     branch_offset16 (si_val inst s < 0) inst s"

definition op_bltzl :: "u32 \<Rightarrow> 'a dpc_state_scheme \<Rightarrow> 'a dpc_state_scheme res" where
  "op_bltzl inst s =
     branch_likely_offset16 (si_val inst s < 0) inst s"

definition op_bltzal :: "u32 \<Rightarrow> 'a dpc_state_scheme \<Rightarrow> 'a dpc_state_scheme res" where
  "op_bltzal inst s =
     bindR (branch_offset16 (si_val inst s < 0) inst s) (\<lambda>s1. ok (link RA s1))"

definition op_bgez :: "u32 \<Rightarrow> 'a dpc_state_scheme \<Rightarrow> 'a dpc_state_scheme res" where
  "op_bgez inst s =
     branch_offset16 (si_val inst s \<ge> 0) inst s"

definition op_bgezl :: "u32 \<Rightarrow> 'a dpc_state_scheme \<Rightarrow> 'a dpc_state_scheme res" where
  "op_bgezl inst s =
     branch_likely_offset16 (si_val inst s \<ge> 0) inst s"

definition op_bgezal :: "u32 \<Rightarrow> 'a dpc_state_scheme \<Rightarrow> 'a dpc_state_scheme res" where
  "op_bgezal inst s =
     bindR (branch_offset16 (si_val inst s \<ge> 0) inst s) (\<lambda>s1. ok (link RA s1))"

definition op_beq :: "u32 \<Rightarrow> 'a dpc_state_scheme \<Rightarrow> 'a dpc_state_scheme res" where
  "op_beq inst s =
     branch_offset16 (gpr_read (i_rs inst) s = gpr_read (i_rt inst) s) inst s"

definition op_beql :: "u32 \<Rightarrow> 'a dpc_state_scheme \<Rightarrow> 'a dpc_state_scheme res" where
  "op_beql inst s =
     branch_likely_offset16 (gpr_read (i_rs inst) s = gpr_read (i_rt inst) s) inst s"

definition op_bne :: "u32 \<Rightarrow> 'a dpc_state_scheme \<Rightarrow> 'a dpc_state_scheme res" where
  "op_bne inst s =
     branch_offset16 (gpr_read (i_rs inst) s \<noteq> gpr_read (i_rt inst) s) inst s"

definition op_bnel :: "u32 \<Rightarrow> 'a dpc_state_scheme \<Rightarrow> 'a dpc_state_scheme res" where
  "op_bnel inst s =
     branch_likely_offset16 (gpr_read (i_rs inst) s \<noteq> gpr_read (i_rt inst) s) inst s"

definition op_blez :: "u32 \<Rightarrow> 'a dpc_state_scheme \<Rightarrow> 'a dpc_state_scheme res" where
  "op_blez inst s =
     assert_encoding_is_valid (i_rt inst = 0) (branch_offset16 (si_val inst s \<le> 0) inst s)"

definition op_blezl :: "u32 \<Rightarrow> 'a dpc_state_scheme \<Rightarrow> 'a dpc_state_scheme res" where
  "op_blezl inst s =
     assert_encoding_is_valid (i_rt inst = 0) (branch_likely_offset16 (si_val inst s \<le> 0) inst s)"

definition op_bgtz :: "u32 \<Rightarrow> 'a dpc_state_scheme \<Rightarrow> 'a dpc_state_scheme res" where
  "op_bgtz inst s =
     assert_encoding_is_valid (i_rt inst = 0) (branch_offset16 (si_val inst s > 0) inst s)"

definition op_bgtzl :: "u32 \<Rightarrow> 'a dpc_state_scheme \<Rightarrow> 'a dpc_state_scheme res" where
  "op_bgtzl inst s =
     assert_encoding_is_valid (i_rt inst = 0) (branch_likely_offset16 (si_val inst s > 0) inst s)"

fun exec_branch :: "branch_op \<Rightarrow> u32 \<Rightarrow> 'a dpc_state_scheme \<Rightarrow> 'a dpc_state_scheme res" where
  "exec_branch Op_jr inst s = op_jr inst s"
| "exec_branch Op_jalr inst s = op_jalr inst s"
| "exec_branch Op_j inst s = op_j inst s"
| "exec_branch Op_jal inst s = op_jal inst s"
| "exec_branch Op_bltz inst s = op_bltz inst s"
| "exec_branch Op_bltzl inst s = op_bltzl inst s"
| "exec_branch Op_bgez inst s = op_bgez inst s"
| "exec_branch Op_bgezl inst s = op_bgezl inst s"
| "exec_branch Op_bltzal inst s = op_bltzal inst s"
| "exec_branch Op_bgezal inst s = op_bgezal inst s"
| "exec_branch Op_beq inst s = op_beq inst s"
| "exec_branch Op_beql inst s = op_beql inst s"
| "exec_branch Op_bne inst s = op_bne inst s"
| "exec_branch Op_bnel inst s = op_bnel inst s"
| "exec_branch Op_blez inst s = op_blez inst s"
| "exec_branch Op_blezl inst s = op_blezl inst s"
| "exec_branch Op_bgtz inst s = op_bgtz inst s"
| "exec_branch Op_bgtzl inst s = op_bgtzl inst s"

lemmas branch_op_defs = op_jr_def op_jalr_def op_j_def op_jal_def op_bltz_def op_bltzl_def
    op_bgez_def op_bgezl_def op_bltzal_def op_bgezal_def op_beq_def op_beql_def
    op_bne_def op_bnel_def op_blez_def op_blezl_def op_bgtz_def op_bgtzl_def

section \<open>Traps and returns\<close>

definition op_syscall :: "u32 \<Rightarrow> 'a cpu_state_scheme \<Rightarrow> 'a cpu_state_scheme res" where
  "op_syscall inst s =
     handle_exception SYSCALL 0 True s"

definition op_break :: "u32 \<Rightarrow> 'a cpu_state_scheme \<Rightarrow> 'a cpu_state_scheme res" where
  "op_break inst s =
     handle_exception BREAKPOINT 0 True s"

definition op_tge :: "u32 \<Rightarrow> 'a cpu_state_scheme \<Rightarrow> 'a cpu_state_scheme res" where
  "op_tge inst s =
     (if sint (rs_val inst s) \<ge> sint (rt_val inst s) then handle_exception TRAP 0 True s else ok s)"

definition op_tgeu :: "u32 \<Rightarrow> 'a cpu_state_scheme \<Rightarrow> 'a cpu_state_scheme res" where
  "op_tgeu inst s =
     (if rs_val inst s \<ge> rt_val inst s then handle_exception TRAP 0 True s else ok s)"

definition op_tlt :: "u32 \<Rightarrow> 'a cpu_state_scheme \<Rightarrow> 'a cpu_state_scheme res" where
  "op_tlt inst s =
     (if sint (rs_val inst s) < sint (rt_val inst s) then handle_exception TRAP 0 True s else ok s)"

definition op_tltu :: "u32 \<Rightarrow> 'a cpu_state_scheme \<Rightarrow> 'a cpu_state_scheme res" where
  "op_tltu inst s =
     (if rs_val inst s < rt_val inst s then handle_exception TRAP 0 True s else ok s)"

definition op_teq :: "u32 \<Rightarrow> 'a cpu_state_scheme \<Rightarrow> 'a cpu_state_scheme res" where
  "op_teq inst s =
     (if rs_val inst s = rt_val inst s then handle_exception TRAP 0 True s else ok s)"

definition op_tne :: "u32 \<Rightarrow> 'a cpu_state_scheme \<Rightarrow> 'a cpu_state_scheme res" where
  "op_tne inst s =
     (if rs_val inst s \<noteq> rt_val inst s then handle_exception TRAP 0 True s else ok s)"

definition op_eret :: "u32 \<Rightarrow> 'a cpu_state_scheme \<Rightarrow> 'a cpu_state_scheme res" where
  "op_eret inst s =
     ok (eret s)"

fun exec_trap :: "trap_op \<Rightarrow> u32 \<Rightarrow> 'a cpu_state_scheme \<Rightarrow> 'a cpu_state_scheme res" where
  "exec_trap Op_syscall inst s = op_syscall inst s"
| "exec_trap Op_break inst s = op_break inst s"
| "exec_trap Op_tge inst s = op_tge inst s"
| "exec_trap Op_tgeu inst s = op_tgeu inst s"
| "exec_trap Op_tlt inst s = op_tlt inst s"
| "exec_trap Op_tltu inst s = op_tltu inst s"
| "exec_trap Op_teq inst s = op_teq inst s"
| "exec_trap Op_tne inst s = op_tne inst s"
| "exec_trap Op_eret inst s = op_eret inst s"

section \<open>System coprocessor\<close>

definition op_mfc0 :: "u32 \<Rightarrow> 'a cpu_state_scheme \<Rightarrow> 'a cpu_state_scheme res" where
  "op_mfc0 inst s =
     bindR (cop0_read (ucast (cop_rd inst)) s) (\<lambda>v. ok (gpr_write (cop_rt inst) (sext32 (lo32 v)) s))"

definition op_mtc0 :: "u32 \<Rightarrow> 'a cpu_state_scheme \<Rightarrow> 'a cpu_state_scheme res" where
  "op_mtc0 inst s =
     cop0_write (ucast (cop_rd inst)) (ucast (lo32 (gpr_read (cop_rt inst) s))) s"

definition op_dmfc0 :: "u32 \<Rightarrow> 'a cpu_state_scheme \<Rightarrow> 'a cpu_state_scheme res" where
  "op_dmfc0 inst s =
     bindR (cop0_read (ucast (cop_rd inst)) s) (\<lambda>v. ok (gpr_write (cop_rt inst) v s))"

definition op_dmtc0 :: "u32 \<Rightarrow> 'a cpu_state_scheme \<Rightarrow> 'a cpu_state_scheme res" where
  "op_dmtc0 inst s =
     cop0_write (ucast (cop_rd inst)) (gpr_read (cop_rt inst) s) s"

definition op_tlbwi :: "u32 \<Rightarrow> 'a cpu_state_scheme \<Rightarrow> 'a cpu_state_scheme res" where
  "op_tlbwi inst s =
     ok (write_entry False s)"

definition op_tlbwr :: "u32 \<Rightarrow> 'a cpu_state_scheme \<Rightarrow> 'a cpu_state_scheme res" where
  "op_tlbwr inst s =
     ok (write_entry True s)"

definition op_tlbp :: "u32 \<Rightarrow> 'a cpu_state_scheme \<Rightarrow> 'a cpu_state_scheme res" where
  "op_tlbp inst s =
     ok (probe_index s)"

definition op_tlbr :: "u32 \<Rightarrow> 'a cpu_state_scheme \<Rightarrow> 'a cpu_state_scheme res" where
  "op_tlbr inst s =
     ok (read_entry s)"

fun exec_cop0 :: "cop0_op \<Rightarrow> u32 \<Rightarrow> 'a cpu_state_scheme \<Rightarrow> 'a cpu_state_scheme res" where
  "exec_cop0 Op_mfc0 inst s = op_mfc0 inst s"
| "exec_cop0 Op_mtc0 inst s = op_mtc0 inst s"
| "exec_cop0 Op_dmfc0 inst s = op_dmfc0 inst s"
| "exec_cop0 Op_dmtc0 inst s = op_dmtc0 inst s"
| "exec_cop0 Op_tlbwi inst s = op_tlbwi inst s"
| "exec_cop0 Op_tlbwr inst s = op_tlbwr inst s"
| "exec_cop0 Op_tlbp inst s = op_tlbp inst s"
| "exec_cop0 Op_tlbr inst s = op_tlbr inst s"

end
