(* ===== verification/Cpu_Mem.thy ===== *)
theory Cpu_Mem
  imports Cpu_Branch
begin

text \<open>
  The loads and stores of general registers (\<open>src/cpu/cpu_instruction_impl.cpp\<close>): the effective
  address is translated, the access goes to the bus, and a failed translation is an exception.
\<close>

section \<open>Effective address and translation\<close>

definition eff_addr :: "u32 \<Rightarrow> 'a cpu_state_scheme \<Rightarrow> u64" where
  "eff_addr inst s = gpr_read (i_rs inst) s + sext16 (i_imm inst)"

definition with_paddr ::
  "u64 \<Rightarrow> u32 \<Rightarrow> bus_access \<Rightarrow> (u32 \<Rightarrow> 'a dpc_state_scheme \<Rightarrow> 'a dpc_state_scheme res) \<Rightarrow>
   'a dpc_state_scheme \<Rightarrow> 'a dpc_state_scheme res" where
  "with_paddr vaddr access_size acc k s =
     bindR (resolve_vaddr_cached (lo32 vaddr) access_size acc s) (\<lambda>(p, s1).
       case p of
         Some paddr \<Rightarrow> k paddr s1
       | None \<Rightarrow> handle_exception (get_tlb_exception_code acc s1) 0 True s1)"

section \<open>Loads\<close>

text \<open>\<open>ext\<close> is the conversion of the value read to the 64 bits of the register.\<close>

definition load_to ::
  "u32 \<Rightarrow> ('w \<Rightarrow> u64) \<Rightarrow> (u32 \<Rightarrow> 'a dpc_state_scheme \<Rightarrow> ('w \<times> 'a dpc_state_scheme) res) \<Rightarrow>
   u32 \<Rightarrow> 'a dpc_state_scheme \<Rightarrow> 'a dpc_state_scheme res" where
  "load_to rt ext rd paddr s = bindR (rd paddr s) (\<lambda>(v, s1). ok (gpr_write rt (ext v) s1))"

definition op_lb :: "u32 \<Rightarrow> 'a dpc_state_scheme \<Rightarrow> 'a dpc_state_scheme res" where
  "op_lb inst s =
     with_paddr (eff_addr inst s) 1 LOAD (load_to (i_rt inst) scast read_paddr8) s"

definition op_lbu :: "u32 \<Rightarrow> 'a dpc_state_scheme \<Rightarrow> 'a dpc_state_scheme res" where
  "op_lbu inst s =
     with_paddr (eff_addr inst s) 1 LOAD (load_to (i_rt inst) ucast read_paddr8) s"

definition op_lh :: "u32 \<Rightarrow> 'a dpc_state_scheme \<Rightarrow> 'a dpc_state_scheme res" where
  "op_lh inst s =
     with_paddr (eff_addr inst s) 2 LOAD (load_to (i_rt inst) scast read_paddr16) s"

definition op_lhu :: "u32 \<Rightarrow> 'a dpc_state_scheme \<Rightarrow> 'a dpc_state_scheme res" where
  "op_lhu inst s =
     with_paddr (eff_addr inst s) 2 LOAD (load_to (i_rt inst) ucast read_paddr16) s"

definition op_lw :: "u32 \<Rightarrow> 'a dpc_state_scheme \<Rightarrow> 'a dpc_state_scheme res" where
  "op_lw inst s =
     with_paddr (eff_addr inst s) 4 LOAD (load_to (i_rt inst) sext32 read_paddr32) s"

definition op_lwu :: "u32 \<Rightarrow> 'a dpc_state_scheme \<Rightarrow> 'a dpc_state_scheme res" where
  "op_lwu inst s =
     with_paddr (eff_addr inst s) 4 LOAD (load_to (i_rt inst) ucast read_paddr32) s"

definition op_ld :: "u32 \<Rightarrow> 'a dpc_state_scheme \<Rightarrow> 'a dpc_state_scheme res" where
  "op_ld inst s =
     with_paddr (eff_addr inst s) 8 LOAD (load_to (i_rt inst) (\<lambda>v. v) read_paddr64) s"

text \<open>The parts of an unaligned access. \<open>left_shift32\<close> is \<open>8 * ((vaddr ^ 0) & 3)\<close>, \<open>right_shift32\<close>
  is \<open>8 * ((vaddr ^ 3) & 3)\<close>, and likewise for doublewords.\<close>

definition left_shift32 :: "u64 \<Rightarrow> nat" where
  "left_shift32 vaddr = 8 * unat ((vaddr XOR 0) AND 3)"

definition right_shift32 :: "u64 \<Rightarrow> nat" where
  "right_shift32 vaddr = 8 * unat ((vaddr XOR 3) AND 3)"

definition left_shift64 :: "u64 \<Rightarrow> nat" where
  "left_shift64 vaddr = 8 * unat ((vaddr XOR 0) AND 7)"

definition right_shift64 :: "u64 \<Rightarrow> nat" where
  "right_shift64 vaddr = 8 * unat ((vaddr XOR 7) AND 7)"

definition merge_up :: "nat \<Rightarrow> 'w::len word \<Rightarrow> 'w word \<Rightarrow> 'w word" where
  "merge_up shift old data =
     (let m = push_bit shift (- 1) in (old AND NOT m) OR push_bit shift data)"

definition merge_down :: "nat \<Rightarrow> 'w::len word \<Rightarrow> 'w word \<Rightarrow> 'w word" where
  "merge_down shift old data =
     (let m = drop_bit shift (- 1) in (old AND NOT m) OR drop_bit shift data)"

definition op_lwl :: "u32 \<Rightarrow> 'a dpc_state_scheme \<Rightarrow> 'a dpc_state_scheme res" where
  "op_lwl inst s =
     (let vaddr = eff_addr inst s
      in with_paddr vaddr 1 LOAD (\<lambda>paddr s1.
           bindR (read_paddr32 (paddr AND NOT 3) s1) (\<lambda>(data, s2).
             ok (gpr_write (i_rt inst)
               (sext32 (merge_up (left_shift32 vaddr) (lo32 (gpr_read (i_rt inst) s2)) data)) s2))) s)"

definition op_lwr :: "u32 \<Rightarrow> 'a dpc_state_scheme \<Rightarrow> 'a dpc_state_scheme res" where
  "op_lwr inst s =
     (let vaddr = eff_addr inst s
      in with_paddr vaddr 1 LOAD (\<lambda>paddr s1.
           bindR (read_paddr32 (paddr AND NOT 3) s1) (\<lambda>(data, s2).
             ok (gpr_write (i_rt inst)
               (sext32 (merge_down (right_shift32 vaddr) (lo32 (gpr_read (i_rt inst) s2)) data)) s2))) s)"

definition op_ldl :: "u32 \<Rightarrow> 'a dpc_state_scheme \<Rightarrow> 'a dpc_state_scheme res" where
  "op_ldl inst s =
     (let vaddr = gpr_read (fi_base inst) s + sext16 (fi_offset inst)
      in with_paddr vaddr 1 LOAD (\<lambda>paddr s1.
           bindR (read_paddr64 (paddr AND NOT 7) s1) (\<lambda>(data, s2).
             ok (gpr_write (i_rt inst)
               (merge_up (left_shift64 vaddr) (gpr_read (i_rt inst) s2) data) s2))) s)"

definition op_ldr :: "u32 \<Rightarrow> 'a dpc_state_scheme \<Rightarrow> 'a dpc_state_scheme res" where
  "op_ldr inst s =
     (let vaddr = gpr_read (fi_base inst) s + sext16 (fi_offset inst)
      in with_paddr vaddr 1 LOAD (\<lambda>paddr s1.
           bindR (read_paddr64 (paddr AND NOT 7) s1) (\<lambda>(data, s2).
             ok (gpr_write (i_rt inst)
               (merge_down (right_shift64 vaddr) (gpr_read (i_rt inst) s2) data) s2))) s)"

definition note_link :: "u32 \<Rightarrow> 'a irq_state_scheme \<Rightarrow> 'a irq_state_scheme" where
  "note_link paddr = map_cop0 (\<lambda>c. c\<lparr>c0_lladdr := drop_bit 4 paddr, llbit := True\<rparr>)"

definition op_ll :: "u32 \<Rightarrow> 'a dpc_state_scheme \<Rightarrow> 'a dpc_state_scheme res" where
  "op_ll inst s =
     with_paddr (eff_addr inst s) 4 LOAD (\<lambda>paddr s1.
       bindR (load_to (i_rt inst) sext32 read_paddr32 paddr s1) (\<lambda>s2. ok (note_link paddr s2))) s"

definition op_lld :: "u32 \<Rightarrow> 'a dpc_state_scheme \<Rightarrow> 'a dpc_state_scheme res" where
  "op_lld inst s =
     with_paddr (eff_addr inst s) 8 LOAD (\<lambda>paddr s1.
       bindR (load_to (i_rt inst) (\<lambda>v. v) read_paddr64 paddr s1) (\<lambda>s2. ok (note_link paddr s2))) s"

section \<open>Stores\<close>

definition op_sb :: "u32 \<Rightarrow> 'a dpc_state_scheme \<Rightarrow> 'a dpc_state_scheme res" where
  "op_sb inst s =
     with_paddr (eff_addr inst s) 1 STORE (\<lambda>paddr s1.
       write_paddr8 paddr (ucast (gpr_read (r_rt inst) s1)) s1) s"

definition op_sh :: "u32 \<Rightarrow> 'a dpc_state_scheme \<Rightarrow> 'a dpc_state_scheme res" where
  "op_sh inst s =
     with_paddr (eff_addr inst s) 2 STORE (\<lambda>paddr s1.
       write_paddr16 paddr (ucast (gpr_read (r_rt inst) s1)) s1) s"

definition op_sw :: "u32 \<Rightarrow> 'a dpc_state_scheme \<Rightarrow> 'a dpc_state_scheme res" where
  "op_sw inst s =
     with_paddr (eff_addr inst s) 4 STORE (\<lambda>paddr s1.
       write_paddr32 paddr (lo32 (gpr_read (r_rt inst) s1)) s1) s"

definition op_sd :: "u32 \<Rightarrow> 'a dpc_state_scheme \<Rightarrow> 'a dpc_state_scheme res" where
  "op_sd inst s =
     with_paddr (eff_addr inst s) 8 STORE (\<lambda>paddr s1.
       write_paddr64 paddr (gpr_read (r_rt inst) s1) s1) s"

definition op_swl :: "u32 \<Rightarrow> 'a dpc_state_scheme \<Rightarrow> 'a dpc_state_scheme res" where
  "op_swl inst s =
     (let vaddr = eff_addr inst s
      in with_paddr vaddr 1 STORE (\<lambda>paddr s1.
           bindR (read_paddr32 (paddr AND NOT 3) s1) (\<lambda>(data, s2).
             write_paddr32 (paddr AND NOT 3)
               (merge_down (left_shift32 vaddr) data (lo32 (gpr_read (r_rt inst) s2))) s2)) s)"

definition op_swr :: "u32 \<Rightarrow> 'a dpc_state_scheme \<Rightarrow> 'a dpc_state_scheme res" where
  "op_swr inst s =
     (let vaddr = eff_addr inst s
      in with_paddr vaddr 1 STORE (\<lambda>paddr s1.
           bindR (read_paddr32 (paddr AND NOT 3) s1) (\<lambda>(data, s2).
             write_paddr32 (paddr AND NOT 3)
               (merge_up (right_shift32 vaddr) data (lo32 (gpr_read (r_rt inst) s2))) s2)) s)"

definition op_sdl :: "u32 \<Rightarrow> 'a dpc_state_scheme \<Rightarrow> 'a dpc_state_scheme res" where
  "op_sdl inst s =
     (let vaddr = gpr_read (fi_base inst) s + sext16 (fi_offset inst)
      in with_paddr vaddr 1 STORE (\<lambda>paddr s1.
           bindR (read_paddr64 (paddr AND NOT 7) s1) (\<lambda>(data, s2).
             write_paddr64 (paddr AND NOT 7)
               (merge_down (left_shift64 vaddr) data (gpr_read (i_rt inst) s2)) s2)) s)"

definition op_sdr :: "u32 \<Rightarrow> 'a dpc_state_scheme \<Rightarrow> 'a dpc_state_scheme res" where
  "op_sdr inst s =
     (let vaddr = gpr_read (fi_base inst) s + sext16 (fi_offset inst)
      in with_paddr vaddr 1 STORE (\<lambda>paddr s1.
           bindR (read_paddr64 (paddr AND NOT 7) s1) (\<lambda>(data, s2).
             write_paddr64 (paddr AND NOT 7)
               (merge_up (right_shift64 vaddr) data (gpr_read (i_rt inst) s2)) s2)) s)"

text \<open>A conditional store consumes the link bit and reports in \<open>rt\<close>.\<close>

definition op_sc :: "u32 \<Rightarrow> 'a dpc_state_scheme \<Rightarrow> 'a dpc_state_scheme res" where
  "op_sc inst s =
     (if llbit (cop0 s) then
        with_paddr (eff_addr inst s) 4 STORE (\<lambda>paddr s1.
          bindR (write_paddr32 paddr (lo32 (gpr_read (i_rt inst) s1)) s1) (\<lambda>s2. ok (gpr_write (i_rt inst) 1 s2)))
          (map_cop0 (\<lambda>c. c\<lparr>llbit := False\<rparr>) s)
      else ok (gpr_write (i_rt inst) 0 s))"

definition op_scd :: "u32 \<Rightarrow> 'a dpc_state_scheme \<Rightarrow> 'a dpc_state_scheme res" where
  "op_scd inst s =
     (if llbit (cop0 s) then
        with_paddr (eff_addr inst s) 8 STORE (\<lambda>paddr s1.
          bindR (write_paddr64 paddr (gpr_read (i_rt inst) s1) s1) (\<lambda>s2. ok (gpr_write (i_rt inst) 1 s2)))
          (map_cop0 (\<lambda>c. c\<lparr>llbit := False\<rparr>) s)
      else ok (gpr_write (i_rt inst) 0 s))"

fun exec_mem :: "mem_op \<Rightarrow> u32 \<Rightarrow> 'a dpc_state_scheme \<Rightarrow> 'a dpc_state_scheme res" where
  "exec_mem Op_lb inst s = op_lb inst s"
| "exec_mem Op_lbu inst s = op_lbu inst s"
| "exec_mem Op_lh inst s = op_lh inst s"
| "exec_mem Op_lhu inst s = op_lhu inst s"
| "exec_mem Op_lw inst s = op_lw inst s"
| "exec_mem Op_lwu inst s = op_lwu inst s"
| "exec_mem Op_lwl inst s = op_lwl inst s"
| "exec_mem Op_lwr inst s = op_lwr inst s"
| "exec_mem Op_ld inst s = op_ld inst s"
| "exec_mem Op_ldl inst s = op_ldl inst s"
| "exec_mem Op_ldr inst s = op_ldr inst s"
| "exec_mem Op_ll inst s = op_ll inst s"
| "exec_mem Op_lld inst s = op_lld inst s"
| "exec_mem Op_sb inst s = op_sb inst s"
| "exec_mem Op_sh inst s = op_sh inst s"
| "exec_mem Op_swl inst s = op_swl inst s"
| "exec_mem Op_sw inst s = op_sw inst s"
| "exec_mem Op_swr inst s = op_swr inst s"
| "exec_mem Op_sd inst s = op_sd inst s"
| "exec_mem Op_sdl inst s = op_sdl inst s"
| "exec_mem Op_sdr inst s = op_sdr inst s"
| "exec_mem Op_sc inst s = op_sc inst s"
| "exec_mem Op_scd inst s = op_scd inst s"

end
