(* ===== verification/Cpu_Mem_Spec.thy ===== *)
theory Cpu_Mem_Spec
  imports Cpu_Mem
begin

text \<open>
  The unaligned accesses: a left and a right instruction at an address and three bytes further move
  the big-endian word of any address.
\<close>

section \<open>Words by their bytes\<close>

definition word_at :: "bytes \<Rightarrow> u32 \<Rightarrow> u32" where
  "word_at m a = be_word (n64_byte m a) (n64_byte m (a + 1)) (n64_byte m (a + 2)) (n64_byte m (a + 3))"

lemma byte_of_word_at [simp]:
  "byte_of 3 (word_at m a) = n64_byte m a" "byte_of 2 (word_at m a) = n64_byte m (a + 1)"
  "byte_of (Suc 0) (word_at m a) = n64_byte m (a + 2)" "byte_of 0 (word_at m a) = n64_byte m (a + 3)"
  by (simp_all add: word_at_def be_word_def)

lemma word_by_bytes:
  "byte_of 0 x = byte_of 0 y \<Longrightarrow> byte_of (Suc 0) x = byte_of (Suc 0) y \<Longrightarrow> byte_of 2 x = byte_of 2 y \<Longrightarrow>
   byte_of 3 x = byte_of 3 y \<Longrightarrow> x = (y :: u32)"
  by (metis le32_bytes)

lemma byte_merge_up:
  assumes "j < 4" and "k < 4"
  shows "byte_of j (merge_up (8 * k) old data :: u32) = (if j < k then byte_of j old else byte_of (j - k) data)"
proof -
  have b: "bit (merge_up (8 * k) old data :: u32) n = (if n < 8 * k then bit old n else bit data (n - 8 * k))"
    if "n < 32" for n
    using that by (auto simp: merge_up_def Let_def bit_or_iff bit_and_iff bit_not_iff bit_push_bit_iff bit_minus_1_iff bit_mask_iff)
  have "8 * j + n < 32" if "n < 8" for n using that assms(1) by linarith
  moreover have "8 * j + n - 8 * k = 8 * (j - k) + n" "\<not> 8 * j + n < 8 * k" if "\<not> j < k" for n
    using that by simp_all
  moreover have "8 * j + n < 8 * k" if "j < k" "n < 8" for n using that by linarith
  ultimately show ?thesis by (intro bit_word_eqI) (simp add: bit_byte_of b)
qed

lemma byte_merge_down:
  assumes "j < 4" and "k < 4"
  shows "byte_of j (merge_down (8 * k) old data :: u32) = (if j + k < 4 then byte_of (j + k) data else byte_of j old)"
proof -
  have b: "bit (merge_down (8 * k) old data :: u32) n = (if n + 8 * k < 32 then bit data (n + 8 * k) else bit old n)"
    if "n < 32" for n
    using that by (auto simp: merge_down_def Let_def bit_or_iff bit_and_iff bit_not_iff bit_drop_bit_eq bit_minus_1_iff
        bit_mask_iff add.commute dest: bit_imp_le_length)
  show ?thesis
  proof (rule bit_word_eqI)
    fix n assume "n < LENGTH(8)"
    then have n: "n < 8" by simp
    have e: "8 * j + n + 8 * k = 8 * (j + k) + n" by simp
    have "8 * j + n < 32" using n assms(1) by linarith
    then have "bit (merge_down (8 * k) old data) (8 * j + n) =
        (if 8 * (j + k) + n < 32 then bit data (8 * (j + k) + n) else bit old (8 * j + n))"
      unfolding e [symmetric] by (rule b)
    moreover have "8 * (j + k) + n < 32 \<longleftrightarrow> j + k < 4" using n by presburger
    ultimately show "bit (byte_of j (merge_down (8 * k) old data)) n =
        bit (if j + k < 4 then byte_of (j + k) data else byte_of j old) n"
      using n by (cases "j + k < 4") (simp_all only: bit_byte_of if_True if_False)
  qed
qed

section \<open>Translations that succeed\<close>

lemma resolve_success:
  assumes "soft_ok s" and "translate s acc v = Some p"
  shows "\<exists>f. resolve_vaddr_cached v n acc s = Inr (Some p, map_tlb f s) \<and> soft_ok (map_tlb f s) \<and>
    entries (f (tlb s)) = entries (tlb s)"
proof -
  have id: "map_tlb (\<lambda>t. t) s = s" by (simp add: map_tlb_def)
  have hit: ?thesis if "resolve_vaddr_cached v n acc s = Inr (Some p, s)"
    by (rule exI [of _ "\<lambda>t. t"]) (simp add: that id assms(1))
  show ?thesis
  proof (cases "soft_tlb_lookup v n acc s")
    case (Some q)
    then have "translate s acc v = Some q"
      using mmu.soft_hit [of s "tlb s" acc] assms(1)
      by (auto simp: soft_tlb_lookup_def soft_ok_def Let_def split: if_splits)
    with Some assms(2) show ?thesis by (intro hit) (simp add: resolve_vaddr_cached_def)
  next
    case None
    have r: "resolve_vaddr v acc s = Inr (Some p, s)"
      using assms(2) by (auto simp: resolve_vaddr_eq translate_def split: option.splits sum.splits)
    show ?thesis
    proof (cases "paddr_in_rdram p n")
      case True
      obtain f where f: "soft_tlb_note acc v p s = map_tlb f s" "entries (f (tlb s)) = entries (tlb s)"
        by (simp add: soft_tlb_note_def Let_def split: bus_access.split)
      show ?thesis
        by (rule exI [of _ f]) (use True None r f soft_ok_note [OF assms] in \<open>simp add: resolve_vaddr_cached_def\<close>)
    next
      case False
      then show ?thesis using None r by (intro hit) (simp add: resolve_vaddr_cached_def)
    qed
  qed
qed

lemma offset_kept: "translate s acc v = Some p \<Longrightarrow> n < 12 \<Longrightarrow> bit p n = bit v n"
  using translate_page [of s acc v p v] bit_in_page [of p v n] by simp

section \<open>Aligned words on the bus\<close>

abbreviation (input) ram_byte :: "'a mem_state_scheme \<Rightarrow> u32 \<Rightarrow> u8" where
  "ram_byte s \<equiv> n64_byte (rdram (mem s))"

definition ram_only :: "'a dpc_state_scheme \<Rightarrow> 'a dpc_state_scheme \<Rightarrow> bool" where
  "ram_only s s' \<longleftrightarrow> cpu s' = cpu s \<and> tlb s' = tlb s \<and> cop0 s' = cop0 s \<and> (mem_ok s \<longrightarrow> mem_ok s')"

lemma ram_only_accesses:
  "ram_only s (check_framebuffers p n s)"
  "bytes_len m = 0x800000 \<Longrightarrow> ram_only s (maybe_invalidate_code p n ((on_rdram_write p n s)\<lparr>mem := (mem s)\<lparr>rdram := m\<rparr>\<rparr>))"
  "mem (check_framebuffers p n s) = mem s"
  "mem (maybe_invalidate_code p n ((on_rdram_write p n s)\<lparr>mem := (mem s)\<lparr>rdram := m\<rparr>\<rparr>)) = (mem s)\<lparr>rdram := m\<rparr>"
  by (auto simp: ram_only_def mem_ok_def check_framebuffers_def on_rdram_write_def maybe_mark_vi_fb_dirty_def map_rdp_def
      maybe_invalidate_code_def map_dcache_def Let_def split: code_hook.split)

lemma word_bytes:
  assumes "aligned4 p" and "unat p < bytes_len m" and "bytes_len m mod 8 = 0" and "read_from_byte_array32 m p = Inr w"
    and "within p 4 b"
  shows "n64_byte m b = byte_of (3 - (unat b - unat p)) w"
proof -
  have "bytes_len m mod 4 = 0" using assms(3) by presburger
  then have w: "w = be_word (n64_byte m p) (n64_byte m (p + 1)) (n64_byte m (p + 2)) (n64_byte m (p + 3))"
    using read32_n64_bytes [of p m] assms(1,2,4) by (simp add: in_range_def word_sized_def)
  obtain k where k: "k < 4" "unat b = unat p + k" using assms(5) by (auto simp: within_def le_iff_add)
  then have b: "b = p + word_of_nat k" using unat_add_aligned4 [OF assms(1) k(1)] by (simp add: word_unat_eq_iff)
  have "n64_byte m (p + word_of_nat k) = byte_of (3 - k) w"
  proof -
    consider "k = 0" | "k = 1" | "k = 2" | "k = 3" using k(1) by linarith
    then show ?thesis by cases (simp_all add: w be_word_def)
  qed
  then show ?thesis unfolding k(2) by (simp add: b)
qed

lemma ram_read32:
  assumes "mem_ok s" and "aligned4 p" and "p \<le> PHYS_RDRAM_MEM_END"
  obtains w s' where "read_paddr32 p s = Inr (w, s')" "ram_only s s'" "mem s' = mem s"
    "\<And>b. within p 4 b \<Longrightarrow> byte_of (3 - (unat b - unat p)) w = ram_byte s b"
proof -
  have l: "bytes_len (rdram (mem s)) = 0x800000" "unat p < 0x800000"
    using assms(1,3) by (simp_all add: mem_ok_def word_le_nat_alt)
  then obtain w where w: "read_from_byte_array32 (rdram (mem s)) p = Inr w"
    using read32_n64_bytes [OF assms(2), of "rdram (mem s)"] by (simp add: in_range_def word_sized_def)
  show ?thesis
    by (rule that [of w "check_framebuffers p 4 s"])
      (use assms(3) w word_bytes [OF assms(2) _ _ w] l in
        \<open>simp_all add: read_paddr32_def read_paddr_def Let_def ram_only_accesses\<close>)
qed

lemma ram_write32:
  assumes "mem_ok s" and "aligned4 p" and "p \<le> PHYS_RDRAM_MEM_END"
  obtains s' where "write_paddr32 p w s = Inr s'" "ram_only s s'"
    "\<And>b. ram_byte s' b = (if within p 4 b then byte_of (3 - (unat b - unat p)) w else ram_byte s b)"
proof -
  have al: "naturally_aligned 4 p" using assms(2) by (simp add: naturally_aligned_def aligned4_def)
  obtain m where m: "write_to_byte_array32 p w (rdram (mem s)) = Inr m" "bytes_len m = 0x800000"
    and r: "write_paddr32 p w s =
      Inr (maybe_invalidate_code p 4 ((on_rdram_write p 4 s)\<lparr>mem := (mem s)\<lparr>rdram := m\<rparr>\<rparr>))"
    unfolding write_paddr32_def by (rule access32.bus_store [OF assms(1,3) al])
  have p: "unat p < bytes_len m" "bytes_len m mod 8 = 0" using assms(3) m(2) by (simp_all add: word_le_nat_alt)
  note rd = host32.wr_rd [OF m(1)] and keep = access32.wr_bytes [OF al m(1)]
  have "n64_byte m b = (if within p 4 b then byte_of (3 - (unat b - unat p)) w else ram_byte s b)" for b
  proof (cases "within p 4 b")
    case True
    then show ?thesis using word_bytes [OF assms(2) p rd True] by simp
  next
    case False
    then show ?thesis using keep [OF False] by simp
  qed
  then show ?thesis by (intro that [OF r]) (simp_all add: ram_only_accesses m(2))
qed

section \<open>One half of an unaligned access\<close>

lemma shift_place:
  assumes "translate s acc (lo32 va) = Some a"
  shows "left_shift32 va = 8 * (unat a mod 4)" "right_shift32 va = 8 * (3 - unat a mod 4)"
proof -
  define k where "k = unat a mod 4"
  have "k < 4" by (simp add: k_def)
  have m: "(3 :: 'w::len word) = mask 2" by (simp add: mask_eq_exp_minus_1)
  have "va AND 3 = ucast (a AND 3)"
    by (rule bit_word_eqI)
      (use offset_kept [OF assms] in \<open>auto simp: m lo32_def bit_and_iff bit_mask_iff bit_ucast_iff\<close>)
  moreover have "unat (a AND 3) = k" using unat_and_mask [of a 2] by (simp add: k_def mask_eq_exp_minus_1)
  ultimately have "unat (va AND 3) = k"
    using \<open>k < 4\<close> by (simp add: unsigned_ucast_eq take_bit_nat_eq_self)
  then have k: "va AND 3 = word_of_nat k"
    using \<open>k < 4\<close> by (simp add: word_unat_eq_iff unat_of_nat take_bit_nat_eq_self)
  have x: "(va XOR 3) AND 3 = (va AND 3) XOR 3" by (simp add: bit.conj_xor_distrib2)
  consider "k = 0" | "k = 1" | "k = 2" | "k = 3" using \<open>k < 4\<close> by linarith
  then have "unat ((va XOR 3) AND 3) = 3 - k" unfolding x k by cases simp_all
  with \<open>unat (va AND 3) = k\<close> show "left_shift32 va = 8 * (unat a mod 4)" "right_shift32 va = 8 * (3 - unat a mod 4)"
    by (simp_all add: left_shift32_def right_shift32_def k_def)
qed

definition goes_on :: "'a dpc_state_scheme \<Rightarrow> 'a dpc_state_scheme \<Rightarrow> bool" where
  "goes_on s s' \<longleftrightarrow> cop0 s' = cop0 s \<and> entries (tlb s') = entries (tlb s) \<and> soft_ok s' \<and> mem_ok s'"

lemma goes_on_translate: "goes_on s s' \<Longrightarrow> translate s' = translate s"
  by (rule translate_cong) (simp_all add: goes_on_def asid_def)

lemma word_base:
  fixes a :: u32
  assumes "a \<le> PHYS_RDRAM_MEM_END"
  shows "aligned4 (a AND NOT 3)" "a AND NOT 3 \<le> PHYS_RDRAM_MEM_END" "unat (a AND NOT 3) = 4 * (unat a div 4)"
  using assms unat_align48(1) [of a] by (auto simp: aligned4_def word_le_nat_alt)

lemma store_half:
  assumes "soft_ok s" "mem_ok s" "translate s STORE (lo32 va) = Some a" "a \<le> PHYS_RDRAM_MEM_END"
  obtains w s' where "with_paddr va 1 STORE (\<lambda>paddr s1.
      bindR (read_paddr32 (paddr AND NOT 3) s1) (\<lambda>(data, s2).
        write_paddr32 (paddr AND NOT 3) (g data (lo32 (gpr_read r s2))) s2)) s = Inr s'"
    "goes_on s s'" "cpu s' = cpu s"
    "\<And>b. within (a AND NOT 3) 4 b \<Longrightarrow> byte_of (3 - (unat b - 4 * (unat a div 4))) w = ram_byte s b"
    "\<And>b. ram_byte s' b = (if within (a AND NOT 3) 4 b
      then byte_of (3 - (unat b - 4 * (unat a div 4))) (g w (lo32 (gpr_read r s))) else ram_byte s b)"
proof -
  obtain f where f: "resolve_vaddr_cached (lo32 va) 1 STORE s = Inr (Some a, map_tlb f s)" "soft_ok (map_tlb f s)"
    "entries (f (tlb s)) = entries (tlb s)"
    using resolve_success [OF assms(1,3)] by blast
  note p = word_base [OF assms(4)]
  have ok: "mem_ok (map_tlb f s)" using assms(2) by (simp add: mem_ok_def)
  obtain w s2 where w: "read_paddr32 (a AND NOT 3) (map_tlb f s) = Inr (w, s2)" "ram_only (map_tlb f s) s2" "mem s2 = mem s"
    "\<And>b. within (a AND NOT 3) 4 b \<Longrightarrow> byte_of (3 - (unat b - unat (a AND NOT 3))) w = ram_byte s b"
    using ram_read32 [OF ok p(1,2)] by (metis map_tlb_simps(3))
  have ok2: "mem_ok s2" and c2: "cpu s2 = cpu s" using w(2) ok by (simp_all add: ram_only_def map_tlb_def)
  obtain s' where s': "write_paddr32 (a AND NOT 3) (g w (lo32 (gpr_read r s2))) s2 = Inr s'" "ram_only s2 s'"
    "\<And>b. ram_byte s' b = (if within (a AND NOT 3) 4 b
      then byte_of (3 - (unat b - unat (a AND NOT 3))) (g w (lo32 (gpr_read r s2))) else ram_byte s2 b)"
    using ram_write32 [OF ok2 p(1,2)] by metis
  have g: "gpr_read r s2 = gpr_read r s" using c2 by (simp add: gpr_read_def)
  have "tlb s' = f (tlb s)" "cop0 s' = cop0 s" "cpu s' = cpu s" "mem_ok s'"
    using s'(2) w(2) ok2 c2 by (simp_all add: ram_only_def)
  moreover from this have "soft_ok s' = soft_ok (map_tlb f s)"
    by (intro soft_ok_cong) (simp_all add: asid_def)
  ultimately have "goes_on s s'" using f(2,3) by (simp add: goes_on_def)
  then show ?thesis
    by (intro that [of s' w]) (use f(1) w s'(1,3) p(3) g \<open>cpu s' = cpu s\<close> in \<open>simp_all add: with_paddr_def\<close>)
qed

lemma load_half:
  assumes "soft_ok s" "mem_ok s" "translate s LOAD (lo32 va) = Some a" "a \<le> PHYS_RDRAM_MEM_END"
  obtains w s' where "\<And>k. with_paddr va 1 LOAD (\<lambda>paddr s1. bindR (read_paddr32 (paddr AND NOT 3) s1) k) s = k (w, s')"
    "goes_on s s'" "cpu s' = cpu s" "mem s' = mem s"
    "\<And>b. within (a AND NOT 3) 4 b \<Longrightarrow> byte_of (3 - (unat b - 4 * (unat a div 4))) w = ram_byte s b"
proof -
  obtain f where f: "resolve_vaddr_cached (lo32 va) 1 LOAD s = Inr (Some a, map_tlb f s)" "soft_ok (map_tlb f s)"
    "entries (f (tlb s)) = entries (tlb s)"
    using resolve_success [OF assms(1,3)] by blast
  note p = word_base [OF assms(4)]
  have ok: "mem_ok (map_tlb f s)" using assms(2) by (simp add: mem_ok_def)
  obtain w s' where w: "read_paddr32 (a AND NOT 3) (map_tlb f s) = Inr (w, s')" "ram_only (map_tlb f s) s'" "mem s' = mem s"
    "\<And>b. within (a AND NOT 3) 4 b \<Longrightarrow> byte_of (3 - (unat b - unat (a AND NOT 3))) w = ram_byte s b"
    using ram_read32 [OF ok p(1,2)] by (metis map_tlb_simps(3))
  have "tlb s' = f (tlb s)" "cop0 s' = cop0 s" "mem_ok s'"
    using w(2) ok by (simp_all add: ram_only_def)
  moreover from this have "soft_ok s' = soft_ok (map_tlb f s)"
    by (intro soft_ok_cong) (simp_all add: asid_def)
  ultimately have "goes_on s s'" using f(2,3) by (simp add: goes_on_def)
  moreover have "cpu s' = cpu s" using w(2) by (simp add: ram_only_def map_tlb_def)
  ultimately show ?thesis
    by (intro that [of w s']) (use f(1) w p(3) in \<open>simp_all add: with_paddr_def\<close>)
qed

section \<open>The two halves together\<close>

lemma word_range: "4 * q \<le> x \<and> x < 4 * q + 4 \<longleftrightarrow> x div 4 = q" for x q :: nat
  by presburger

lemma within_word:
  fixes a :: u32
  assumes "a \<le> PHYS_RDRAM_MEM_END"
  shows "within (a AND NOT 3) 4 b \<longleftrightarrow> unat b div 4 = unat a div 4"
  using word_range [of "unat a div 4" "unat b"] word_base(3) [OF assms] by (simp add: within_def)

lemma swl_bytes:
  assumes "soft_ok s" "mem_ok s" "translate s STORE (lo32 (eff_addr inst s)) = Some a" "a \<le> PHYS_RDRAM_MEM_END"
  obtains s' where "op_swl inst s = Inr s'" "goes_on s s'" "cpu s' = cpu s"
    "\<And>b. ram_byte s' b = (if unat a \<le> unat b \<and> unat b div 4 = unat a div 4
      then byte_of (3 - (unat b - unat a)) (lo32 (gpr_read (r_rt inst) s)) else ram_byte s b)"
proof -
  let ?k = "unat a mod 4" let ?q = "unat a div 4"
  obtain s' w where s': "op_swl inst s = Inr s'" "goes_on s s'" "cpu s' = cpu s"
    and w: "\<And>b. within (a AND NOT 3) 4 b \<Longrightarrow> byte_of (3 - (unat b - 4 * ?q)) w = ram_byte s b"
    and b: "\<And>b. ram_byte s' b = (if within (a AND NOT 3) 4 b
      then byte_of (3 - (unat b - 4 * ?q)) (merge_down (8 * ?k) w (lo32 (gpr_read (r_rt inst) s))) else ram_byte s b)"
    unfolding op_swl_def Let_def shift_place(1) [OF assms(3)]
    by (rule store_half [OF assms, where g = "merge_down (8 * ?k)" and r = "r_rt inst"]) blast
  show ?thesis
  proof (rule that [OF s'])
    fix b
    show "ram_byte s' b = (if unat a \<le> unat b \<and> unat b div 4 = ?q
      then byte_of (3 - (unat b - unat a)) (lo32 (gpr_read (r_rt inst) s)) else ram_byte s b)"
    proof (cases "within (a AND NOT 3) 4 b")
      case True
      then have d: "unat b div 4 = ?q" using within_word [OF assms(4)] by blast
      define i where "i = unat b - 4 * ?q"
      have i: "unat b = 4 * ?q + i" "i < 4" using d by (simp_all add: i_def)
      have a: "unat a = 4 * ?q + ?k" "?k < 4" by simp_all
      have "unat a \<le> unat b \<longleftrightarrow> ?k \<le> i" "unat b - unat a = i - ?k" "3 - i + ?k < 4 \<longleftrightarrow> ?k \<le> i"
        "?k \<le> i \<longrightarrow> 3 - i + ?k = 3 - (i - ?k)" using i a by linarith+
      then show ?thesis using b [of b] w [OF True] True d i(2) a(2)
        by (simp add: i_def [symmetric] byte_merge_down)
    next
      case False
      then show ?thesis using b [of b] within_word [OF assms(4)] by simp
    qed
  qed
qed

text \<open>The place of a byte in the word of \<open>a\<close>.\<close>

lemma place_in_word:
  fixes a b :: nat
  assumes "b div 4 = a div 4"
  obtains i k where "i < 4" "k < 4" "b = 4 * (a div 4) + i" "a mod 4 = k" "a = 4 * (a div 4) + k"
proof (rule that [of "b mod 4" "a mod 4"])
  show "b = 4 * (a div 4) + b mod 4" using assms by presburger
qed simp_all

lemma swr_bytes:
  assumes "soft_ok s" "mem_ok s" "translate s STORE (lo32 (eff_addr inst s)) = Some a" "a \<le> PHYS_RDRAM_MEM_END"
  obtains s' where "op_swr inst s = Inr s'" "goes_on s s'" "cpu s' = cpu s"
    "\<And>b. ram_byte s' b = (if unat b \<le> unat a \<and> unat b div 4 = unat a div 4
      then byte_of (unat a - unat b) (lo32 (gpr_read (r_rt inst) s)) else ram_byte s b)"
proof -
  let ?k = "unat a mod 4" let ?q = "unat a div 4"
  obtain s' w where s': "op_swr inst s = Inr s'" "goes_on s s'" "cpu s' = cpu s"
    and w: "\<And>b. within (a AND NOT 3) 4 b \<Longrightarrow> byte_of (3 - (unat b - 4 * ?q)) w = ram_byte s b"
    and b: "\<And>b. ram_byte s' b = (if within (a AND NOT 3) 4 b
      then byte_of (3 - (unat b - 4 * ?q)) (merge_up (8 * (3 - ?k)) w (lo32 (gpr_read (r_rt inst) s))) else ram_byte s b)"
    unfolding op_swr_def Let_def shift_place(2) [OF assms(3)]
    by (rule store_half [OF assms, where g = "merge_up (8 * (3 - ?k))" and r = "r_rt inst"]) blast
  show ?thesis
  proof (rule that [OF s'])
    fix b
    show "ram_byte s' b = (if unat b \<le> unat a \<and> unat b div 4 = ?q
      then byte_of (unat a - unat b) (lo32 (gpr_read (r_rt inst) s)) else ram_byte s b)"
    proof (cases "within (a AND NOT 3) 4 b")
      case True
      then have d: "unat b div 4 = ?q" using within_word [OF assms(4)] by blast
      then obtain i k where i: "i < 4" "k < 4" "unat b = 4 * ?q + i" "?k = k" "unat a = 4 * ?q + k"
        by (rule place_in_word)
      then have "unat b \<le> unat a \<longleftrightarrow> i \<le> k" "unat a - unat b = k - i" "3 - i < 3 - k \<longleftrightarrow> \<not> i \<le> k"
        "3 - i - (3 - k) = k - i" "unat b - 4 * ?q = i" "3 - i < 4" "3 - k < 4" by linarith+
      then show ?thesis using b [of b] w [OF True] True d byte_merge_up [of "3 - i" "3 - k"] by (simp add: i(4))
    next
      case False
      then show ?thesis using b [of b] within_word [OF assms(4)] by simp
    qed
  qed
qed

lemma rt_fields: "i_rt x = r_rt x"
  by (simp add: inst_fields)

lemma lwl_bytes:
  assumes "soft_ok s" "mem_ok s" "translate s LOAD (lo32 (eff_addr inst s)) = Some a" "a \<le> PHYS_RDRAM_MEM_END"
  obtains v s' where "op_lwl inst s = Inr (gpr_write (r_rt inst) (sext32 v) s')" "goes_on s s'" "cpu s' = cpu s" "mem s' = mem s"
    "\<And>b. unat a \<le> unat b \<Longrightarrow> unat b div 4 = unat a div 4 \<Longrightarrow> byte_of (3 - (unat b - unat a)) v = ram_byte s b"
proof -
  let ?q = "unat a div 4"
  obtain w s' where r: "\<And>k. with_paddr (eff_addr inst s) 1 LOAD (\<lambda>paddr s1. bindR (read_paddr32 (paddr AND NOT 3) s1) k) s = k (w, s')"
    and s': "goes_on s s'" "cpu s' = cpu s" "mem s' = mem s"
    and w: "\<And>b. within (a AND NOT 3) 4 b \<Longrightarrow> byte_of (3 - (unat b - 4 * ?q)) w = ram_byte s b"
    by (rule load_half [OF assms]) blast
  show ?thesis
  proof (rule that [OF _ s'])
    let ?v = "merge_up (8 * (unat a mod 4)) (lo32 (gpr_read (r_rt inst) s')) w"
    show "op_lwl inst s = Inr (gpr_write (r_rt inst) (sext32 ?v) s')"
      by (simp only: op_lwl_def rt_fields Let_def r shift_place(1) [OF assms(3)] prod.case)
    fix b :: u32 assume b: "unat a \<le> unat b" "unat b div 4 = ?q"
    obtain i k where i: "i < 4" "k < 4" "unat b = 4 * ?q + i" "unat a mod 4 = k" "unat a = 4 * ?q + k"
      using b(2) by (rule place_in_word)
    have "k \<le> i" "unat b - unat a = i - k" "unat b - 4 * ?q = i" "3 - (i - k) < 4"
      "\<not> 3 - (i - k) < k" "3 - (i - k) - k = 3 - i" using i b(1) by linarith+
    then show "byte_of (3 - (unat b - unat a)) ?v = ram_byte s b"
      using w [of b] within_word [OF assms(4), of b] b(2) byte_merge_up [of "3 - (i - k)" k] i(2,4) by simp
  qed
qed

lemma lwr_bytes:
  assumes "soft_ok s" "mem_ok s" "translate s LOAD (lo32 (eff_addr inst s)) = Some a" "a \<le> PHYS_RDRAM_MEM_END"
  obtains v s' where "op_lwr inst s = Inr (gpr_write (r_rt inst) (sext32 v) s')"
    "\<And>j. j < 4 \<Longrightarrow> 4 * (unat a div 4) + j \<le> unat a \<Longrightarrow> byte_of j v = ram_byte s (a - word_of_nat j)"
    "\<And>j. j < 4 \<Longrightarrow> unat a < 4 * (unat a div 4) + j \<Longrightarrow> byte_of j v = byte_of j (lo32 (gpr_read (r_rt inst) s))"
proof -
  let ?q = "unat a div 4" let ?k = "unat a mod 4"
  obtain w s' where r: "\<And>k. with_paddr (eff_addr inst s) 1 LOAD (\<lambda>paddr s1. bindR (read_paddr32 (paddr AND NOT 3) s1) k) s = k (w, s')"
    and s': "goes_on s s'" "cpu s' = cpu s" "mem s' = mem s"
    and w: "\<And>b. within (a AND NOT 3) 4 b \<Longrightarrow> byte_of (3 - (unat b - 4 * ?q)) w = ram_byte s b"
    by (rule load_half [OF assms]) blast
  have g: "gpr_read (r_rt inst) s' = gpr_read (r_rt inst) s" using s'(2) by (simp add: gpr_read_def)
  let ?v = "merge_down (8 * (3 - ?k)) (lo32 (gpr_read (r_rt inst) s)) w"
  have b: "byte_of j ?v = (if j + (3 - ?k) < 4 then byte_of (j + (3 - ?k)) w else byte_of j (lo32 (gpr_read (r_rt inst) s)))"
    if "j < 4" for j using that by (rule byte_merge_down) linarith
  have a: "unat a = 4 * ?q + ?k" "?k < 4" by simp_all
  show ?thesis
  proof (rule that)
    show "op_lwr inst s = Inr (gpr_write (r_rt inst) (sext32 ?v) s')"
      by (simp only: op_lwr_def rt_fields Let_def r shift_place(2) [OF assms(3)] prod.case g)
    fix j :: nat assume j: "j < 4"
    show "byte_of j ?v = ram_byte s (a - word_of_nat j)" if "4 * ?q + j \<le> unat a"
    proof -
      have "word_of_nat j \<le> a" using that j by (simp add: word_le_nat_alt unat_of_nat take_bit_nat_eq_self)
      then have u: "unat (a - word_of_nat j) = unat a - j" using j by (simp add: unat_sub unat_of_nat take_bit_nat_eq_self)
      have e: "(unat a - j) div 4 = ?q" "j + (3 - ?k) < 4" "3 - (unat a - j - 4 * ?q) = j + (3 - ?k)"
        using that j a by linarith+
      have "within (a AND NOT 3) 4 (a - word_of_nat j)" unfolding within_word [OF assms(4)] u by (rule e(1))
      from w [OF this] have "byte_of (j + (3 - ?k)) w = ram_byte s (a - word_of_nat j)" unfolding u e(3) .
      then show ?thesis unfolding b [OF j] if_P [OF e(2)] .
    qed
    show "byte_of j ?v = byte_of j (lo32 (gpr_read (r_rt inst) s))" if "unat a < 4 * ?q + j"
    proof -
      have "\<not> j + (3 - ?k) < 4" using that a by linarith
      then show ?thesis using b [OF j] by simp
    qed
  qed
qed

section \<open>Unaligned words\<close>

lemma unaligned_cover:
  fixes a b :: nat
  shows "b \<le> a + 3 \<and> b div 4 = (a + 3) div 4 \<Longrightarrow> a \<le> b \<and> b < a + 4"
    and "a \<le> b \<and> b div 4 = a div 4 \<Longrightarrow> b < a + 4"
    and "a \<le> b \<and> b < a + 4 \<Longrightarrow> a + 3 - b = 3 - (b - a)"
    and "a \<le> b \<and> b < a + 4 \<Longrightarrow> b div 4 = (a + 3) div 4 \<or> b div 4 = a div 4"
proof -
  have "4 * ((a + 3) div 4) \<le> a + 3" "a + 3 < 4 * ((a + 3) div 4) + 4" "4 * (a div 4) \<le> a" "a < 4 * (a div 4) + 4"
    "4 * (b div 4) \<le> b" "b < 4 * (b div 4) + 4" by linarith+
  note ranges = this
  show "b \<le> a + 3 \<and> b div 4 = (a + 3) div 4 \<Longrightarrow> a \<le> b \<and> b < a + 4"
    and "a \<le> b \<and> b div 4 = a div 4 \<Longrightarrow> b < a + 4" using ranges by linarith+
  show "a \<le> b \<and> b < a + 4 \<Longrightarrow> a + 3 - b = 3 - (b - a)" by linarith
  show "b div 4 = (a + 3) div 4 \<or> b div 4 = a div 4" if "a \<le> b \<and> b < a + 4"
  proof (cases "b < 4 * ((a + 3) div 4)")
    case True
    moreover have "(a + 3) div 4 \<le> a div 4 + 1" by linarith
    ultimately have "4 * (a div 4) \<le> b" "b < 4 * (a div 4) + 4" using ranges that by linarith+
    then have "b div 4 = a div 4" using word_range by blast
    then show ?thesis ..
  next
    case False
    then have "4 * ((a + 3) div 4) \<le> b" "b < 4 * ((a + 3) div 4) + 4" using ranges that by linarith+
    then have "b div 4 = (a + 3) div 4" using word_range by blast
    then show ?thesis ..
  qed
qed

lemma four: "unat (4 :: u32) = 4"
  by simp

lemma unaligned_store:
  assumes "soft_ok s" and "mem_ok s" and "unat a + 3 < 0x800000"
    and "\<And>acc. translate s acc (lo32 (eff_addr left s)) = Some a"
    and "\<And>acc. translate s acc (lo32 (eff_addr right s)) = Some (a + 3)"
    and "r_rt left = r_rt right"
  shows "\<exists>s1 s2. op_swl left s = Inr s1 \<and> op_swr right s1 = Inr s2 \<and>
      (\<forall>b. n64_byte (rdram (mem s2)) b = (if within a 4 b
         then byte_of (3 - (unat b - unat a)) (lo32 (gpr_read (r_rt right) s)) else n64_byte (rdram (mem s)) b))"
proof -
  have a3: "unat (a + 3) = unat a + 3" using assms(3) by (simp add: unat_word_ariths)
  have le: "a \<le> PHYS_RDRAM_MEM_END" "a + 3 \<le> PHYS_RDRAM_MEM_END"
    using assms(3) a3 by (simp_all add: word_le_nat_alt)
  obtain s1 where s1: "op_swl left s = Inr s1" "goes_on s s1" "cpu s1 = cpu s"
    and b1: "\<And>b. ram_byte s1 b = (if unat a \<le> unat b \<and> unat b div 4 = unat a div 4
      then byte_of (3 - (unat b - unat a)) (lo32 (gpr_read (r_rt left) s)) else ram_byte s b)"
    by (rule swl_bytes [OF assms(1,2) assms(4) le(1)]) blast
  have e: "eff_addr right s1 = eff_addr right s" "gpr_read r s1 = gpr_read r s" for r
    using s1(3) by (simp_all add: eff_addr_def gpr_read_def)
  have "translate s1 STORE (lo32 (eff_addr right s1)) = Some (a + 3)"
    unfolding e goes_on_translate [OF s1(2)] by (rule assms(5))
  then obtain s2 where s2: "op_swr right s1 = Inr s2"
    and b2: "\<And>b. ram_byte s2 b = (if unat b \<le> unat (a + 3) \<and> unat b div 4 = unat (a + 3) div 4
      then byte_of (unat (a + 3) - unat b) (lo32 (gpr_read (r_rt right) s1)) else ram_byte s1 b)"
    using swr_bytes [of s1 right "a + 3"] s1(2) le(2) unfolding goes_on_def by metis
  have "ram_byte s2 b = (if within a 4 b then byte_of (3 - (unat b - unat a)) (lo32 (gpr_read (r_rt right) s)) else ram_byte s b)" for b
    using unaligned_cover [of "unat b" "unat a"]
    unfolding b2 b1 a3 e within_def assms(6) four by (auto simp: add.commute)
  with s1(1) s2 show ?thesis by blast
qed

lemma unaligned_load:
  assumes "soft_ok s" and "mem_ok s" and "unat a + 3 < 0x800000"
    and "\<And>acc. translate s acc (lo32 (eff_addr left s)) = Some a"
    and "\<And>acc. translate s acc (lo32 (eff_addr right s)) = Some (a + 3)"
    and "r_rt left = r_rt right" and "r_rt right \<noteq> 0" and "i_rs right \<noteq> r_rt right"
  shows "\<exists>s1 s2. op_lwl left s = Inr s1 \<and> op_lwr right s1 = Inr s2 \<and>
      gpr_read (r_rt right) s2 = sext32 (word_at (rdram (mem s)) a)"
proof -
  have a3: "unat (a + 3) = unat a + 3" using assms(3) by (simp add: unat_word_ariths)
  have le: "a \<le> PHYS_RDRAM_MEM_END" "a + 3 \<le> PHYS_RDRAM_MEM_END"
    using assms(3) a3 by (simp_all add: word_le_nat_alt)
  obtain v t where v: "op_lwl left s = Inr (gpr_write (r_rt left) (sext32 v) t)" "goes_on s t" "cpu t = cpu s" "mem t = mem s"
    and b1: "\<And>b. unat a \<le> unat b \<Longrightarrow> unat b div 4 = unat a div 4 \<Longrightarrow> byte_of (3 - (unat b - unat a)) v = ram_byte s b"
    by (rule lwl_bytes [OF assms(1,2) assms(4) le(1)]) blast
  let ?s1 = "gpr_write (r_rt right) (sext32 v) t"
  have g: "goes_on s ?s1" using v(2) by (simp add: goes_on_def mem_ok_def soft_ok_cong [of ?s1 t] asid_def)
  have "eff_addr right ?s1 = eff_addr right s" using v(3) assms(8) by (simp add: eff_addr_def gpr_read_def gpr_write_def)
  then have tr: "translate ?s1 LOAD (lo32 (eff_addr right ?s1)) = Some (a + 3)"
    unfolding goes_on_translate [OF g] by (simp add: assms(5))
  have ok: "soft_ok ?s1" "mem_ok ?s1" using g by (simp_all add: goes_on_def)
  obtain w t2 where w: "op_lwr right ?s1 = Inr (gpr_write (r_rt right) (sext32 w) t2)"
    and b2: "\<And>j. j < 4 \<Longrightarrow> 4 * (unat (a + 3) div 4) + j \<le> unat (a + 3) \<Longrightarrow> byte_of j w = ram_byte ?s1 ((a + 3) - word_of_nat j)"
    and b3: "\<And>j. j < 4 \<Longrightarrow> unat (a + 3) < 4 * (unat (a + 3) div 4) + j \<Longrightarrow> byte_of j w = byte_of j (lo32 (gpr_read (r_rt right) ?s1))"
    by (rule lwr_bytes [OF ok tr le(2)]) blast
  have bytes: "byte_of j w = ram_byte s (a + 3 - word_of_nat j)" if j: "j < 4" for j
  proof (cases "4 * (unat (a + 3) div 4) + j \<le> unat (a + 3)")
    case True
    then show ?thesis using b2 [OF j] v(4) by simp
  next
    case False
    let ?b = "a + 3 - word_of_nat j"
    have "word_of_nat j \<le> a + 3" using j by (simp add: word_le_nat_alt a3 unat_of_nat take_bit_nat_eq_self)
    then have u: "unat ?b = unat a + 3 - j" using j a3 by (simp add: unat_sub unat_of_nat take_bit_nat_eq_self)
    have n: "unat a \<le> unat ?b" "unat ?b < unat a + 4" "3 - (unat ?b - unat a) = j" "unat ?b < 4 * ((unat a + 3) div 4)"
      using j False unfolding u a3 by linarith+
    then have "unat ?b div 4 \<noteq> (unat a + 3) div 4" using word_range [of "(unat a + 3) div 4" "unat ?b"] by linarith
    then have "unat ?b div 4 = unat a div 4" using unaligned_cover(4) [of "unat a" "unat ?b"] n(1,2) by blast
    note n = n(1) this n(3)
    then have "byte_of j v = ram_byte s ?b" using b1 [OF n(1,2)] n(3) by simp
    then show ?thesis using b3 [OF j] False assms(7) by simp
  qed
  have "w = word_at (rdram (mem s)) a"
    by (rule word_by_bytes) (use bytes [of 0] bytes [of 1] bytes [of 2] bytes [of 3] in \<open>simp_all add: add.commute [of a]\<close>)
  then show ?thesis using v(1) w assms(6,7) by simp
qed

text \<open>C9: The unaligned instructions work: at any address, whatever its alignment, SWL there and SWR three
  bytes further store the four big-endian bytes of the register at the translated address and change no
  other byte of RDRAM, and LWL and LWR load the sign-extended word that is there, whether the bytes
  lie in one aligned word or in two.\<close>

theorem unaligned_word:
  assumes "soft_ok s" and "mem_ok s" and "unat a + 3 < 0x800000"
    and "\<And>acc. translate s acc (lo32 (eff_addr left s)) = Some a"
    and "\<And>acc. translate s acc (lo32 (eff_addr right s)) = Some (a + 3)"
    and "r_rt left = r_rt right" and "r_rt right \<noteq> 0" and "i_rs right \<noteq> r_rt right"
  shows "(\<exists>s1 s2. op_swl left s = Inr s1 \<and> op_swr right s1 = Inr s2 \<and>
      (\<forall>b. n64_byte (rdram (mem s2)) b = (if within a 4 b
         then byte_of (3 - (unat b - unat a)) (lo32 (gpr_read (r_rt right) s)) else n64_byte (rdram (mem s)) b))) \<and>
    (\<exists>s1 s2. op_lwl left s = Inr s1 \<and> op_lwr right s1 = Inr s2 \<and>
      gpr_read (r_rt right) s2 = sext32 (word_at (rdram (mem s)) a))"
  by (intro conjI unaligned_store unaligned_load assms)

end
