(* ===== verification/Machine_Witnesses.thy ===== *)
theory Machine_Witnesses
  imports Rsp_Witnesses Cpu_Mem_Spec
begin

text \<open>
  The instances of the properties of the bus, of the clock and of the processor's memory accesses at a
  machine that has just been set up.
\<close>

section \<open>Bus and clock\<close>

lemma rsp_machine_ok [simp]:
  "mem_ok rsp_machine" "code_coherent rsp_machine" "hook rsp_machine = Interp_hook" "soft_ok rsp_machine"
  "sched_good rsp_machine" "now rsp_machine = 5" "budget_left (idle rsp_machine) = 0"
  subgoal by (simp add: mem_ok_def rsp_machine_def zero_mem_def bytes_fill_def)
  subgoal by (simp add: code_coherent_def rsp_machine_def machine_def cached_def find_page_def)
  subgoal by (simp add: rsp_machine_def)
  subgoal by (simp add: soft_ok_def soft_sound_def rsp_machine_def zero_tlb_def soft_table_def split: bus_access.split)
  subgoal by (simp add: sched_good_def sched_ok_def rsp_machine_def machine_def q_ok_def now_def ai_regs_ok_def zero_ai_def
      zero_vi_def vi_timing_ok_def CPU_CYCLES_PER_FRAME_NTSC_def)
  subgoal by (simp add: now_def rsp_machine_def machine_def)
  subgoal by (simp add: rsp_machine_def machine_def)
  done

theorem bus_store_coherent_witness:
  "stored 4 read_paddr32 0x100 0x27BDFFE0 rsp_machine (write_paddr32 0x100 0x27BDFFE0 rsp_machine)"
proof -
  have "naturally_aligned 4 0x100" by (simp add: naturally_aligned_def)
  then show ?thesis using bus_store_coherent [of rsp_machine "0x100"] by simp
qed

theorem bus_keeps_imem_witness:
  "holds_ok (\<lambda>t. imem_ok (rsp t)) (write_paddr8 0x04001003 0x27 rsp_machine) \<and>
   holds_ok (\<lambda>t. imem_ok (rsp t)) (write_paddr64 0x04001010 0x2401000100000000 rsp_machine)"
  using bus_keeps_imem [OF rsp_machine_imem, of "0x04001003" "0x27"]
    bus_keeps_imem [OF rsp_machine_imem, of "0x04001010" _ _ _ "0x2401000100000000"] by blast

theorem tick_returns_witness:
  "\<exists>r. tick perform_event 2048 rsp_machine = Some r \<and>
    holds_ok (\<lambda>s'. now s' = 2053 \<and> due s' = {#} \<and> sched_good s') r"
  using tick_returns [of rsp_machine 2048] by simp

theorem idle_warp_invisible_witness:
  "\<exists>r. idle_skip_apply_pending (map_idle (\<lambda>c. c\<lparr>budget_left := 3000, pending_skip := 1, idle_active := True\<rparr>) rsp_machine) = Some r \<and>
    holds_ok (\<lambda>(n, s'). warp_ok (map_idle (\<lambda>c. c\<lparr>budget_left := 3000, pending_skip := 1, idle_active := True\<rparr>) rsp_machine) n s') r"
  by (rule idle_warp_invisible) simp_all

section \<open>An unaligned word\<close>

definition pointing :: dpc_state where
  "pointing = map_cpu (\<lambda>c. c\<lparr>gpr := (gpr c)(4 := 0xFFFFFFFF80001001, 5 := 0x11223344)\<rparr>) rsp_machine"

lemma pointing_ok: "soft_ok pointing" "mem_ok pointing"
proof -
  have e: "tlb pointing = tlb rsp_machine" "cop0 pointing = cop0 rsp_machine" "mem pointing = mem rsp_machine"
    by (simp_all add: pointing_def)
  show "soft_ok pointing" using soft_ok_cong [of pointing rsp_machine] e by (simp add: asid_def)
  show "mem_ok pointing" using rsp_machine_ok(1) unfolding mem_ok_def e .
qed

lemma pointing_addr: "translate s acc (lo32 (eff_addr 0x00850000 pointing)) = Some 0x1001"
    "translate s acc (lo32 (eff_addr 0x00850003 pointing)) = Some 0x1004"
  by (simp_all add: eff_addr_def pointing_def inst_fields bf_get_def gpr_read_def sext16_def lo32_def translate_def
      try_direct_map_def Let_def)

theorem unaligned_word_witness:
  "(\<exists>s1 s2. op_swl 0x00850000 pointing = Inr s1 \<and> op_swr 0x00850003 s1 = Inr s2 \<and>
      n64_byte (rdram (mem s2)) 0x1001 = 0x11 \<and> n64_byte (rdram (mem s2)) 0x1004 = 0x44) \<and>
   (\<exists>s1 s2. op_lwl 0x00850000 pointing = Inr s1 \<and> op_lwr 0x00850003 s1 = Inr s2 \<and> gpr_read 5 s2 = 0)"
proof -
  have f: "r_rt 0x00850000 = 5" "r_rt 0x00850003 = 5" "i_rs 0x00850003 = 4"
    by (simp_all add: inst_fields bf_get_def)
  have g: "lo32 (gpr_read 5 pointing) = 0x11223344" by (simp add: pointing_def gpr_read_def lo32_def)
  have w: "word_at (rdram (mem pointing)) 0x1001 = 0"
    by (simp add: word_at_def pointing_def n64_byte_def byte_address_def bytes_fill_def be_word_def le32_def)
  have b: "(if within 0x1001 4 b then byte_of (3 - (unat b - unat (0x1001 :: u32))) (0x11223344 :: u32)
      else n64_byte m b) = (if b = 0x1001 then 0x11 else 0x44)" if "b \<in> {0x1001, 0x1004}" for m and b :: u32
    using that by (auto simp: within_def byte_of_def)
  have p: "unat (0x1001 :: u32) + 3 < 0x800000" "(5 :: u32) \<noteq> 0" "(4 :: u32) \<noteq> 5"
    "\<And>acc. translate pointing acc (lo32 (eff_addr 0x00850003 pointing)) = Some (0x1001 + 3)"
    by (simp_all add: pointing_addr)
  note u = unaligned_word [OF pointing_ok p(1) pointing_addr(1) p(4), unfolded f g w, OF refl p(2,3)]
  from u obtain s1 s2 where s: "op_swl 0x00850000 pointing = Inr s1" "op_swr 0x00850003 s1 = Inr s2"
    "\<And>b. n64_byte (rdram (mem s2)) b = (if within 0x1001 4 b
       then byte_of (3 - (unat b - unat (0x1001 :: u32))) (0x11223344 :: u32) else n64_byte (rdram (mem pointing)) b)"
    by blast
  have "n64_byte (rdram (mem s2)) 0x1001 = 0x11" "n64_byte (rdram (mem s2)) 0x1004 = 0x44"
    unfolding s(3) by (simp_all add: b)
  then show ?thesis using s(1,2) u by (simp add: sext32_def)
qed

end
