(* ===== verification/Boot.thy ===== *)
theory Boot
  imports Bus
begin

text \<open>
  What the boot code in the PIF ROM leaves behind (\<open>rom_hle\<close> and \<open>execute_rom_hle\<close> of
  \<open>src/mmio/pif.cpp\<close>): the general registers that each security chip implies, the seed in PIF RAM, and
  the first 4 KiB of the cartridge in DMEM.
\<close>

section \<open>Registers for each security chip\<close>

definition gprs_6101 :: "(u32 \<times> u64) list" where
  "gprs_6101 =
     [(0, 0x0), (1, 0x0), (2, 0xFFFFFFFFDF6445CC), (3, 0xFFFFFFFFDF6445CC), (4, 0x45CC), (5, 0x73EE317A),
      (6, 0xFFFFFFFFA4001F0C), (7, 0xFFFFFFFFA4001F08), (8, 0xC0), (9, 0x0), (10, 0x40),
      (11, 0xFFFFFFFFA4000040), (12, 0xFFFFFFFFC7601FAC), (13, 0xFFFFFFFFC7601FAC), (14, 0xFFFFFFFFB48E2ED6),
      (15, 0xFFFFFFFFBA1A7D4B), (16, 0x0), (17, 0x0), (18, 0x0), (19, 0x0), (20, 0x1), (21, 0x0), (23, 0x1),
      (24, 0x2), (25, 0xFFFFFFFF905F4718), (26, 0x0), (27, 0x0), (28, 0x0), (29, 0xFFFFFFFFA4001FF0),
      (30, 0x0), (31, 0xFFFFFFFFA4001550)]"

definition gprs_7102 :: "(u32 \<times> u64) list" where
  "gprs_7102 =
     [(0, 0x0), (1, 0x1), (2, 0x1E324416), (3, 0x1E324416), (4, 0x4416), (5, 0xEC5D9AF),
      (6, 0xFFFFFFFFA4001F0C), (7, 0xFFFFFFFFA4001F08), (8, 0xC0), (9, 0x0), (10, 0x40),
      (11, 0xFFFFFFFFA4000040), (12, 0x495D3D7B), (13, 0xFFFFFFFF8B3DFA1E), (14, 0x4798E4D4),
      (15, 0xFFFFFFFFF1D30682), (16, 0x0), (17, 0x0), (18, 0x0), (19, 0x0), (20, 0x0), (21, 0x0), (22, 0x3F),
      (23, 0x7), (24, 0x0), (25, 0x13D05CAB), (26, 0x0), (27, 0x0), (28, 0x0), (29, 0xFFFFFFFFA4001FF0),
      (30, 0x0), (31, 0xFFFFFFFFA4001554)]"

definition gprs_6102_7101 :: "(u32 \<times> u64) list" where
  "gprs_6102_7101 =
     [(0, 0x0), (1, 0x1), (2, 0xEBDA536), (3, 0xEBDA536), (4, 0xA536), (5, 0xFFFFFFFFC0F1D859),
      (6, 0xFFFFFFFFA4001F0C), (7, 0xFFFFFFFFA4001F08), (8, 0xC0), (9, 0x0), (10, 0x40),
      (11, 0xFFFFFFFFA4000040), (12, 0xFFFFFFFFED10D0B3), (13, 0x1402A4CC), (14, 0x2DE108EA),
      (15, 0x3103E121), (16, 0x0), (17, 0x0), (18, 0x0), (19, 0x0), (20, 0x1), (21, 0x0), (23, 0x0),
      (24, 0x0), (25, 0xFFFFFFFF9DEBB54F), (26, 0x0), (27, 0x0), (28, 0x0), (29, 0xFFFFFFFFA4001FF0),
      (30, 0x0), (31, 0xFFFFFFFFA4001550)]"

definition gprs_6103_7103 :: "(u32 \<times> u64) list" where
  "gprs_6103_7103 =
     [(0, 0x0), (1, 0x1), (2, 0x49A5EE96), (3, 0x49A5EE96), (4, 0xEE96), (5, 0xFFFFFFFFD4646273),
      (6, 0xFFFFFFFFA4001F0C), (7, 0xFFFFFFFFA4001F08), (8, 0xC0), (9, 0x0), (10, 0x40),
      (11, 0xFFFFFFFFA4000040), (12, 0xFFFFFFFFCE9DFBF7), (13, 0xFFFFFFFFCE9DFBF7), (14, 0x1AF99984),
      (15, 0x18B63D28), (16, 0x0), (17, 0x0), (18, 0x0), (19, 0x0), (20, 0x1), (21, 0x0), (23, 0x0),
      (24, 0x0), (25, 0xFFFFFFFF825B21C9), (26, 0x0), (27, 0x0), (28, 0x0), (29, 0xFFFFFFFFA4001FF0),
      (30, 0x0), (31, 0xFFFFFFFFA4001550)]"

definition gprs_6105_7105 :: "(u32 \<times> u64) list" where
  "gprs_6105_7105 =
     [(0, 0x0), (1, 0x0), (2, 0xFFFFFFFFF58B0FBF), (3, 0xFFFFFFFFF58B0FBF), (4, 0xFBF),
      (5, 0xFFFFFFFFDECAAAD1), (6, 0xFFFFFFFFA4001F0C), (7, 0xFFFFFFFFA4001F08), (8, 0xC0), (9, 0x0),
      (10, 0x40), (11, 0xFFFFFFFFA4000040), (12, 0xFFFFFFFF9651F81E), (13, 0x2D42AAC5), (14, 0x489B52CF),
      (15, 0x56584D60), (16, 0x0), (17, 0x0), (18, 0x0), (19, 0x0), (20, 0x1), (21, 0x0), (23, 0x0),
      (24, 0x2), (25, 0xFFFFFFFFCDCE565F), (26, 0x0), (27, 0x0), (28, 0x0), (29, 0xFFFFFFFFA4001FF0),
      (30, 0x0), (31, 0xFFFFFFFFA4001550)]"

definition gprs_6106_7106 :: "(u32 \<times> u64) list" where
  "gprs_6106_7106 =
     [(0, 0x0), (1, 0x0), (2, 0xFFFFFFFFA95930A4), (3, 0xFFFFFFFFA95930A4), (4, 0x30A4),
      (5, 0xFFFFFFFFB04DC903), (6, 0xFFFFFFFFA4001F0C), (7, 0xFFFFFFFFA4001F08), (8, 0xC0), (9, 0x0),
      (10, 0x40), (11, 0xFFFFFFFFA4000040), (12, 0xFFFFFFFFBCB59510), (13, 0xFFFFFFFFBCB59510),
      (14, 0xCF85C13), (15, 0x7A3C07F4), (16, 0x0), (17, 0x0), (18, 0x0), (19, 0x0), (20, 0x1), (21, 0x0),
      (23, 0x0), (24, 0x2), (25, 0x465E3F72), (26, 0x0), (27, 0x0), (28, 0x0), (29, 0xFFFFFFFFA4001FF0),
      (30, 0x0), (31, 0xFFFFFFFFA4001550)]"

fun boot_gprs :: "cic_type \<Rightarrow> (u32 \<times> u64) list" where
  "boot_gprs CIC_NUS_6101 = gprs_6101"
| "boot_gprs CIC_NUS_7102 = gprs_7102"
| "boot_gprs CIC_NUS_6102_7101 = gprs_6102_7101"
| "boot_gprs CIC_NUS_6103_7103 = gprs_6103_7103"
| "boot_gprs CIC_NUS_6105_7105 = gprs_6105_7105"
| "boot_gprs CIC_NUS_6106_7106 = gprs_6106_7106"
| "boot_gprs CIC_UNKNOWN = []"

text \<open>LO and HI.\<close>

fun boot_lo_hi :: "cic_type \<Rightarrow> u64 \<times> u64" where
  "boot_lo_hi CIC_NUS_6101 = (0xFFFFFFFFBA1A7D4B, 0xFFFFFFFF997EC317)"
| "boot_lo_hi CIC_NUS_7102 = (0xFFFFFFFFF1D30682, 0x10054A98)"
| "boot_lo_hi CIC_NUS_6102_7101 = (0x3103E121, 0x3FC18657)"
| "boot_lo_hi CIC_NUS_6103_7103 = (0x18B63D28, 0x625C2BBE)"
| "boot_lo_hi CIC_NUS_6105_7105 = (0x56584D60, 0x4BE35D1F)"
| "boot_lo_hi CIC_NUS_6106_7106 = (0x7A3C07F4, 0x23953898)"
| "boot_lo_hi CIC_UNKNOWN = (0, 0)"

text \<open>The changes for PAL.\<close>

definition boot_gprs_pal :: "cic_type \<Rightarrow> (u32 \<times> u64) list" where
  "boot_gprs_pal c =
     (if c \<in> {CIC_NUS_6102_7101, CIC_NUS_6103_7103, CIC_NUS_6105_7105, CIC_NUS_6106_7106}
      then [(20, 0x0), (23, 0x6), (31, 0xFFFFFFFFA4001554)] else [])"

text \<open>Words that the chip 6105 leaves in IMEM.\<close>

definition boot_imem :: "cic_type \<Rightarrow> (u32 \<times> u32) list" where
  "boot_imem c =
     (if c = CIC_NUS_6105_7105
      then [(0x00, 0x3C0DBFC0), (0x04, 0x8DA807FC), (0x08, 0x25AD07C0), (0x0C, 0x31080080), (0x10, 0x5500FFFC),
            (0x14, 0x3C0DBFC0), (0x18, 0x8DA80024), (0x1C, 0x3C0BB000)]
      else [])"

section \<open>The boot code\<close>

definition write_gprs :: "(u32 \<times> u64) list \<Rightarrow> 'a cpu_state_scheme \<Rightarrow> 'a cpu_state_scheme" where
  "write_gprs vs s = fold (\<lambda>(r, v). gpr_write r v) vs s"

fun write_words :: "(u32 \<times> u32) list \<Rightarrow> 'a dpc_state_scheme \<Rightarrow> 'a dpc_state_scheme res" where
  "write_words [] s = ok s"
| "write_words ((a, w) # ws) s = bindR (write_paddr32 a w s) (write_words ws)"

definition boot_cop0 :: "'a cpu_state_scheme \<Rightarrow> 'a cpu_state_scheme" where
  "boot_cop0 = map_cop0 (\<lambda>c. c\<lparr>c0_random := 0x1F, c0_status := 0x34000000, c0_prid := 0xB00, c0_config := 0x6E463\<rparr>)"

text \<open>The first 4 KiB of the image, byte by byte, to DMEM.\<close>

definition copy_boot_code :: "'a dpc_state_scheme \<Rightarrow> 'a dpc_state_scheme res" where
  "copy_boot_code s =
     bindR (for_loop 0x1000 (\<lambda>i m.
         bindR (read_from_byte_array8 (rom_data (rom (mem s))) (word_of_nat i)) (\<lambda>b. put_plain (word_of_nat i) b m))
       (sp_dmem (rsp s)))
     (\<lambda>m. ok (map_rsp (\<lambda>r. r\<lparr>sp_dmem := m\<rparr>) s))"

definition rom_hle :: "'a dpc_state_scheme \<Rightarrow> 'a dpc_state_scheme res" where
  "rom_hle s =
     (let pal = False; seed = get_cic_seed (rom (mem s))
      in bindR (write_paddr32 (PHYS_PIF_RAM_BASE + 0x24) seed s) (\<lambda>s1.
         let c = rom_cic (rom (mem s1))
         in if c = CIC_UNKNOWN then Inl Aborted
            else let s2 = set_lo_hi (fst (boot_lo_hi c)) (snd (boot_lo_hi c)) (write_gprs (boot_gprs c) s1);
                     s3 = (if pal then write_gprs (boot_gprs_pal c) s2 else s2)
            in bindR (write_words (map (\<lambda>(a, w). (PHYS_SPIMEM_BASE + a, w)) (boot_imem c)) s3) (\<lambda>s4.
               let s5 = gpr_write 22 (ucast (drop_bit 8 seed AND 0xFF)) s4;
                   s6 = boot_cop0 (set_pc64 0xA4000040 s5)
               in bindR (write_paddr32 0x04300004 0x01010101 s6) copy_boot_code)))"

text \<open>Two boot codes leave the size of RDRAM at an address of their own.\<close>

definition execute_rom_hle :: "'a dpc_state_scheme \<Rightarrow> 'a dpc_state_scheme res" where
  "execute_rom_hle s =
     bindR (case rom_cic (rom (mem s)) of
              CIC_UNKNOWN \<Rightarrow> Inl Aborted
            | CIC_NUS_6105_7105 \<Rightarrow> write_paddr32 0x3F0 RDRAM_SIZE s
            | CIC_NUS_6106_7106 \<Rightarrow> ok s
            | _ \<Rightarrow> write_paddr32 0x318 RDRAM_SIZE s) rom_hle"

end
