(* ===== verification/Host_Float.thy ===== *)
theory Host_Float
  imports Prelude
begin

text \<open>
  The arithmetic of \<open>float\<close> and \<open>double\<close> that the floating-point instructions rely on: IEEE 754
  binary32 and binary64 with rounding to nearest, ties to even (the program never changes the
  rounding mode of the host), on the bit patterns of the values.

  A finite value is a sign, a mantissa and the exponent of its last bit. Sums and products are exact
  before they are rounded; a quotient or a square root is cut off two or more bits below the last
  place, with its lowest bit set when something was cut off. Which bits a NaN result has is the
  choice of the host: an argument.
\<close>

section \<open>Formats\<close>

text \<open>The number of bits of the fraction and of the exponent.\<close>

record float_format =
  frac_bits :: nat
  exp_bits :: nat

definition binary32 :: float_format where
  "binary32 = \<lparr>frac_bits = 23, exp_bits = 8\<rparr>"

definition binary64 :: float_format where
  "binary64 = \<lparr>frac_bits = 52, exp_bits = 11\<rparr>"

definition exp_max :: "float_format \<Rightarrow> nat" where
  "exp_max F = 2 ^ exp_bits F - 1"

text \<open>The exponent of the last bit of the smallest values.\<close>

definition exp_least :: "float_format \<Rightarrow> int" where
  "exp_least F = 2 - 2 ^ (exp_bits F - 1) - int (frac_bits F)"

text \<open>\<open>Finite s n e\<close> is \<open>n * 2 ^ e\<close>, negated if \<open>s\<close>.\<close>

datatype float_value =
    Nan | Infinite bool | Finite bool nat int

definition float_decode :: "float_format \<Rightarrow> nat \<Rightarrow> float_value" where
  "float_decode F x =
     (let m = frac_bits F; s = odd (x div 2 ^ (m + exp_bits F));
          e = x div 2 ^ m mod 2 ^ exp_bits F; f = x mod 2 ^ m
      in if e = exp_max F then (if f = 0 then Infinite s else Nan)
         else if e = 0 then Finite s f (exp_least F)
         else Finite s (2 ^ m + f) (exp_least F + int e - 1))"

section \<open>Rounding\<close>

fun bit_length :: "nat \<Rightarrow> nat" where
  "bit_length n = (if n = 0 then 0 else Suc (bit_length (n div 2)))"

declare bit_length.simps [simp del]

text \<open>\<open>n / 2 ^ k\<close>, to nearest, ties to even.\<close>

definition round_even :: "nat \<Rightarrow> nat \<Rightarrow> nat" where
  "round_even n k =
     (let q = n div 2 ^ k; r = n mod 2 ^ k
      in if 2 * r > 2 ^ k \<or> (2 * r = 2 ^ k \<and> odd q) then q + 1 else q)"

definition sign_bits :: "float_format \<Rightarrow> bool \<Rightarrow> nat" where
  "sign_bits F s = (if s then 2 ^ (frac_bits F + exp_bits F) else 0)"

definition infinite_bits :: "float_format \<Rightarrow> nat" where
  "infinite_bits F = exp_max F * 2 ^ frac_bits F"

text \<open>The exponent of the last place of a result near \<open>n * 2 ^ e\<close>.\<close>

definition last_place :: "float_format \<Rightarrow> nat \<Rightarrow> int \<Rightarrow> int" where
  "last_place F n e = max (exp_least F) (e + int (bit_length n) - int (frac_bits F) - 1)"

text \<open>The mantissa is added to the exponent field, so a carry out of it moves to the next exponent.\<close>

definition round_float :: "float_format \<Rightarrow> bool \<Rightarrow> nat \<Rightarrow> int \<Rightarrow> nat" where
  "round_float F s n e =
     (if n = 0 then sign_bits F s
      else let l = last_place F n e;
               m = (if l \<le> e then n * 2 ^ nat (e - l) else round_even n (nat (l - e)))
           in sign_bits F s + min (infinite_bits F) (nat (l - exp_least F) * 2 ^ frac_bits F + m))"

section \<open>Arithmetic\<close>

definition sval :: "bool \<Rightarrow> nat \<Rightarrow> int" where
  "sval s n = (if s then - int n else int n)"

text \<open>Both values in units of the smaller exponent.\<close>

definition common :: "bool \<Rightarrow> nat \<Rightarrow> int \<Rightarrow> int \<Rightarrow> int" where
  "common s n e l = sval s n * 2 ^ nat (e - l)"

text \<open>An exact sum of zero is positive unless both operands are negative.\<close>

fun float_add :: "float_format \<Rightarrow> nat \<Rightarrow> float_value \<Rightarrow> float_value \<Rightarrow> nat" where
  "float_add F nan (Finite s n e) (Finite s' n' e') =
     (let l = min e e'; x = common s n e l + common s' n' e' l
      in round_float F (if x = 0 then s \<and> s' else x < 0) (nat \<bar>x\<bar>) l)"
| "float_add F nan (Infinite s) (Infinite s') = (if s = s' then sign_bits F s + infinite_bits F else nan)"
| "float_add F nan (Infinite s) (Finite s' n' e') = sign_bits F s + infinite_bits F"
| "float_add F nan (Finite s n e) (Infinite s') = sign_bits F s' + infinite_bits F"
| "float_add F nan Nan _ = nan"
| "float_add F nan _ Nan = nan"

fun float_neg :: "float_value \<Rightarrow> float_value" where
  "float_neg (Finite s n e) = Finite (\<not> s) n e"
| "float_neg (Infinite s) = Infinite (\<not> s)"
| "float_neg Nan = Nan"

definition float_sub :: "float_format \<Rightarrow> nat \<Rightarrow> float_value \<Rightarrow> float_value \<Rightarrow> nat" where
  "float_sub F nan x y = float_add F nan x (float_neg y)"

fun float_mul :: "float_format \<Rightarrow> nat \<Rightarrow> float_value \<Rightarrow> float_value \<Rightarrow> nat" where
  "float_mul F nan (Finite s n e) (Finite s' n' e') = round_float F (s \<noteq> s') (n * n') (e + e')"
| "float_mul F nan (Infinite s) (Infinite s') = sign_bits F (s \<noteq> s') + infinite_bits F"
| "float_mul F nan (Infinite s) (Finite s' n' e') =
     (if n' = 0 then nan else sign_bits F (s \<noteq> s') + infinite_bits F)"
| "float_mul F nan (Finite s n e) (Infinite s') =
     (if n = 0 then nan else sign_bits F (s \<noteq> s') + infinite_bits F)"
| "float_mul F nan Nan _ = nan"
| "float_mul F nan _ Nan = nan"

text \<open>\<open>sticky x exact\<close> appends a bit to a number that was cut off: set unless the number is exact.\<close>

definition sticky :: "nat \<Rightarrow> bool \<Rightarrow> nat" where
  "sticky x exact = 2 * x + (if exact then 0 else 1)"

text \<open>The quotient has at least \<open>frac_bits F + 2\<close> bits.\<close>

fun float_div :: "float_format \<Rightarrow> nat \<Rightarrow> float_value \<Rightarrow> float_value \<Rightarrow> nat" where
  "float_div F nan (Finite s n e) (Finite s' n' e') =
     (if n' = 0 then (if n = 0 then nan else sign_bits F (s \<noteq> s') + infinite_bits F)
      else let k = bit_length n' + frac_bits F + 2; x = n * 2 ^ k
           in round_float F (s \<noteq> s') (sticky (x div n') (x mod n' = 0)) (e - e' - int k - 1))"
| "float_div F nan (Infinite s) (Infinite s') = nan"
| "float_div F nan (Infinite s) (Finite s' n' e') = sign_bits F (s \<noteq> s') + infinite_bits F"
| "float_div F nan (Finite s n e) (Infinite s') = sign_bits F (s \<noteq> s')"
| "float_div F nan Nan _ = nan"
| "float_div F nan _ Nan = nan"

text \<open>The integer square root, a bit at a time: \<open>root_up k x r\<close> adds the bits below \<open>2 ^ k\<close> to \<open>r\<close>.\<close>

primrec root_bits :: "nat \<Rightarrow> nat \<Rightarrow> nat \<Rightarrow> nat" where
  "root_bits 0 x r = r"
| "root_bits (Suc k) x r = root_bits k x (if (r + 2 ^ k) ^ 2 \<le> x then r + 2 ^ k else r)"

definition nat_sqrt :: "nat \<Rightarrow> nat" where
  "nat_sqrt x = root_bits (Suc (bit_length x)) x 0"

fun float_sqrt :: "float_format \<Rightarrow> nat \<Rightarrow> float_value \<Rightarrow> nat" where
  "float_sqrt F nan (Finite s n e) =
     (if n = 0 then sign_bits F s
      else if s then nan
      else let k = 2 * (frac_bits F + 2) + (if even e then 0 else 1); x = n * 2 ^ k; r = nat_sqrt x
           in round_float F False (sticky r (r ^ 2 = x)) ((e - int k) div 2 - 1))"
| "float_sqrt F nan (Infinite s) = (if s then nan else infinite_bits F)"
| "float_sqrt F nan Nan = nan"

section \<open>Comparison and conversion\<close>

fun float_less :: "float_value \<Rightarrow> float_value \<Rightarrow> bool" where
  "float_less (Finite s n e) (Finite s' n' e') = (let l = min e e' in common s n e l < common s' n' e' l)"
| "float_less (Infinite s) (Infinite s') = (s \<and> \<not> s')"
| "float_less (Infinite s) (Finite _ _ _) = s"
| "float_less (Finite _ _ _) (Infinite s') = (\<not> s')"
| "float_less Nan _ = False"
| "float_less _ Nan = False"

fun float_eq :: "float_value \<Rightarrow> float_value \<Rightarrow> bool" where
  "float_eq (Finite s n e) (Finite s' n' e') = (let l = min e e' in common s n e l = common s' n' e' l)"
| "float_eq (Infinite s) (Infinite s') = (s = s')"
| "float_eq _ _ = False"

text \<open>Another format.\<close>

fun float_convert :: "float_format \<Rightarrow> nat \<Rightarrow> float_value \<Rightarrow> nat" where
  "float_convert F nan (Finite s n e) = round_float F s n e"
| "float_convert F nan (Infinite s) = sign_bits F s + infinite_bits F"
| "float_convert F nan Nan = nan"

definition float_of_int :: "float_format \<Rightarrow> int \<Rightarrow> nat" where
  "float_of_int F x = round_float F (x < 0) (nat \<bar>x\<bar>) 0"

text \<open>\<open>std::trunc\<close>, \<open>ceil\<close>, \<open>floor\<close> and \<open>nearbyint\<close> of a finite value: an integer.\<close>

datatype rounding = To_nearest | To_zero | To_plus | To_minus

fun round_int :: "rounding \<Rightarrow> bool \<Rightarrow> nat \<Rightarrow> int \<Rightarrow> int" where
  "round_int rm s n e =
     (if 0 \<le> e then sval s (n * 2 ^ nat e)
      else let k = nat (- e); q = n div 2 ^ k; exact = (n mod 2 ^ k = 0)
           in sval s (case rm of
                To_nearest \<Rightarrow> round_even n k
              | To_zero \<Rightarrow> q
              | To_plus \<Rightarrow> (if exact \<or> s then q else q + 1)
              | To_minus \<Rightarrow> (if exact \<or> \<not> s then q else q + 1)))"

text \<open>The conversion to \<open>int32_t\<close> of a value out of its range is undefined.\<close>

fun int32_of_float :: "rounding \<Rightarrow> float_value \<Rightarrow> u32 res" where
  "int32_of_float rm (Finite s n e) =
     (let i = round_int rm s n e
      in if - (2 ^ 31) \<le> i \<and> i < 2 ^ 31 then ok (word_of_int i) else Inl UndefinedConversion)"
| "int32_of_float rm _ = Inl UndefinedConversion"

end
