(* ===== verification/Cpu_Fpu.thy ===== *)
theory Cpu_Fpu
  imports Cpu_Mem Host_Float
begin

text \<open>
  The instructions of the floating-point coprocessor (\<open>src/cpu/fpu_instruction_impl.cpp\<close>). Values are
  kept as their bits, which is what \<open>bits_to_float\<close> and its relatives copy; the arithmetic is the one
  of \<open>Host_Float\<close>. The bits of a NaN result are the argument \<open>hn\<close>.
\<close>

section \<open>The host's arithmetic on bit patterns\<close>

record host_nans =
  nan_s :: "u32 \<Rightarrow> u32 \<Rightarrow> u32"
  nan_d :: "u64 \<Rightarrow> u64 \<Rightarrow> u64"
  nan_widened :: "u32 \<Rightarrow> u64"
  nan_narrowed :: "u64 \<Rightarrow> u32"

definition val_s :: "u32 \<Rightarrow> float_value" where
  "val_s a = float_decode binary32 (unat a)"

definition val_d :: "u64 \<Rightarrow> float_value" where
  "val_d a = float_decode binary64 (unat a)"

text \<open>An operation of two operands; one of a single operand gets it twice.\<close>

definition float2 ::
  "host_nans \<Rightarrow> (float_format \<Rightarrow> nat \<Rightarrow> float_value \<Rightarrow> float_value \<Rightarrow> nat) \<Rightarrow> u32 \<Rightarrow> u32 \<Rightarrow> u32" where
  "float2 hn f a b = word_of_nat (f binary32 (unat (nan_s hn a b)) (val_s a) (val_s b))"

definition double2 ::
  "host_nans \<Rightarrow> (float_format \<Rightarrow> nat \<Rightarrow> float_value \<Rightarrow> float_value \<Rightarrow> nat) \<Rightarrow> u64 \<Rightarrow> u64 \<Rightarrow> u64" where
  "double2 hn f a b = word_of_nat (f binary64 (unat (nan_d hn a b)) (val_d a) (val_d b))"

definition widen :: "host_nans \<Rightarrow> u32 \<Rightarrow> u64" where
  "widen hn a = word_of_nat (float_convert binary64 (unat (nan_widened hn a)) (val_s a))"

definition narrow :: "host_nans \<Rightarrow> u64 \<Rightarrow> u32" where
  "narrow hn a = word_of_nat (float_convert binary32 (unat (nan_narrowed hn a)) (val_d a))"

section \<open>Registers\<close>

definition map_cop1 :: "(cop1_regs \<Rightarrow> cop1_regs) \<Rightarrow> 'a cpu_state_scheme \<Rightarrow> 'a cpu_state_scheme" where
  "map_cop1 f s = s\<lparr>cop1 := f (cop1 s)\<rparr>"

definition status_fr :: "'a irq_state_scheme \<Rightarrow> bool" where
  "status_fr s = bit (c0_status (cop0 s)) ST_FR"

definition get_float_s :: "u32 \<Rightarrow> 'a cpu_state_scheme \<Rightarrow> u32" where
  "get_float_s reg s = get_fgr_word_arith reg (status_fr s) (cop1 s)"

definition set_float_s :: "u32 \<Rightarrow> u32 \<Rightarrow> 'a cpu_state_scheme \<Rightarrow> 'a cpu_state_scheme" where
  "set_float_s reg v s = map_cop1 (set_fgr_word_arith reg v (status_fr s)) s"

definition get_float_d :: "u32 \<Rightarrow> 'a cpu_state_scheme \<Rightarrow> u64" where
  "get_float_d reg s = get_fgr_dword reg (status_fr s) (cop1 s)"

definition set_float_d :: "u32 \<Rightarrow> u64 \<Rightarrow> 'a cpu_state_scheme \<Rightarrow> 'a cpu_state_scheme" where
  "set_float_d reg v s = map_cop1 (set_fgr_dword reg v (status_fr s)) s"

definition fr_fd :: "u32 \<Rightarrow> u32" where
  "fr_fd inst = bf_get 6 5 inst"

definition fr_fs :: "u32 \<Rightarrow> u32" where
  "fr_fs inst = bf_get 11 5 inst"

definition fr_ft :: "u32 \<Rightarrow> u32" where
  "fr_ft inst = bf_get 16 5 inst"

definition fr_fmt :: "u32 \<Rightarrow> u32" where
  "fr_fmt inst = bf_get 21 5 inst"

section \<open>Moves, loads and stores\<close>

definition test_cop1_usable_exception :: "'a cpu_state_scheme \<Rightarrow> (bool \<times> 'a cpu_state_scheme) res" where
  "test_cop1_usable_exception s =
     (if \<not> bit (c0_status (cop0 s)) ST_CU1
      then bindR (handle_exception COPROCESSOR_UNUSABLE 1 True s) (\<lambda>s1. ok (True, s1))
      else ok (False, s))"

text \<open>Every handler begins with the test and returns if it has raised the exception.\<close>

definition if_usable ::
  "('a cpu_state_scheme \<Rightarrow> 'a cpu_state_scheme res) \<Rightarrow> 'a cpu_state_scheme \<Rightarrow> 'a cpu_state_scheme res" where
  "if_usable k s = bindR (test_cop1_usable_exception s) (\<lambda>(raised, s1). if raised then ok s1 else k s1)"

definition op_cfc1 :: "u32 \<Rightarrow> 'a cpu_state_scheme \<Rightarrow> 'a cpu_state_scheme res" where
  "op_cfc1 inst = if_usable (\<lambda>s.
     let fs = r_rd inst
     in if fs = 0 then ok (gpr_write (r_rt inst) (sext32 (fcr0 (cop1 s))) s)
        else if fs = 31 then ok (gpr_write (r_rt inst) (sext32 (fcr31 (cop1 s))) s)
        else Inl Aborted)"

definition op_ctc1 :: "u32 \<Rightarrow> 'a cpu_state_scheme \<Rightarrow> 'a cpu_state_scheme res" where
  "op_ctc1 inst = if_usable (\<lambda>s.
     let fs = r_rd inst; value = lo32 (gpr_read (r_rt inst) s)
     in if fs = 0 then Inl Aborted
        else if fs = 31 then ok (map_cop1 (\<lambda>c. c\<lparr>fcr31 := value AND 0x183FFFF\<rparr>) s)
        else Inl Aborted)"

definition op_mfc1 :: "u32 \<Rightarrow> 'a cpu_state_scheme \<Rightarrow> 'a cpu_state_scheme res" where
  "op_mfc1 inst = if_usable (\<lambda>s.
     ok (gpr_write (r_rt inst) (sext32 (get_fgr_word (r_rd inst) (status_fr s) (cop1 s))) s))"

definition op_mtc1 :: "u32 \<Rightarrow> 'a cpu_state_scheme \<Rightarrow> 'a cpu_state_scheme res" where
  "op_mtc1 inst = if_usable (\<lambda>s.
     ok (map_cop1 (set_fgr_word (r_rd inst) (lo32 (gpr_read (r_rt inst) s)) (status_fr s)) s))"

definition op_dmfc1 :: "u32 \<Rightarrow> 'a cpu_state_scheme \<Rightarrow> 'a cpu_state_scheme res" where
  "op_dmfc1 inst = if_usable (\<lambda>s.
     ok (gpr_write (r_rt inst) (get_fgr_dword (r_rd inst) (status_fr s) (cop1 s)) s))"

definition op_dmtc1 :: "u32 \<Rightarrow> 'a cpu_state_scheme \<Rightarrow> 'a cpu_state_scheme res" where
  "op_dmtc1 inst = if_usable (\<lambda>s.
     ok (map_cop1 (set_fgr_dword (r_rd inst) (gpr_read (r_rt inst) s) (status_fr s)) s))"

abbreviation (input) fi_addr :: "u32 \<Rightarrow> 'a cpu_state_scheme \<Rightarrow> u64" where
  "fi_addr inst s \<equiv> gpr_read (fi_base inst) s + sext16 (fi_offset inst)"

definition op_lwc1 :: "u32 \<Rightarrow> 'a dpc_state_scheme \<Rightarrow> 'a dpc_state_scheme res" where
  "op_lwc1 inst = if_usable (\<lambda>s.
     with_paddr (fi_addr inst s) 4 LOAD (\<lambda>paddr s1.
       bindR (read_paddr32 paddr s1) (\<lambda>(w, s2).
         ok (map_cop1 (set_fgr_word (fr_ft inst) w (status_fr s2)) s2))) s)"

definition op_ldc1 :: "u32 \<Rightarrow> 'a dpc_state_scheme \<Rightarrow> 'a dpc_state_scheme res" where
  "op_ldc1 inst = if_usable (\<lambda>s.
     with_paddr (fi_addr inst s) 8 LOAD (\<lambda>paddr s1.
       bindR (read_paddr64 paddr s1) (\<lambda>(d, s2).
         ok (map_cop1 (set_fgr_dword (fr_ft inst) d (status_fr s2)) s2))) s)"

definition op_swc1 :: "u32 \<Rightarrow> 'a dpc_state_scheme \<Rightarrow> 'a dpc_state_scheme res" where
  "op_swc1 inst = if_usable (\<lambda>s.
     with_paddr (fi_addr inst s) 4 STORE (\<lambda>paddr s1.
       write_paddr32 paddr (get_fgr_word (fr_ft inst) (status_fr s1) (cop1 s1)) s1) s)"

definition op_sdc1 :: "u32 \<Rightarrow> 'a dpc_state_scheme \<Rightarrow> 'a dpc_state_scheme res" where
  "op_sdc1 inst = if_usable (\<lambda>s.
     with_paddr (fi_addr inst s) 8 STORE (\<lambda>paddr s1.
       write_paddr64 paddr (get_fgr_dword (fr_ft inst) (status_fr s1) (cop1 s1)) s1) s)"

section \<open>Arithmetic\<close>

definition fcr31_rounding :: "u32 \<Rightarrow> rounding" where
  "fcr31_rounding mode =
     (if mode AND 3 = 1 then To_zero else if mode AND 3 = 2 then To_plus
      else if mode AND 3 = 3 then To_minus else To_nearest)"

definition float_to_w_rounded :: "u32 \<Rightarrow> u32 \<Rightarrow> u32 res" where
  "float_to_w_rounded v mode = int32_of_float (fcr31_rounding mode) (val_s v)"

definition evaluate_c_cond :: "float_value \<Rightarrow> float_value \<Rightarrow> u32 \<Rightarrow> bool" where
  "evaluate_c_cond fs ft cond =
     (let unordered = (fs = Nan \<or> ft = Nan);
          less = (\<not> unordered \<and> float_less fs ft);
          equal = (\<not> unordered \<and> float_eq fs ft)
      in (cond AND 4 \<noteq> 0 \<and> less) \<or> (cond AND 2 \<noteq> 0 \<and> equal) \<or> (cond AND 1 \<noteq> 0 \<and> unordered))"

definition set_compare :: "bool \<Rightarrow> 'a cpu_state_scheme \<Rightarrow> 'a cpu_state_scheme" where
  "set_compare b = map_cop1 (\<lambda>c. c\<lparr>fcr31 := put_bit 23 b (fcr31 c)\<rparr>)"

text \<open>The format W.\<close>

definition cop1_fmt_w :: "u32 \<Rightarrow> u32 \<Rightarrow> u32 \<Rightarrow> 'a cpu_state_scheme \<Rightarrow> 'a cpu_state_scheme res" where
  "cop1_fmt_w funct fs fd s =
     (let word = sint (get_float_s fs s)
      in if funct = 0b100000 then ok (set_float_s fd (word_of_nat (float_of_int binary32 word)) s)
         else if funct = 0b100001 then ok (set_float_d fd (word_of_nat (float_of_int binary64 word)) s)
         else Inl Aborted)"

definition cop1_fmt_s :: "host_nans \<Rightarrow> u32 \<Rightarrow> u32 \<Rightarrow> u32 \<Rightarrow> u32 \<Rightarrow> 'a cpu_state_scheme \<Rightarrow> 'a cpu_state_scheme res" where
  "cop1_fmt_s hn funct fs ft fd s =
     (let a = get_float_s fs s; b = get_float_s ft s;
          put = (\<lambda>v. ok (set_float_s fd v s));
          put_w = (\<lambda>r. bindR r (\<lambda>w. ok (set_float_s fd w s)))
      in if funct AND 0b110000 = 0b110000 then ok (set_compare (evaluate_c_cond (val_s a) (val_s b) (funct AND 0b1111)) s)
         else if funct = 0b000000 then put (float2 hn float_add a b)
         else if funct = 0b000001 then put (float2 hn float_sub a b)
         else if funct = 0b000010 then put (float2 hn float_mul a b)
         else if funct = 0b000011 then put (float2 hn float_div a b)
         else if funct = 0b000100 then put (float2 hn (\<lambda>F nan x _. float_sqrt F nan x) a a)
         else if funct = 0b000101 then put (a AND NOT (push_bit 31 1))
         else if funct = 0b000110 then put a
         else if funct = 0b000111 then put (a XOR push_bit 31 1)
         else if funct = 0b001100 then put_w (int32_of_float To_nearest (val_s a))
         else if funct = 0b001101 then put_w (int32_of_float To_zero (val_s a))
         else if funct = 0b001110 then put_w (int32_of_float To_plus (val_s a))
         else if funct = 0b001111 then put_w (int32_of_float To_minus (val_s a))
         else if funct = 0b100001 then ok (set_float_d fd (widen hn a) s)
         else if funct = 0b100100 then put_w (float_to_w_rounded a (fcr31 (cop1 s)))
         else Inl Aborted)"

definition cop1_fmt_d :: "host_nans \<Rightarrow> u32 \<Rightarrow> u32 \<Rightarrow> u32 \<Rightarrow> u32 \<Rightarrow> 'a cpu_state_scheme \<Rightarrow> 'a cpu_state_scheme res" where
  "cop1_fmt_d hn funct fs ft fd s =
     (let a = get_float_d fs s; b = get_float_d ft s;
          put = (\<lambda>v. ok (set_float_d fd v s));
          put_w = (\<lambda>r. bindR r (\<lambda>w. ok (set_float_s fd w s)))
      in if funct AND 0b110000 = 0b110000 then ok (set_compare (evaluate_c_cond (val_d a) (val_d b) (funct AND 0b1111)) s)
         else if funct = 0b000000 then put (double2 hn float_add a b)
         else if funct = 0b000001 then put (double2 hn float_sub a b)
         else if funct = 0b000010 then put (double2 hn float_mul a b)
         else if funct = 0b000011 then put (double2 hn float_div a b)
         else if funct = 0b000100 then put (double2 hn (\<lambda>F nan x _. float_sqrt F nan x) a a)
         else if funct = 0b000101 then put (a AND NOT (push_bit 63 1))
         else if funct = 0b000110 then put a
         else if funct = 0b000111 then put (a XOR push_bit 63 1)
         else if funct = 0b001100 then put_w (int32_of_float To_nearest (val_d a))
         else if funct = 0b001101 then put_w (int32_of_float To_zero (val_d a))
         else if funct = 0b001110 then put_w (int32_of_float To_plus (val_d a))
         else if funct = 0b001111 then put_w (int32_of_float To_minus (val_d a))
         else if funct = 0b100000 then put_w (ok (narrow hn a))
         else if funct = 0b100100 then put_w (int32_of_float (fcr31_rounding (fcr31 (cop1 s))) (val_d a))
         else Inl Aborted)"

definition op_cop1_arith :: "host_nans \<Rightarrow> u32 \<Rightarrow> 'a cpu_state_scheme \<Rightarrow> 'a cpu_state_scheme res" where
  "op_cop1_arith hn inst = if_usable (\<lambda>s.
     let fmt = fr_fmt inst; funct = fr_funct inst; ft = fr_ft inst; fs = fr_fs inst; fd = fr_fd inst
     in if fmt = 0b10100 then cop1_fmt_w funct fs fd s
        else if fmt = 0b10000 then cop1_fmt_s hn funct fs ft fd s
        else if fmt = 0b10001 then cop1_fmt_d hn funct fs ft fd s
        else Inl Aborted)"

section \<open>Branches on the condition\<close>

definition op_bc1 :: "u32 \<Rightarrow> 'a dpc_state_scheme \<Rightarrow> 'a dpc_state_scheme res" where
  "op_bc1 inst = if_usable (\<lambda>s.
     let ndtf = i_rt inst; cond = bit (fcr31 (cop1 s)) 23
     in if ndtf = 0 then branch_offset16 (\<not> cond) inst s
        else if ndtf = 1 then branch_offset16 cond inst s
        else if ndtf = 2 then branch_likely_offset16 (\<not> cond) inst s
        else if ndtf = 3 then branch_likely_offset16 cond inst s
        else Inl Aborted)"

fun exec_fpu :: "host_nans \<Rightarrow> fpu_op \<Rightarrow> u32 \<Rightarrow> 'a dpc_state_scheme \<Rightarrow> 'a dpc_state_scheme res" where
  "exec_fpu hn Op_lwc1 inst s = op_lwc1 inst s"
| "exec_fpu hn Op_ldc1 inst s = op_ldc1 inst s"
| "exec_fpu hn Op_swc1 inst s = op_swc1 inst s"
| "exec_fpu hn Op_sdc1 inst s = op_sdc1 inst s"
| "exec_fpu hn Op_mfc1 inst s = op_mfc1 inst s"
| "exec_fpu hn Op_dmfc1 inst s = op_dmfc1 inst s"
| "exec_fpu hn Op_cfc1 inst s = op_cfc1 inst s"
| "exec_fpu hn Op_mtc1 inst s = op_mtc1 inst s"
| "exec_fpu hn Op_dmtc1 inst s = op_dmtc1 inst s"
| "exec_fpu hn Op_ctc1 inst s = op_ctc1 inst s"
| "exec_fpu hn Op_bc1 inst s = op_bc1 inst s"
| "exec_fpu hn Op_cop1_arith inst s = op_cop1_arith hn inst s"

end
