(* ===== verification/Interp.thy ===== *)
theory Interp
  imports Cpu_Fpu
begin

text \<open>
  The interpreter (\<open>src/cpu/cached_interp.cpp\<close>): one instruction with its interrupt check, its cached
  fetch and its handler, and the slice \<open>run\<close>, which batches the cycles it hands to the scheduler and
  warps over idle loops. Cycle counts are integers; \<open>None\<close> is a scheduler loop that does not end.
\<close>

section \<open>One instruction\<close>

fun exec_handler :: "host_nans \<Rightarrow> handler \<Rightarrow> u32 \<Rightarrow> 'a dpc_state_scheme \<Rightarrow> 'a dpc_state_scheme res" where
  "exec_handler hn (Alu op) inst s = exec_alu op inst s"
| "exec_handler hn (Branch op) inst s = exec_branch op inst s"
| "exec_handler hn (Trap op) inst s = exec_trap op inst s"
| "exec_handler hn (Mem op) inst s = exec_mem op inst s"
| "exec_handler hn (Cop0 op) inst s = exec_cop0 op inst s"
| "exec_handler hn (Fpu op) inst s = exec_fpu hn op inst s"

text \<open>The word at the program counter and its handler, from the decode cache if they are there.\<close>

definition fetch_decoded :: "u32 \<Rightarrow> 'a dpc_state_scheme \<Rightarrow> ((u32 \<times> handler) \<times> 'a dpc_state_scheme) res" where
  "fetch_decoded paddr s =
     (case try_hit paddr (dcache s) of
        (Some e, c) \<Rightarrow> ok (e, map_dcache (\<lambda>_. c) s)
      | (None, c) \<Rightarrow>
          bindR (read_paddr32 paddr (map_dcache (\<lambda>_. c) s)) (\<lambda>(w, s1).
          bindR (decode w) (\<lambda>h. ok ((w, h), map_dcache (dc_fill paddr w h) s1))))"

definition fetch_paddr :: "'a dpc_state_scheme \<Rightarrow> (u32 option \<times> 'a dpc_state_scheme) res" where
  "fetch_paddr s =
     (let pc32 = lo32 (pc (cpu s))
      in case try_direct_map pc32 of
           Some p \<Rightarrow> ok (Some p, s)
         | None \<Rightarrow> resolve_vaddr_cached pc32 4 LOAD s)"

definition step_one_core :: "host_nans \<Rightarrow> bool \<Rightarrow> 'a dpc_state_scheme \<Rightarrow> 'a dpc_state_scheme res" where
  "step_one_core hn do_count s =
     (let s0 = shift_delay_slot s
      in bindR (if should_service_interrupt s0 then handle_exception INTERRUPT 0 False s0 else ok s0) (\<lambda>s1.
         bindR (fetch_paddr s1) (\<lambda>(p, s2).
           case p of
             None \<Rightarrow> handle_exception (get_tlb_exception_code LOAD s2) 0 False s2
           | Some paddr \<Rightarrow>
               bindR (fetch_decoded paddr s2) (\<lambda>((w, h), s3).
               bindR (exec_handler hn h w (advance_pc s3)) (\<lambda>s4.
                 ok (if do_count then add_count 1 s4 else s4))))))"

definition step_one :: "host_nans \<Rightarrow> 'a dpc_state_scheme \<Rightarrow> 'a dpc_state_scheme res" where
  "step_one hn = step_one_core hn True"

section \<open>A slice\<close>

text \<open>Results of code that may also not return.\<close>

definition bindO :: "'a res option \<Rightarrow> ('a \<Rightarrow> 'b res option) \<Rightarrow> 'b res option" where
  "bindO m f = (case m of None \<Rightarrow> None | Some (Inl e) \<Rightarrow> Some (Inl e) | Some (Inr x) \<Rightarrow> f x)"

lemma bindO_simps [simp]:
  "bindO None f = None" "bindO (Some (Inl e)) f = Some (Inl e)" "bindO (Some (Inr x)) f = f x"
  by (simp_all add: bindO_def)

lemma bindO_cong [fundef_cong]:
  "m = m' \<Longrightarrow> (\<And>x. m' = Some (Inr x) \<Longrightarrow> f x = f' x) \<Longrightarrow> bindO m f = bindO m' f'"
  by (simp add: bindO_def split: option.split sum.split)

lemma bindO_eq: "bindO m f = Some (Inr y) \<longleftrightarrow> (\<exists>x. m = Some (Inr x) \<and> f x = Some (Inr y))"
  by (auto simp: bindO_def split: option.splits sum.splits)

lemma bindO_assoc: "bindO (bindO m f) g = bindO m (\<lambda>x. bindO (f x) g)"
  by (simp add: bindO_def split: option.split sum.split)

text \<open>The code returns, and what it returns satisfies \<open>Q\<close> unless it has stopped the emulator.\<close>

definition returns :: "('a \<Rightarrow> bool) \<Rightarrow> 'a res option \<Rightarrow> bool" where
  "returns Q m \<longleftrightarrow> (\<exists>r. m = Some r \<and> holds_ok Q r)"

lemma returns_Some [simp]: "returns Q (Some r) = holds_ok Q r"
  by (simp add: returns_def)

lemma returns_bindO: "returns P m \<Longrightarrow> (\<And>x. P x \<Longrightarrow> returns Q (f x)) \<Longrightarrow> returns Q (bindO m f)"
proof -
  assume "returns P m" and f: "\<And>x. P x \<Longrightarrow> returns Q (f x)"
  then obtain r where r: "m = Some r" "holds_ok P r" by (auto simp: returns_def)
  show "returns Q (bindO m f)"
  proof (cases r)
    case (Inl e)
    then show ?thesis using r by simp
  next
    case (Inr x)
    then show ?thesis using r f [of x] by simp
  qed
qed

lemma returns_mono: "returns P m \<Longrightarrow> (\<And>x. P x \<Longrightarrow> Q x) \<Longrightarrow> returns Q m"
  by (auto simp: returns_def holds_ok_iff)

abbreviation (input) "kAdvanceEveryCycles \<equiv> 1024 :: int"

definition flush_pending :: "int \<Rightarrow> 'a dpc_state_scheme \<Rightarrow> (int \<times> 'a dpc_state_scheme) res option" where
  "flush_pending unflushed s =
     (if unflushed < 1 then Some (ok (unflushed, s))
      else bindO (advance_after_cpu perform_event unflushed s) (\<lambda>s1. Some (ok (0, s1))))"

text \<open>A marked warp: the cycles not handed over yet, then the skip.\<close>

definition apply_warp :: "int \<Rightarrow> int \<Rightarrow> 'a dpc_state_scheme \<Rightarrow> (int \<times> int \<times> 'a dpc_state_scheme) res option" where
  "apply_warp cycles unflushed s =
     (if idle_skip_pending s then
        bindO (flush_pending unflushed s) (\<lambda>(pending1, s1).
        bindO (idle_skip_apply_pending s1) (\<lambda>(skipped, s2).
          Some (ok (if skipped > 0 then cycles + skipped else cycles, pending1, s2))))
      else Some (ok (cycles, unflushed, s)))"

definition run_iteration ::
  "host_nans \<Rightarrow> int \<Rightarrow> int \<Rightarrow> 'a dpc_state_scheme \<Rightarrow> (int \<times> int \<times> 'a dpc_state_scheme) res option" where
  "run_iteration hn cycles unflushed s =
     bindO (Some (step_one_core hn False s)) (\<lambda>s1.
       let s2 = idle_skip_consume 1 (add_count 1 s1); total1 = cycles + 1; pending1 = unflushed + 1
       in bindO (if pending1 \<ge> kAdvanceEveryCycles then flush_pending pending1 s2 else Some (ok (pending1, s2)))
            (\<lambda>(pending2, s3). apply_warp total1 pending2 s3))"

lemma warp_length: "idle_skip_apply_pending s = Some (Inr (n, s')) \<Longrightarrow> 0 \<le> n \<and> n \<le> 2 ^ 20"
proof -
  have b: "uint w \<le> 1048576" if "\<not> kMaxWarp < w" for w
  proof -
    have "uint w \<le> uint kMaxWarp" using that by (simp only: word_le_def not_less)
    then show ?thesis by simp
  qed
  show "idle_skip_apply_pending s = Some (Inr (n, s')) \<Longrightarrow> 0 \<le> n \<and> n \<le> 2 ^ 20"
    by (auto simp: idle_skip_apply_pending_def Let_def bindR_eq_Inr intro!: b split: if_splits option.splits)
qed

lemma apply_warp_total: "apply_warp cycles p s = Some (Inr (t, p', s')) \<Longrightarrow> cycles \<le> t \<and> t \<le> cycles + 2 ^ 20"
  using warp_length by (fastforce simp: apply_warp_def bindO_eq split: if_splits)

lemma iteration_total: "run_iteration hn cycles p s = Some (Inr (t, p', s')) \<Longrightarrow> cycles < t \<and> t \<le> cycles + 1 + 2 ^ 20"
  using apply_warp_total by (fastforce simp: run_iteration_def Let_def bindO_eq)

function run_loop ::
  "host_nans \<Rightarrow> int \<Rightarrow> int \<Rightarrow> int \<Rightarrow> 'a dpc_state_scheme \<Rightarrow> (int \<times> int \<times> 'a dpc_state_scheme) res option" where
  "run_loop hn budget cycles unflushed s =
     (if cycles < budget
      then bindO (run_iteration hn cycles unflushed s) (\<lambda>(total1, pending1, s1). run_loop hn budget total1 pending1 s1)
      else Some (ok (cycles, unflushed, s)))"
  by pat_completeness auto
termination
  by (relation "measure (\<lambda>(hn, budget, cycles, unflushed, s). nat (budget - cycles))")
    (auto dest: iteration_total)

declare run_loop.simps [simp del]

definition run :: "host_nans \<Rightarrow> int \<Rightarrow> 'a dpc_state_scheme \<Rightarrow> (int \<times> 'a dpc_state_scheme) res option" where
  "run hn budget0 s =
     (let budget = (if budget0 < 1 then 1 else budget0)
      in bindO (run_loop hn budget 0 0 (idle_skip_begin_slice budget s)) (\<lambda>(cycles, unflushed, s1).
         bindO (apply_warp cycles unflushed s1) (\<lambda>(total1, pending1, s2).
         bindO (flush_pending pending1 s2) (\<lambda>(_, s3). Some (ok (total1, s3))))))"

end
