(* ===== verification/Machine_Clock.thy ===== *)
theory Machine_Clock
  imports Machine
begin

text \<open>
  Accesses of the processor leave the clock alone: whatever a load or a store on the bus sets off, time
  stands still and the schedule stays well formed. Only the scheduler's own loop advances the clock.
\<close>

section \<open>Steps during which time stands still\<close>

definition clocked :: "'a dpc_state_scheme \<Rightarrow> 'a dpc_state_scheme \<Rightarrow> bool" where
  "clocked s t \<longleftrightarrow> (sched_good s \<longrightarrow> sched_good t \<and> now t = now s)"

lemma clocked_refl [simp]: "clocked s s"
  by (simp add: clocked_def)

lemma clocked_trans [trans]: "clocked s t \<Longrightarrow> clocked t u \<Longrightarrow> clocked s u"
  by (simp add: clocked_def)

lemma clocked_regs:
  assumes "sched t = sched s" and "ai_regs_ok (ai s) \<Longrightarrow> ai_regs_ok (ai t)" and "vi_timing_ok (vi s) \<Longrightarrow> vi_timing_ok (vi t)"
  shows "clocked s t"
  using now_sched [OF assms(1)] sched_ok_sched [OF assms(1)] assms(2,3) by (simp add: clocked_def sched_good_def)

lemma clocked_same: "sched t = sched s \<Longrightarrow> ai t = ai s \<Longrightarrow> vi t = vi s \<Longrightarrow> clocked s t"
  by (rule clocked_regs) simp_all

lemma clocked_quiet: "quiet s t \<Longrightarrow> clocked s t"
  using now_sched [of t "cancel_named NE_Sp s"] sched_ok_sched [of t "cancel_named NE_Sp s"] clocked_same [of t s]
  by (auto simp: quiet_def clocked_def sched_good_def cancel_named_def)

lemma clocked_handled: "(sched_good s \<Longrightarrow> handled s t) \<Longrightarrow> clocked s t"
  by (auto simp: clocked_def handled_def)

lemma clocked_timer: "clocked s (set_timer d cb s)"
  using sched_ok_timer [of s d cb] by (simp add: clocked_def sched_good_def events_timer)

lemma clocked_bind:
  "holds_ok (clocked s) m \<Longrightarrow> (\<And>t. clocked s t \<Longrightarrow> holds_ok (clocked t) (f t)) \<Longrightarrow> holds_ok (clocked s) (bindR m f)"
  by (auto simp: holds_ok_iff bindR_eq_Inr intro: clocked_trans)

section \<open>Device registers\<close>

lemma same_intr [simp]:
  "sched (check_interrupt s) = sched s" "sched (set_mi_intr i b s) = sched s" "sched (set_mi_mode v s) = sched s"
  "ai (check_interrupt t) = ai t" "ai (set_mi_intr i b t) = ai t" "ai (set_mi_mode v t) = ai t"
  "vi (check_interrupt u) = vi u" "vi (set_mi_intr i b u) = vi u" "vi (set_mi_mode v u) = vi u"
  for s :: "'a sched_state_scheme" and t :: "'b ai_state_scheme" and u :: "'c vi_state_scheme"
  by (simp_all add: check_interrupt_def set_cause_def set_mi_intr_def set_mi_mode_def)

lemma same_maps [simp]:
  "sched (map_ai f s) = sched s" "sched (map_pi g t) = sched t" "sched (map_si h u) = sched u"
  "ai (map_pi g t) = ai t" "ai (map_si h u) = ai u" "vi (map_pi g t) = vi t" "vi (map_si h u) = vi u"
  for s :: "'a ai_state_scheme" and t :: "'b pi_state_scheme" and u :: "'c si_state_scheme"
  by (simp_all add: map_ai_def map_pi_def map_si_def)

lemma clocked_rdram: "holds_ok (clocked s) (map_rdram f s)" "holds_ok (clocked s) (map_sram f s)"
  by (auto simp: map_rdram_def map_sram_def holds_ok_iff bindR_eq_Inr clocked_same)

lemma clocked_vi: "holds_ok (clocked s) (vi_write_paddr32 p v s)"
proof -
  have same: "sched t = sched s \<and> ai t = ai s" if "vi_write_paddr32 p v s = Inr t" for t
    using that by (auto simp: vi_write_paddr32_def Let_def split: if_splits)
  have timing: "vi_timing_ok (vi t)" if "vi_write_paddr32 p v s = Inr t" "vi_timing_ok (vi s)" for t
    using vi_timing_write [OF that(2), of p v] that(1) by (simp add: holds_ok_iff)
  show ?thesis unfolding holds_ok_iff
  proof (intro allI impI)
    fix t assume t: "vi_write_paddr32 p v s = Inr t"
    show "clocked s t" by (rule clocked_regs) (use same [OF t] timing [OF t] in simp_all)
  qed
qed

lemma clocked_mi: "holds_ok (clocked s) (mi_write_paddr32 p v s)"
  by (simp add: mi_write_paddr32_def mi_write_mode_def mi_write_mask_def Let_def clocked_same)

lemma clocked_dpc: "holds_ok (clocked s) (dpc_write_paddr32 p v s)"
  using quiet_dpc_write [of s p v] by (auto simp: holds_ok_iff clocked_quiet)

lemma clocked_enqueue:
  assumes "len = 0 \<or> len_ok len"
  shows "holds_ok (clocked s) (enqueue_dma len s)"
proof (cases "len = 0 \<or> fifo_count (ai s) \<ge> 2")
  case True
  then show ?thesis by (simp add: enqueue_dma_def)
next
  case False
  let ?a = "ai s"
  define x where "x = ?a\<lparr>ai_addr := set_slot (fifo_count ?a) (next_dram_addr ?a) (ai_addr ?a),
    ai_length := set_slot (fifo_count ?a) len (ai_length ?a), fifo_count := fifo_count ?a + 1\<rparr>"
  have r: "ai_regs_ok x" if "ai_regs_ok ?a"
    using that False assms by (auto simp: x_def ai_regs_ok_def set_slot_def)
  have c: "clocked s (s\<lparr>ai := x\<rparr>)" by (rule clocked_regs) (use r in simp_all)
  have "clocked (s\<lparr>ai := x\<rparr>) t" if "start_next_dma (s\<lparr>ai := x\<rparr>) = Inr t" for t
    by (rule clocked_handled) (use ai_next_handled [of "s\<lparr>ai := x\<rparr>"] that in \<open>simp add: holds_ok_iff\<close>)
  then have "holds_ok (clocked s) (start_next_dma (s\<lparr>ai := x\<rparr>))"
    using c by (auto simp: holds_ok_iff intro: clocked_trans)
  moreover have "enqueue_dma len s = (if fifo_count ?a = 0 then start_next_dma (s\<lparr>ai := x\<rparr>) else ok (s\<lparr>ai := x\<rparr>))"
    using False by (simp add: enqueue_dma_def Let_def x_def)
  ultimately show ?thesis using c by simp
qed

lemma clocked_ai: "holds_ok (clocked s) (ai_write_paddr32 p v s)"
proof -
  have m: "clocked s (map_ai f s)" if "\<And>a. ai_regs_ok a \<Longrightarrow> ai_regs_ok (f a)" for f
    by (rule clocked_regs) (use that in simp_all)
  have "v AND 0x3FFF \<le> 0x3FFF" by (rule word_and_le1)
  then have "unat (v AND 0x3FFF) \<le> 0x3FFF" by (simp add: word_le_nat_alt)
  then have a: "clocked s (map_ai (\<lambda>a. a\<lparr>next_dram_addr := v AND 0x00FFFFF8\<rparr>) s)"
    "clocked s (map_ai (\<lambda>a. a\<lparr>dma_enable := (v AND 1 \<noteq> 0)\<rparr>) s)"
    "clocked s (map_ai (\<lambda>a. a\<lparr>dacrate := v AND 0x3FFF, audio_log := audio_log a @ [Set_frequency (v AND 0x3FFF)]\<rparr>) s)"
    "clocked s (map_ai (\<lambda>a. a\<lparr>ai_bitrate := v AND 0xF\<rparr>) s)"
    using mask_addr [of v] by (auto simp: ai_regs_ok_def intro!: m)
  show ?thesis using clocked_enqueue [OF mask_len_ok, where s = s and v1 = v] a by (simp add: ai_write_paddr32_def clocked_same)
qed

lemma clocked_finish: "clocked s (pi_finish d c l cb s)"
proof -
  have "clocked s (map_pi f s)" for f by (simp add: clocked_same)
  then show ?thesis unfolding pi_finish_def by (rule clocked_trans) (rule clocked_timer)
qed

lemma clocked_pi_dma: "holds_ok (clocked s) (pi_dma_write s)" "holds_ok (clocked s) (pi_dma_read s)"
proof -
  have c: "holds_ok (clocked s) (pi_copy_to_rdram c d l t)" "holds_ok (clocked s) (pi_copy_from_rdram c d l t)"
    if "clocked s t" for c d l t
    using that clocked_rdram [of t]
    by (auto simp: pi_copy_to_rdram_def pi_copy_from_rdram_def Let_def holds_ok_iff intro: clocked_trans)
  have f: "clocked t (pi_finish d ca l cb (maybe_invalidate_code a n t))" for t d ca l cb a n
    by (rule clocked_trans [OF _ clocked_finish]) (simp add: clocked_same)
  show "holds_ok (clocked s) (pi_dma_write s)" unfolding pi_dma_write_def Let_def
    by (rule clocked_bind [OF c(1)]) (simp_all add: f clocked_same)
  show "holds_ok (clocked s) (pi_dma_read s)" unfolding pi_dma_read_def Let_def
    by (rule clocked_bind [OF c(2)]) (simp_all add: clocked_finish clocked_same)
qed

lemma clocked_pi: "holds_ok (clocked s) (pi_write_paddr32 p v s)"
proof -
  have "clocked s (map_pi f s)" for f by (simp add: clocked_same)
  then have d: "holds_ok (clocked s) (pi_dma_write (map_pi f s))" "holds_ok (clocked s) (pi_dma_read (map_pi f s))" for f
    using clocked_pi_dma [of "map_pi f s"] by (auto simp: holds_ok_iff intro: clocked_trans)
  have "clocked s (pi_write_status v s)" by (simp add: pi_write_status_def Let_def clocked_same)
  then show ?thesis by (simp add: pi_write_paddr32_def d clocked_same)
qed

lemma clocked_si: "holds_ok (clocked s) (si_write_paddr32 p v s)"
proof -
  have fin: "clocked t (si_finish t)" for t :: "'a dpc_state_scheme" by (simp add: si_finish_def clocked_same)
  have w: "holds_ok (clocked s) (map_rdram f t)" if "clocked s t" for f t
    using that clocked_rdram(1) [of t f] by (auto simp: holds_ok_iff intro: clocked_trans)
  have "holds_ok (clocked s) (dma_from_pif_to_dram (map_si f s))" for f
    unfolding dma_from_pif_to_dram_def Let_def
    by (intro holds_ok_bindR [of "\<lambda>_. True"] clocked_bind [OF w] fin) (simp_all add: clocked_same holds_ok_def fin split: sum.splits)
  moreover have "holds_ok (clocked s) (dma_from_dram_to_pif (map_si f s))" for f
    unfolding dma_from_dram_to_pif_def Let_def
    by (auto simp: holds_ok_iff bindR_eq_Inr si_finish_def clocked_same)
  ultimately show ?thesis by (simp add: si_write_paddr32_def clocked_same)
qed

lemma clocked_task:
  assumes "\<not> rsp_halted (rsp t)"
  shows "holds_ok (clocked t) (do_task (map_rsp (\<lambda>r. r\<lparr>broken := False, task_halted := False\<rparr>) t))"
proof -
  let ?t = "map_rsp (\<lambda>r. r\<lparr>broken := False, task_halted := False\<rparr>) t"
  have n: "clocked t ?t" by (rule clocked_same) simp_all
  have h: "\<not> task_halted (rsp ?t)" "\<not> rsp_halted (rsp ?t)" using assms by (simp_all add: rsp_halted_def)
  have "clocked ?t u" if "do_task ?t = Inr u" for u
    by (rule clocked_handled) (use do_task_handled [OF _ h] that in \<open>simp add: holds_ok_iff\<close>)
  then show ?thesis unfolding holds_ok_iff using clocked_trans [OF n] by blast
qed

lemma clocked_rsp: "holds_ok (clocked s) (rsp_write_paddr32 p v s)"
proof -
  have d: "clocked s (dma_start sync v rsp_dma_read s)" "clocked s (dma_start sync v rsp_dma_write s)" for sync
    by (rule clocked_quiet, rule quiet_dma_start, rule quiet_dma)+
  have b: "clocked s (status_bits_write v s)" by (rule clocked_quiet) (rule quiet_status_bits)
  have "holds_ok (clocked s) (status_reg_write do_task v s)"
    unfolding status_reg_write_def Let_def using b clocked_task [of "status_bits_write v s"]
    by (auto simp: holds_ok_iff intro: clocked_trans)
  then show ?thesis by (simp add: rsp_write_paddr32_def d clocked_same)
qed

section \<open>The bus\<close>

lemma clocked_device: "holds_ok (clocked s) (write_device32 kind paddr v s)"
proof -
  have m: "holds_ok (clocked s) (bindR r (\<lambda>x. ok (s\<lparr>mem := f x\<rparr>)))" for r :: "'b res" and f
    by (auto simp: holds_ok_iff bindR_eq_Inr clocked_same)
  have w: "holds_ok (clocked s) (bindR r (\<lambda>b. bindR (g b) (\<lambda>x. ok (map_si (\<lambda>_. x) s))))"
    "holds_ok (clocked s) (bindR r (\<lambda>b. ok (map_si (h b) s)))" for r :: "bytes res" and g h
    by (auto simp: holds_ok_iff bindR_eq_Inr clocked_same)
  show ?thesis
    by (cases kind) (simp_all add: write_device32_def Let_def clocked_rsp clocked_dpc clocked_vi clocked_ai clocked_mi
        clocked_pi clocked_si clocked_rdram m w)
qed

lemma clocked_narrow: "holds_ok (clocked s) (write_device_narrow kind paddr v s)"
  by (simp add: write_device_narrow_def)

lemma clocked_write_paddr:
  assumes "\<And>kind. holds_ok (clocked s) (device kind paddr v s)"
  shows "holds_ok (clocked s) (write_paddr n host unit be_put host_put device paddr v s)"
proof -
  have a: "clocked s (on_rdram_write paddr n s)" by (rule clocked_same) simp_all
  have b: "clocked t (maybe_invalidate_code paddr n t)" for t :: "'a dpc_state_scheme" by (rule clocked_same) simp_all
  have "holds_ok (clocked s) (map_rdram (host paddr v) (on_rdram_write paddr n s))"
    using clocked_rdram(1) clocked_trans [OF a] by (simp add: holds_ok_iff) blast
  then have "holds_ok (clocked s) (bindR (map_rdram (host paddr v) (on_rdram_write paddr n s))
      (\<lambda>s1. ok (maybe_invalidate_code paddr n s1)))"
    by (rule clocked_bind) (simp add: b)
  moreover have "holds_ok (clocked s) (bindR r (\<lambda>b. ok (map_rsp (g b) s)))" for r :: "bytes res" and g
    by (auto simp: holds_ok_iff bindR_eq_Inr clocked_same)
  ultimately show ?thesis using assms unfolding write_paddr_def Let_def by simp
qed

lemma clocked_write:
  "holds_ok (clocked s) (write_paddr8 p v8 s)" "holds_ok (clocked s) (write_paddr16 p v16 s)"
  "holds_ok (clocked s) (write_paddr32 p v32 s)" "holds_ok (clocked s) (write_paddr64 p v64 s)"
  unfolding write_paddr8_def write_paddr16_def write_paddr32_def write_paddr64_def
  by (rule clocked_write_paddr, rule clocked_narrow clocked_device)+

lemma clocked_read_paddr:
  assumes "\<And>kind. holds_ok (\<lambda>(v, t). clocked s t) (device kind paddr s)"
  shows "holds_ok (\<lambda>(v, t). clocked s t) (read_paddr n host be device paddr s)"
proof -
  have "clocked s (check_framebuffers paddr n s)" by (rule clocked_same) simp_all
  then show ?thesis using assms by (auto simp: read_paddr_def Let_def holds_ok_iff bindR_eq_Inr)
qed

lemma clocked_read_device: "holds_ok (\<lambda>(v, t). clocked s t) (read_device32 kind paddr s)"
proof -
  have r: "holds_ok (\<lambda>(v, t). clocked s t) (rsp_read_paddr32 paddr s)"
    by (auto simp: rsp_read_paddr32_def Let_def holds_ok_iff clocked_same split: prod.splits)
  show ?thesis using r by (cases kind) (auto simp: read_device32_def Let_def holds_ok_iff bindR_eq_Inr)
qed

lemma clocked_read:
  "holds_ok (\<lambda>(v, t). clocked s t) (read_paddr8 p s)" "holds_ok (\<lambda>(v, t). clocked s t) (read_paddr16 p s)"
  "holds_ok (\<lambda>(v, t). clocked s t) (read_paddr32 p s)" "holds_ok (\<lambda>(v, t). clocked s t) (read_paddr64 p s)"
  unfolding read_paddr8_def read_paddr16_def read_paddr32_def read_paddr64_def
  by (rule clocked_read_paddr, simp add: clocked_read_device)+

end
