(* ===== verification/Interp_Clock.thy ===== *)
theory Interp_Clock
  imports Interp Machine_Clock
begin

text \<open>
  An instruction leaves the clock alone, whatever it does: only \<open>flush_pending\<close> and a warp advance it.
  A slice of the interpreter therefore returns, and the clock has advanced by the cycles it reports.
\<close>

section \<open>Instructions that do not reach the bus\<close>

definition calm :: "'a cpu_state_scheme \<Rightarrow> 'a cpu_state_scheme \<Rightarrow> bool" where
  "calm s t \<longleftrightarrow> sched t = sched s \<and> ai t = ai s \<and> vi t = vi s"

lemma calm_refl [simp]: "calm s s"
  by (simp add: calm_def)

lemma calm_trans: "calm s t \<Longrightarrow> calm t u \<Longrightarrow> calm s u"
  by (simp add: calm_def)

lemma calm_clocked: "calm s t \<Longrightarrow> clocked s t"
  by (simp add: calm_def clocked_same)

lemma clocked_calm_step: "clocked s t \<Longrightarrow> calm t u \<Longrightarrow> clocked s u"
  by (rule clocked_trans [OF _ calm_clocked])

lemma calm_maps [simp]:
  "calm s (map_cpu f t) = calm s t" "calm s (map_cop0 g t) = calm s t" "calm s (map_tlb h t) = calm s t"
  "calm s (map_cop1 k t) = calm s t" "calm s (map_idle l t) = calm s t" "calm s (map_dcache d t) = calm s t"
  by (simp_all add: calm_def map_cpu_def map_cop0_def map_tlb_def map_cop1_def map_idle_def map_dcache_def)

lemma calm_intr [simp]: "calm s (check_interrupt t) = calm s t" "calm s (add_count n t) = calm s t"
  by (simp_all add: calm_def)

lemma calm_regs [simp]:
  "calm s (gpr_write r v t) = calm s t" "calm s (set_lo_hi x y t) = calm s t" "calm s (link r t) = calm s t"
  "calm s (set_pc64 p t) = calm s t" "calm s (set_pc32 q t) = calm s t" "calm s (advance_pc t) = calm s t"
  "calm s (shift_delay_slot t) = calm s t" "calm s (set_product x t) = calm s t"
  by (simp_all add: gpr_write_def set_lo_hi_def link_def set_pc64_def set_pc32_def advance_pc_def
      shift_delay_slot_def set_product_def)

lemma calm_tlb [simp]:
  "calm s (soft_tlb_invalidate t) = calm s t" "calm s (soft_tlb_note acc v p t) = calm s t"
  by (simp_all add: soft_tlb_invalidate_def soft_tlb_note_def Let_def)

lemma calm_exception: "holds_ok (calm s) (handle_exception code ce prev s)"
  by (auto simp: holds_ok_iff enter_exception_def Let_def elim!: handle_exception_cases)

lemma calm_eret [simp]: "calm s (eret t) = calm s t"
  by (simp add: eret_def Let_def)

lemma calm_valid: "holds_ok (calm s) r \<Longrightarrow> holds_ok (calm s) (assert_encoding_is_valid b r)"
  by (simp add: assert_encoding_is_valid_def)

lemma calm_alu: "holds_ok (calm s) (exec_alu op inst s)"
  by (cases op) (simp_all add: alu_op_defs Let_def calm_valid)

lemma calm_trap: "holds_ok (calm s) (exec_trap op inst s)"
  by (cases op) (simp_all add: op_syscall_def op_break_def op_tge_def op_tgeu_def op_tlt_def op_tltu_def
      op_teq_def op_tne_def op_eret_def calm_exception)

lemma calm_cop0_write: "holds_ok (calm s) (cop0_write r v s)"
  by (simp add: cop0_write_def Let_def)

lemma calm_cop0: "holds_ok (calm s) (exec_cop0 op inst s)"
  using calm_cop0_write [of s]
  by (cases op) (auto simp: op_mfc0_def op_mtc0_def op_dmfc0_def op_dmtc0_def op_tlbwi_def op_tlbwr_def op_tlbp_def
      op_tlbr_def holds_ok_iff bindR_eq_Inr write_entry_def probe_index_def read_entry_def Let_def split: option.splits)

section \<open>Instructions that do\<close>

lemma calm_probe: "tlb_probe v acc s = (r, t) \<Longrightarrow> calm s t"
  by (auto simp: tlb_probe_def split: sum.splits)

lemma calm_resolve: "holds_ok (\<lambda>(r, t). calm s t) (resolve_vaddr v acc s)"
  by (auto simp: resolve_vaddr_def resolve_vaddr_slow_def on_tlb_exception_def Let_def holds_ok_iff
      split: option.splits prod.splits if_splits dest: calm_probe)

lemma calm_resolve_cached: "holds_ok (\<lambda>(r, t). calm s t) (resolve_vaddr_cached v n acc s)"
  using calm_resolve [of s v acc]
  by (fastforce simp: resolve_vaddr_cached_def holds_ok_iff bindR_eq_Inr split: option.splits if_splits)

lemma clocked_calm: "holds_ok (calm s) r \<Longrightarrow> holds_ok (clocked s) r"
  by (auto simp: holds_ok_iff calm_clocked)

lemma clocked_pair:
  "holds_ok (\<lambda>(v, t). clocked s t) m \<Longrightarrow> (\<And>v t. clocked s t \<Longrightarrow> holds_ok (clocked s) (f (v, t))) \<Longrightarrow>
    holds_ok (clocked s) (bindR m f)"
  by (auto simp: holds_ok_iff bindR_eq_Inr)

lemma clocked_with_paddr:
  assumes "\<And>p t. clocked s t \<Longrightarrow> holds_ok (clocked t) (k p t)"
  shows "holds_ok (clocked s) (with_paddr v n acc k s)"
  unfolding with_paddr_def
proof (rule clocked_pair)
  show "holds_ok (\<lambda>(p, t). clocked s t) (resolve_vaddr_cached (lo32 v) n acc s)"
    using calm_resolve_cached [of s "lo32 v" n acc] by (auto simp: holds_ok_iff calm_clocked)
  fix p :: "u32 option" and t assume t: "clocked s t"
  have "holds_ok (clocked t) (handle_exception c ce b t)" for c ce b by (rule clocked_calm) (rule calm_exception)
  then have "holds_ok (clocked t) (case p of Some q \<Rightarrow> k q t | None \<Rightarrow>
      handle_exception (get_tlb_exception_code acc t) 0 True t)"
    using assms [OF t] by (simp split: option.split)
  then show "holds_ok (clocked s) (case (p, t) of (p, s1) \<Rightarrow> case p of Some q \<Rightarrow> k q s1 | None \<Rightarrow>
      handle_exception (get_tlb_exception_code acc s1) 0 True s1)"
    using clocked_trans [OF t] by (auto simp: holds_ok_iff)
qed

text \<open>The state after a read, changed in a calm way; and a write that follows a read.\<close>

lemma clocked_read_calm:
  assumes "holds_ok (\<lambda>(v, u). clocked s u) (rd p s)" and "\<And>v t. calm t (f v t)"
  shows "holds_ok (clocked s) (bindR (rd p s) (\<lambda>(v, t). ok (f v t)))"
  using assms by (auto simp: holds_ok_iff bindR_eq_Inr intro: clocked_calm_step)

lemma clocked_load:
  "holds_ok (\<lambda>(v, u). clocked s u) (rd p s) \<Longrightarrow> holds_ok (clocked s) (load_to rt ext rd p s)"
  unfolding load_to_def by (erule clocked_read_calm) simp

lemma clocked_read_write:
  assumes "holds_ok (\<lambda>(v, u). clocked s u) (rd p s)" and "\<And>v t. holds_ok (clocked t) (f v t)"
  shows "holds_ok (clocked s) (bindR (rd p s) (\<lambda>(v, t). f v t))"
  using assms by (fastforce simp: holds_ok_iff bindR_eq_Inr intro: clocked_trans)

lemma clocked_then_calm:
  assumes "holds_ok (clocked s) m" and "\<And>t. calm t (f t)"
  shows "holds_ok (clocked s) (bindR m (\<lambda>t. ok (f t)))"
  using assms by (auto simp: holds_ok_iff bindR_eq_Inr intro: clocked_calm_step)

lemma clocked_from: "clocked s t \<Longrightarrow> holds_ok (clocked t) m \<Longrightarrow> holds_ok (clocked s) m"
  by (auto simp: holds_ok_iff intro: clocked_trans)

lemma clocked_with_paddr_unlink:
  assumes "\<And>p t. holds_ok (clocked t) (k p t)"
  shows "holds_ok (clocked s) (with_paddr v n acc k (map_cop0 f s))"
  by (rule clocked_from [of _ "map_cop0 f s"]) (simp_all add: calm_clocked clocked_with_paddr assms)

lemma clocked_mem: "holds_ok (clocked s) (exec_mem op inst s)"
  by (cases op) (auto simp: op_lb_def op_lbu_def op_lh_def op_lhu_def op_lw_def op_lwu_def op_lwl_def op_lwr_def
      op_ld_def op_ldl_def op_ldr_def op_ll_def op_lld_def op_sb_def op_sh_def op_swl_def op_sw_def op_swr_def
      op_sd_def op_sdl_def op_sdr_def op_sc_def op_scd_def note_link_def Let_def calm_clocked
      intro!: clocked_with_paddr clocked_load clocked_read clocked_read_calm clocked_read_write clocked_write
        clocked_then_calm clocked_with_paddr_unlink)

lemma clocked_peek: "holds_ok (\<lambda>(v, t). clocked s t) (peek_delay_slot_word s)"
proof -
  have r: "clocked s u" if "clocked s t" "read_paddr32 p t = Inr (v, u)" for p t v u
    using clocked_read(3) [of t p] that by (auto simp: holds_ok_iff intro: clocked_trans)
  show ?thesis using calm_resolve [of s "lo32 (pc (cpu s))" LOAD]
    by (auto simp: peek_delay_slot_word_def Let_def holds_ok_iff bindR_eq_Inr calm_clocked
        split: option.splits intro: r r [OF clocked_refl] r [OF calm_clocked])
qed

lemma clocked_idle_check: "holds_ok (clocked s) (idle_skip_check_absolute v s)"
  using clocked_peek [of s]
  by (auto simp: idle_skip_check_absolute_def queue_idle_warp_def holds_ok_iff bindR_eq_Inr intro: clocked_calm_step)

lemma clocked_branch_addr:
  "holds_ok (clocked s) (branch_addr64 c v s)" "holds_ok (clocked s) (branch_likely_addr64 c v s)"
proof -
  have "holds_ok (clocked s) (idle_skip_check_absolute v (map_cpu f (map_cpu g s)))" for f g
    by (rule clocked_from [OF calm_clocked clocked_idle_check]) simp
  then show "holds_ok (clocked s) (branch_addr64 c v s)" "holds_ok (clocked s) (branch_likely_addr64 c v s)"
    by (simp_all add: branch_addr64_def branch_likely_addr64_def Let_def calm_clocked)
qed

lemma clocked_branch_offset:
  "holds_ok (clocked s) (branch_offset16 c inst s)" "holds_ok (clocked s) (branch_likely_offset16 c inst s)"
  by (simp_all add: branch_offset16_def branch_likely_offset16_def clocked_branch_addr)

lemma clocked_valid: "holds_ok (clocked s) r \<Longrightarrow> holds_ok (clocked s) (assert_encoding_is_valid b r)"
  by (simp add: assert_encoding_is_valid_def)

lemma clocked_branch: "holds_ok (clocked s) (exec_branch op inst s)"
proof -
  have l: "holds_ok (clocked s) (branch_addr64 c v (link r s))" for c v r
    by (rule clocked_from [OF calm_clocked clocked_branch_addr(1)]) simp
  show ?thesis
    by (cases op) (simp_all add: branch_op_defs Let_def clocked_valid clocked_branch_addr clocked_branch_offset
        clocked_then_calm l)
qed

lemma clocked_usable:
  assumes "\<And>s. holds_ok (clocked s) (k s)"
  shows "holds_ok (clocked s) (if_usable k s)"
  using calm_exception [of s COPROCESSOR_UNUSABLE 1 True] assms [of s]
  by (auto simp: if_usable_def test_cop1_usable_exception_def holds_ok_iff bindR_eq_Inr calm_clocked)

lemma calm_float [simp]:
  "calm s (set_float_s r v t) = calm s t" "calm s (set_float_d r w t) = calm s t" "calm s (set_compare b t) = calm s t"
  by (simp_all add: set_float_s_def set_float_d_def set_compare_def)

lemma calm_fmt:
  "holds_ok (calm s) (cop1_fmt_w f a d s)" "holds_ok (calm s) (cop1_fmt_s hn f a b d s)"
  "holds_ok (calm s) (cop1_fmt_d hn f a b d s)"
proof -
  have w: "holds_ok (calm s) (bindR r (\<lambda>w. ok (set_float_s d w s)))" for r by (auto simp: holds_ok_iff bindR_eq_Inr)
  show "holds_ok (calm s) (cop1_fmt_w f a d s)" by (simp add: cop1_fmt_w_def Let_def)
  show "holds_ok (calm s) (cop1_fmt_s hn f a b d s)" unfolding cop1_fmt_s_def Let_def by (simp add: w)
  have narrow_ok: "holds_ok (calm s) (bindR (ok x) (\<lambda>w. ok (set_float_s d w s)))" for x by (rule w)
  show "holds_ok (calm s) (cop1_fmt_d hn f a b d s)" unfolding cop1_fmt_d_def Let_def by (simp add: w narrow_ok)
qed

lemma clocked_fpu: "holds_ok (clocked s) (exec_fpu hn op inst s)"
  by (cases op) (auto simp: op_lwc1_def op_ldc1_def op_swc1_def op_sdc1_def op_mfc1_def op_dmfc1_def op_cfc1_def
      op_mtc1_def op_dmtc1_def op_ctc1_def op_bc1_def op_cop1_arith_def Let_def calm_clocked
      intro!: clocked_usable clocked_with_paddr clocked_read clocked_read_calm clocked_write clocked_branch_offset
        clocked_calm [OF calm_fmt(1)] clocked_calm [OF calm_fmt(2)] clocked_calm [OF calm_fmt(3)])

section \<open>A step\<close>

lemma clocked_handler: "holds_ok (clocked s) (exec_handler hn h inst s)"
  by (cases h) (simp_all add: clocked_calm calm_alu calm_trap calm_cop0 clocked_branch clocked_mem clocked_fpu)

lemma clocked_fetch_paddr: "holds_ok (\<lambda>(p, t). clocked s t) (fetch_paddr s)"
  using calm_resolve_cached [of s "lo32 (pc (cpu s))" 4 LOAD]
  by (auto simp: fetch_paddr_def Let_def holds_ok_iff calm_clocked split: option.splits)

lemma clocked_fetch_decoded: "holds_ok (\<lambda>(e, t). clocked s t) (fetch_decoded p s)"
proof -
  have r: "clocked s u" if "read_paddr32 p (map_dcache (\<lambda>_. c) s) = Inr (w, u)" for c w u
    using clocked_read(3) [of "map_dcache (\<lambda>_. c) s" p] that clocked_trans [of s "map_dcache (\<lambda>_. c) s" u]
    by (simp add: holds_ok_iff calm_clocked)
  show ?thesis
    by (auto simp: fetch_decoded_def holds_ok_iff bindR_eq_Inr calm_clocked split: option.splits prod.splits
        intro: clocked_calm_step r)
qed

lemma step_clocked: "holds_ok (clocked s) (step_one_core hn c s)"
proof -
  have exc: "holds_ok (clocked t) (handle_exception code ce b t)" for code ce b and t :: "'a dpc_state_scheme"
    by (rule clocked_calm) (rule calm_exception)
  have run: "holds_ok (clocked t) (bindR (exec_handler hn h w (advance_pc t))
      (\<lambda>u. ok (if c then add_count 1 u else u)))" for h w and t :: "'a dpc_state_scheme"
    by (rule clocked_then_calm, rule clocked_from [OF _ clocked_handler]) (simp_all add: calm_clocked)
  have fetch: "holds_ok (clocked t) (bindR (fetch_decoded p t) (\<lambda>((w, h), u).
      bindR (exec_handler hn h w (advance_pc u)) (\<lambda>v. ok (if c then add_count 1 v else v))))"
    for p and t :: "'a dpc_state_scheme"
    by (rule clocked_pair [OF clocked_fetch_decoded]) (auto split: prod.split intro: clocked_from [OF _ run])
  have body: "holds_ok (clocked t) (bindR (fetch_paddr t) (\<lambda>(p, u). case p of
        None \<Rightarrow> handle_exception (get_tlb_exception_code LOAD u) 0 False u
      | Some paddr \<Rightarrow> bindR (fetch_decoded paddr u) (\<lambda>((w, h), v).
          bindR (exec_handler hn h w (advance_pc v)) (\<lambda>x. ok (if c then add_count 1 x else x)))))"
    for t :: "'a dpc_state_scheme"
    by (rule clocked_pair [OF clocked_fetch_paddr])
      (auto split: option.split intro: clocked_from [OF _ fetch] clocked_from [OF _ exc])
  have start: "clocked s (shift_delay_slot s)" by (simp add: calm_clocked)
  show ?thesis unfolding step_one_core_def Let_def
    by (rule clocked_from [OF start], rule clocked_bind) (simp_all add: exc body)
qed

section \<open>A slice\<close>

text \<open>Between two iterations: \<open>cycles\<close> of the slice have passed since the clock stood at \<open>n0\<close>, of which
  \<open>unflushed\<close> are not yet on the clock.\<close>

definition keeps_time :: "int \<Rightarrow> int \<Rightarrow> int \<times> int \<times> 'a dpc_state_scheme \<Rightarrow> bool" where
  "keeps_time n0 bound = (\<lambda>(cycles, unflushed, s). sched_good s \<and> 0 \<le> unflushed \<and> unflushed \<le> cycles \<and> cycles \<le> bound \<and>
     int (unat (now s)) + unflushed = n0 + cycles)"

abbreviation (input) "clock_end \<equiv> 0x0000FFFFFFFFFFFF :: int"

lemma flush_returns:
  assumes "sched_good s" and "0 \<le> n" and "int (unat (now s)) + n \<le> clock_end"
  shows "returns (\<lambda>(p, t). p = 0 \<and> sched_good t \<and> int (unat (now t)) = int (unat (now s)) + n) (flush_pending n s)"
proof (cases "n < 1")
  case True
  then show ?thesis using assms by (simp add: flush_pending_def)
next
  case False
  let ?w = "word_of_int n :: u64"
  have "n < 18446744073709551616" using assms(3) by linarith
  then have "n < 2 ^ 64" by simp
  then have w: "int (unat ?w) = n" using assms(2) by (simp add: unsigned_of_int take_bit_int_eq_self)
  then have room: "unat (now s) + unat ?w \<le> 0x0000FFFFFFFFFFFF" using assms(3) by linarith
  then have n: "unat (now s + ?w) = unat (now s) + unat ?w" by (simp add: unat_word_ariths)
  have i: "int (unat (now s + ?w)) = int (unat (now s)) + n" unfolding n using w by linarith
  have adv: "advance_after_cpu perform_event n s = tick perform_event ?w s" using False by (simp add: advance_after_cpu_def)
  from tick_handled [OF assms(1) room] have
    t: "returns (\<lambda>t. now t = now s + ?w \<and> due t = {#} \<and> sched_good t) (tick perform_event ?w s)"
    by (simp add: returns_def)
  have "flush_pending n s = bindO (tick perform_event ?w s) (\<lambda>t. Some (ok (0, t)))"
    using False by (simp add: flush_pending_def adv)
  also have "returns (\<lambda>(p, t). p = 0 \<and> sched_good t \<and> int (unat (now t)) = int (unat (now s)) + n) \<dots>"
    by (rule returns_bindO [OF t]) (use i in simp)
  finally show ?thesis .
qed

lemma warp_returns:
  assumes "keeps_time n0 bound (cycles, p, s)" and "n0 + bound + 2 ^ 20 \<le> clock_end"
  shows "returns (\<lambda>(c, q, t). keeps_time n0 (bound + 2 ^ 20) (c, q, t) \<and> cycles \<le> c) (apply_warp cycles p s)"
proof (cases "idle_skip_pending s")
  case False
  then show ?thesis using assms by (auto simp: apply_warp_def keeps_time_def)
next
  case True
  have k: "sched_good s" "0 \<le> p" "p \<le> cycles" "cycles \<le> bound" "int (unat (now s)) + p = n0 + cycles"
    using assms(1) by (simp_all add: keeps_time_def)
  then have "int (unat (now s)) + p \<le> clock_end" using assms(2) by simp
  note f = flush_returns [OF k(1,2) this]
  have w: "returns (\<lambda>(c, q, u). keeps_time n0 (bound + 2 ^ 20) (c, q, u) \<and> cycles \<le> c)
      (bindO (idle_skip_apply_pending t) (\<lambda>(skipped, u).
        Some (ok (if skipped > 0 then cycles + skipped else cycles, q, u))))"
    if t: "q = 0" "sched_good t" "int (unat (now t)) = int (unat (now s)) + p" for q t
  proof -
    have "int (unat (now t)) + 0x100000 \<le> clock_end" using t(3) k assms(2) by simp
    then have "unat (now t) + 0x100000 \<le> 0x0000FFFFFFFFFFFF" by linarith
    from apply_pending_warps [OF t(2) this]
    have "returns (\<lambda>(n, u). warp_clear t n u) (idle_skip_apply_pending t)"
      by (auto simp: returns_def holds_ok_iff)
    then show ?thesis
      by (rule returns_bindO) (use t k in \<open>auto simp: warp_clear_def keeps_time_def split: if_splits\<close>)
  qed
  have "apply_warp cycles p s = bindO (flush_pending p s) (\<lambda>(q, t). bindO (idle_skip_apply_pending t) (\<lambda>(skipped, u).
      Some (ok (if skipped > 0 then cycles + skipped else cycles, q, u))))"
    using True by (simp add: apply_warp_def)
  also have "returns (\<lambda>(c, q, t). keeps_time n0 (bound + 2 ^ 20) (c, q, t) \<and> cycles \<le> c) \<dots>"
  proof (rule returns_bindO [OF f])
    fix x :: "int \<times> 'a dpc_state_scheme"
    assume x: "case x of (q, t) \<Rightarrow> q = 0 \<and> sched_good t \<and> int (unat (now t)) = int (unat (now s)) + p"
    obtain q t where e: "x = (q, t)" by (cases x)
    show "returns (\<lambda>(c, q, t). keeps_time n0 (bound + 2 ^ 20) (c, q, t) \<and> cycles \<le> c) (case x of (q, t) \<Rightarrow>
        bindO (idle_skip_apply_pending t) (\<lambda>(skipped, u). Some (ok (if skipped > 0 then cycles + skipped else cycles, q, u))))"
      using x w [of q t] unfolding e prod.case by blast
  qed
  finally show ?thesis .
qed

lemma iteration_returns:
  assumes "keeps_time n0 bound (cycles, p, s)" and "n0 + bound + 1 + 2 ^ 20 \<le> clock_end"
  shows "returns (\<lambda>(c, q, t). keeps_time n0 (bound + 1 + 2 ^ 20) (c, q, t) \<and> cycles < c) (run_iteration hn cycles p s)"
proof -
  let ?next = "\<lambda>t. idle_skip_consume 1 (add_count 1 t)"
  let ?ok = "\<lambda>(q, t). keeps_time n0 (bound + 1) (cycles + 1, q, t)"
  have k: "sched_good s" "0 \<le> p" "p \<le> cycles" "cycles \<le> bound" "int (unat (now s)) + p = n0 + cycles"
    using assms(1) by (simp_all add: keeps_time_def)
  have consume: "sched_good (idle_skip_consume 1 u) = sched_good u" "now (idle_skip_consume 1 u) = now u"
    for u :: "'a dpc_state_scheme" by (simp_all add: idle_skip_consume_def)
  have step: "returns (\<lambda>t. sched_good (?next t) \<and> now (?next t) = now s) (Some (step_one_core hn False s))"
    using step_clocked [of s hn False] k(1) by (auto simp: holds_ok_iff clocked_def consume)
  have flush: "returns ?ok (if p + 1 \<ge> kAdvanceEveryCycles then flush_pending (p + 1) u else Some (ok (p + 1, u)))"
    if u: "sched_good u" "now u = now s" for u
  proof -
    have "returns (\<lambda>(q, t). q = 0 \<and> sched_good t \<and> int (unat (now t)) = int (unat (now u)) + (p + 1)) (flush_pending (p + 1) u)"
      by (rule flush_returns) (use u k assms(2) in auto)
    then have "returns ?ok (flush_pending (p + 1) u)"
      by (rule returns_mono) (use u k in \<open>auto simp: keeps_time_def\<close>)
    then show ?thesis using u k by (auto simp: keeps_time_def)
  qed
  have "run_iteration hn cycles p s = bindO (Some (step_one_core hn False s)) (\<lambda>t.
      bindO (if p + 1 \<ge> kAdvanceEveryCycles then flush_pending (p + 1) (?next t) else Some (ok (p + 1, ?next t)))
        (\<lambda>(q, u). apply_warp (cycles + 1) q u))"
    by (simp add: run_iteration_def Let_def)
  also have "returns (\<lambda>(c, q, t). keeps_time n0 (bound + 1 + 2 ^ 20) (c, q, t) \<and> cycles < c) \<dots>"
  proof (rule returns_bindO [OF step], rule returns_bindO)
    fix t assume "sched_good (?next t) \<and> now (?next t) = now s"
    then show "returns ?ok (if p + 1 \<ge> kAdvanceEveryCycles then flush_pending (p + 1) (?next t) else Some (ok (p + 1, ?next t)))"
      using flush [of "?next t"] by blast
  next
    fix t x assume "?ok x"
    moreover obtain q u where x: "x = (q, u)" by (cases x)
    ultimately have "keeps_time n0 (bound + 1) (cycles + 1, q, u)" by simp
    from warp_returns [OF this] assms(2)
    have "returns (\<lambda>(c, q, t). keeps_time n0 (bound + 1 + 2 ^ 20) (c, q, t) \<and> cycles + 1 \<le> c) (apply_warp (cycles + 1) q u)" by simp
    then show "returns (\<lambda>(c, q, t). keeps_time n0 (bound + 1 + 2 ^ 20) (c, q, t) \<and> cycles < c)
        (case x of (q, u) \<Rightarrow> apply_warp (cycles + 1) q u)"
      unfolding x by (auto intro: returns_mono)
  qed
  finally show ?thesis .
qed

lemma loop_returns:
  assumes "keeps_time n0 (budget + 2 ^ 20) (cycles, p, s)" and "n0 + budget + 2 ^ 21 \<le> clock_end"
  shows "returns (\<lambda>(c, q, t). keeps_time n0 (budget + 2 ^ 20) (c, q, t) \<and> budget \<le> c) (run_loop hn budget cycles p s)"
  using assms(1)
proof (induction "nat (budget - cycles)" arbitrary: cycles p s rule: less_induct)
  case less
  show ?case
  proof (cases "cycles < budget")
    case False
    then show ?thesis using less.prems by (simp add: run_loop.simps [of _ budget])
  next
    case True
    then have k: "keeps_time n0 (budget - 1) (cycles, p, s)" using less.prems by (simp add: keeps_time_def)
    have "returns (\<lambda>(c, q, t). keeps_time n0 (budget - 1 + 1 + 2 ^ 20) (c, q, t) \<and> cycles < c) (run_iteration hn cycles p s)"
      by (rule iteration_returns [OF k]) (use assms(2) in simp)
    then have i: "returns (\<lambda>(c, q, t). keeps_time n0 (budget + 2 ^ 20) (c, q, t) \<and> cycles < c) (run_iteration hn cycles p s)"
      by simp
    have "run_loop hn budget cycles p s =
        bindO (run_iteration hn cycles p s) (\<lambda>(c, q, t). run_loop hn budget c q t)"
      using True by (simp add: run_loop.simps [of _ budget cycles])
    also have "returns (\<lambda>(c, q, t). keeps_time n0 (budget + 2 ^ 20) (c, q, t) \<and> budget \<le> c) \<dots>"
    proof (rule returns_bindO [OF i])
      fix x :: "int \<times> int \<times> 'a dpc_state_scheme"
      assume x: "case x of (c, q, t) \<Rightarrow> keeps_time n0 (budget + 2 ^ 20) (c, q, t) \<and> cycles < c"
      obtain c q t where e: "x = (c, q, t)" by (cases x)
      have "nat (budget - c) < nat (budget - cycles)" using x e True by simp
      then show "returns (\<lambda>(c, q, t). keeps_time n0 (budget + 2 ^ 20) (c, q, t) \<and> budget \<le> c)
          (case x of (c, q, t) \<Rightarrow> run_loop hn budget c q t)"
        using less.hyps [of c q t] x unfolding e prod.case by blast
    qed
    finally show ?thesis .
  qed
qed

lemma slice_returns:
  assumes "sched_good s" and "1 \<le> budget" and "int (unat (now s)) + budget + 2 ^ 21 \<le> clock_end"
  shows "returns (\<lambda>(c, q, t). keeps_time (int (unat (now s))) (budget + 2 ^ 21) (c, q, t) \<and> budget \<le> c)
    (bindO (run_loop hn budget 0 0 (idle_skip_begin_slice budget s)) (\<lambda>(c, q, t). apply_warp c q t))"
proof -
  let ?s = "idle_skip_begin_slice budget s"
  have "keeps_time (int (unat (now s))) (budget + 2 ^ 20) (0, 0, ?s)"
    using assms(1,2) by (simp add: keeps_time_def idle_skip_begin_slice_def)
  note l = loop_returns [OF this assms(3)]
  show ?thesis
  proof (rule returns_bindO [OF l])
    fix x :: "int \<times> int \<times> 'a dpc_state_scheme"
    assume x: "case x of (c, q, t) \<Rightarrow> keeps_time (int (unat (now s))) (budget + 2 ^ 20) (c, q, t) \<and> budget \<le> c"
    obtain c q t where e: "x = (c, q, t)" by (cases x)
    have k: "keeps_time (int (unat (now s))) (budget + 2 ^ 20) (c, q, t)" "budget \<le> c" using x e by simp_all
    have "returns (\<lambda>(c', q, t). keeps_time (int (unat (now s))) (budget + 2 ^ 20 + 2 ^ 20) (c', q, t) \<and> c \<le> c') (apply_warp c q t)"
      by (rule warp_returns [OF k(1)]) (use assms(3) in simp)
    then show "returns (\<lambda>(c, q, t). keeps_time (int (unat (now s))) (budget + 2 ^ 21) (c, q, t) \<and> budget \<le> c)
        (case x of (c, q, t) \<Rightarrow> apply_warp c q t)"
      unfolding e prod.case by (rule returns_mono) (use k(2) in \<open>auto simp: add.commute\<close>)
  qed
qed

lemma run_slice:
  assumes "sched_good s" and "int (unat (now s)) + max 1 b + 2 ^ 21 \<le> 0x0000FFFFFFFFFFFF"
  shows "returns (\<lambda>(n, t). max 1 b \<le> n \<and> n \<le> max 1 b + 2 ^ 21 \<and> sched_good t \<and>
    int (unat (now t)) = int (unat (now s)) + n) (run hn b s)"
proof -
  have "run hn b s = bindO (bindO (run_loop hn (max 1 b) 0 0 (idle_skip_begin_slice (max 1 b) s))
      (\<lambda>(c, q, t). apply_warp c q t)) (\<lambda>(c, q, t). bindO (flush_pending q t) (\<lambda>(_, u). Some (ok (c, u))))"
    by (simp add: run_def max_def not_less [symmetric] bindO_assoc case_prod_unfold)
  also have "returns (\<lambda>(n, t). max 1 b \<le> n \<and> n \<le> max 1 b + 2 ^ 21 \<and> sched_good t \<and>
      int (unat (now t)) = int (unat (now s)) + n) \<dots>"
  proof (rule returns_bindO [OF slice_returns [OF assms(1) _ assms(2)]])
    fix x :: "int \<times> int \<times> 'a dpc_state_scheme"
    assume x: "case x of (c, q, t) \<Rightarrow> keeps_time (int (unat (now s))) (max 1 b + 2 ^ 21) (c, q, t) \<and> max 1 b \<le> c"
    obtain c q t where e: "x = (c, q, t)" by (cases x)
    have k: "sched_good t" "0 \<le> q" "q \<le> c" "c \<le> max 1 b + 2 ^ 21" "max 1 b \<le> c"
      "int (unat (now t)) + q = int (unat (now s)) + c" using x e by (simp_all add: keeps_time_def)
    have "returns (\<lambda>(p, u). p = 0 \<and> sched_good u \<and> int (unat (now u)) = int (unat (now t)) + q) (flush_pending q t)"
      by (rule flush_returns [OF k(1,2)]) (use k assms(2) in linarith)
    then show "returns (\<lambda>(n, t). max 1 b \<le> n \<and> n \<le> max 1 b + 2 ^ 21 \<and> sched_good t \<and>
        int (unat (now t)) = int (unat (now s)) + n)
        (case x of (c, q, t) \<Rightarrow> bindO (flush_pending q t) (\<lambda>(_, u). Some (ok (c, u))))"
      unfolding e prod.case by (rule returns_bindO) (use k in auto)
  qed simp
  finally show ?thesis .
qed

text \<open>C2: A slice of the interpreter always returns (unless an instruction stops the emulator): it
  runs at least its budget and at most 2^21 cycles more, the clock has advanced by exactly the cycles
  it reports, so no cycle of an instruction or of a skipped idle loop is lost or counted twice, and
  the schedule is well formed.\<close>

theorem run_returns:
  assumes "sched_good s" and "int (unat (now s)) + max 1 b + 2 ^ 21 \<le> 0x0000FFFFFFFFFFFF"
  shows "returns (\<lambda>(n, t). max 1 b \<le> n \<and> n \<le> max 1 b + 2 ^ 21 \<and> sched_good t \<and>
    int (unat (now t)) = int (unat (now s)) + n) (run hn b s)"
  by (rule run_slice [OF assms])

end
