(* ===== verification/System.thy ===== *)
theory System
  imports Boot Interp_Clock
begin

text \<open>
  The machine as a whole (\<open>src/n64_system/n64_system.cpp\<close>): its reset, the start of a cartridge and the
  frame loop, which drives the interpreter by half-lines of the video interface. The loop is the one of
  a normal run: no debugger, no test mode, the interpreter as the back end.
\<close>

section \<open>Power-on\<close>

definition reset_all ::
  "u8 list option \<Rightarrow> u8 list option \<Rightarrow> 'a dpc_state_scheme \<Rightarrow> 'a dpc_state_scheme res" where
  "reset_all rom_file sram_file s =
     bindR (load_rom rom_file sram_file (memory_reset (sched_init s))) (\<lambda>s1.
       let s2 = cached_interp_reset (cpu_reset (tlb_reset s1));
           s3 = dpc_reset (map_rsp rsp_reset s2);
           s4 = si_reset (pi_reset s3)
       in ok (vi_reset (ai_reset s4)))"

text \<open>A test ROM is copied to RDRAM by the processor's own accesses and entered directly.\<close>

definition copy_test_rom :: "'a dpc_state_scheme \<Rightarrow> 'a dpc_state_scheme res" where
  "copy_test_rom =
     for_loop 0x40000 (\<lambda>k s. let i = 4 * word_of_nat k
       in bindR (read_paddr32 (0x10001000 + i) s) (\<lambda>(data, s1). write_paddr32 (0x00001000 + i) data s1))"

definition set_up ::
  "bool \<Rightarrow> u8 list option \<Rightarrow> u8 list option \<Rightarrow> 'a dpc_state_scheme \<Rightarrow> 'a dpc_state_scheme res" where
  "set_up test_mode rom_file sram_file s =
     bindR (reset_all rom_file sram_file s) (\<lambda>s1.
       if test_mode then bindR (copy_test_rom s1) (\<lambda>s2. ok (set_pc64 0x80001000 s2))
       else execute_rom_hle s1)"

section \<open>The frame loop\<close>

definition set_reg_current :: "u32 \<Rightarrow> 'a vi_state_scheme \<Rightarrow> 'a vi_state_scheme" where
  "set_reg_current v s = s\<lparr>vi := (vi s)\<lparr>vi_current := v\<rparr>\<rparr>"

definition vi_match :: "'a vi_state_scheme \<Rightarrow> 'a vi_state_scheme" where
  "vi_match s = (if vi_current (vi s) AND 0x3FE = vi_intr (vi s) then raise_intr INTR_VI s else s)"

function cpu_slices :: "host_nans \<Rightarrow> int \<Rightarrow> 'a dpc_state_scheme \<Rightarrow> 'a dpc_state_scheme res option" where
  "cpu_slices hn cycles s =
     (if cycles > 0
      then bindO (run hn cycles s) (\<lambda>(n, s1).
             let taken = (if n < 1 then 1 else n) in cpu_slices hn (cycles - taken) s1)
      else Some (ok s))"
  by pat_completeness auto
termination by (relation "measure (\<lambda>(hn, cycles, s). nat cycles)") auto

declare cpu_slices.simps [simp del]

definition half_line :: "host_nans \<Rightarrow> int \<Rightarrow> int \<Rightarrow> 'a dpc_state_scheme \<Rightarrow> 'a dpc_state_scheme res option" where
  "half_line hn line field s =
     (let s1 = vi_match (set_reg_current (word_of_int (line * 2 + field)) s)
      in cpu_slices hn (cycles_per_half_line (vi s1)) s1)"

text \<open>The program may change the number of lines and of fields while the loops run.\<close>

lemma bindO_mono [partial_function_mono]:
  assumes "mono_option B" and "\<And>y. mono_option (\<lambda>f. C y f)"
  shows "mono_option (\<lambda>f. bindO (B f) (\<lambda>y. C y f))"
proof (rule monotoneI)
  fix f g :: "'a \<Rightarrow> 'b option" assume fg: "option.le_fun f g"
  have B: "B f = None \<or> B f = B g"
    using monotoneD [of _ _ _ f g, OF assms(1) fg] by (simp add: flat_ord_def)
  have C: "C y f = None \<or> C y f = C y g" for y
    using monotoneD [of _ _ _ f g, OF assms(2) fg] by (simp add: flat_ord_def)
  have "bindO (B f) (\<lambda>y. C y f) = None \<or> bindO (B f) (\<lambda>y. C y f) = bindO (B g) (\<lambda>y. C y g)"
  proof (cases "B f")
    case (Some r)
    then have "B g = Some r" using B by simp
    with Some show ?thesis using C by (cases r) simp_all
  qed simp
  then show "option_ord (bindO (B f) (\<lambda>y. C y f)) (bindO (B g) (\<lambda>y. C y g))" by (simp add: flat_ord_def)
qed

partial_function (option) half_lines ::
  "host_nans \<Rightarrow> int \<Rightarrow> int \<Rightarrow> 'a dpc_state_scheme \<Rightarrow> 'a dpc_state_scheme res option" where
  "half_lines hn line field s =
     (if line < num_half_lines (vi s)
      then bindO (half_line hn line field s) (\<lambda>s1. half_lines hn (line + 1) field s1)
      else Some (ok s))"

definition run_field :: "host_nans \<Rightarrow> int \<Rightarrow> 'a dpc_state_scheme \<Rightarrow> 'a dpc_state_scheme res option" where
  "run_field hn field s = bindO (half_lines hn 0 field s) (\<lambda>s1. Some (ok (vi_match s1)))"

partial_function (option) run_fields ::
  "host_nans \<Rightarrow> int \<Rightarrow> 'a dpc_state_scheme \<Rightarrow> 'a dpc_state_scheme res option" where
  "run_fields hn field s =
     (if field < get_num_fields s
      then bindO (run_field hn field s) (\<lambda>s1. run_fields hn (field + 1) s1)
      else Some (ok s))"

definition system_step :: "host_nans \<Rightarrow> 'a dpc_state_scheme \<Rightarrow> 'a dpc_state_scheme res option" where
  "system_step hn = run_fields hn 0"

end
