(* ===== verification/System_Spec.thy ===== *)
theory System_Spec
  imports System Cop0
begin

text \<open>
  The machine starts in a state in which every invariant of the development holds, and a call of its
  frame loop returns.
\<close>

section \<open>Power-on\<close>

text \<open>The invariants the components keep.\<close>

definition machine_ok :: "'a dpc_state_scheme \<Rightarrow> bool" where
  "machine_ok s \<longleftrightarrow> sched_good s \<and> ai_ok s \<and> mem_ok s \<and> soft_ok s \<and> imem_ok (rsp s) \<and>
     hook s = Interp_hook \<and> code_coherent s \<and> cache_ok (dcache s)"

text \<open>The state that the reset of the processor and of the devices leaves, whatever it was.\<close>

definition reset_devices :: "'a dpc_state_scheme \<Rightarrow> 'a dpc_state_scheme" where
  "reset_devices s = vi_reset (ai_reset (si_reset (pi_reset (dpc_reset (map_rsp rsp_reset
     (cached_interp_reset (cpu_reset (tlb_reset s))))))))"

lemma reset_all_devices:
  "reset_all r f s = bindR (load_rom r f (memory_reset (sched_init s))) (\<lambda>t. ok (reset_devices t))"
  by (simp add: reset_all_def reset_devices_def Let_def)

lemma reset_fields:
  "vi_timing_ok (vi (reset_devices s))" "sched (reset_devices s) = sched s" "mem (reset_devices s) = mem s"
  "hook (reset_devices s) = Interp_hook" "dcache (reset_devices s) = dc_clear (dcache s)"
  "rsp (reset_devices s) = rsp_reset (rsp s)" "tlb (reset_devices s) = tlb (tlb_reset s)"
  subgoal unfolding reset_devices_def by (rule vi_timing_reset)
  by (simp_all add: reset_devices_def vi_reset_def ai_reset_def map_ai_def si_reset_def map_si_def pi_reset_def map_pi_def
      dpc_reset_def map_dpc_def map_rsp_def cached_interp_reset_def map_dcache_def cpu_reset_def Let_def cop0_reset_def
      map_cop0_def map_cpu_def tlb_reset_def soft_tlb_invalidate_def map_tlb_def)

lemma reset_ai:
  "fifo_count (ai (reset_devices s)) = 0" "ai_addr (ai (reset_devices s)) = (0, 0)"
  "next_dram_addr (ai (reset_devices s)) = 0" "dacrate (ai (reset_devices s)) = DEFAULT_DACRATE"
  by (simp_all add: reset_devices_def vi_reset_def ai_reset_def map_ai_def)

lemma load_rom_sched: "holds_ok (\<lambda>t. sched t = sched s) (load_rom r f s)"
proof -
  have "sched (allocate_sram t) = sched t" "sched (load_sram_file g t) = sched t" for g and t :: "'a mem_state_scheme"
    by (auto simp: allocate_sram_def load_sram_file_def Let_def split: option.split)
  then show ?thesis by (auto simp: load_rom_def holds_ok_iff bindR_eq_Inr Let_def split: if_splits)
qed

lemma reset_devices_ok:
  assumes "mem_ok s" and "sched s = sched (sched_init t)"
  shows "machine_ok (reset_devices s)"
proof -
  let ?s = "reset_devices s"
  have q: "sched ?s = sched (sched_init t)" using assms(2) by (simp add: reset_fields)
  have a: "ai_regs_ok (ai ?s)" by (simp add: ai_regs_ok_def reset_ai)
  have "sched_ok ?s" "events ?s = {#}" using q by (simp_all add: sched_ok_def now_def q_ok_def events_def named_part_def sched_init_def)
  moreover have "sc_queue (sched ?s) = []" using q by (simp add: sched_init_def)
  ultimately have "sched_good ?s" "ai_ok ?s"
    using a by (simp_all add: sched_good_def reset_fields(1) ai_ok_def ai_pending_def reset_ai)
  moreover have "mem_ok ?s" using assms(1) by (simp add: mem_ok_def reset_fields)
  moreover have "soft_ok ?s"
    using reset_fields(7) [of s]
    by (simp add: soft_ok_def soft_sound_def tlb_reset_def soft_tlb_invalidate_def map_tlb_def soft_table_def split: bus_access.split)
  moreover have "imem_ok (rsp ?s)"
  proof -
    define r where "r = rsp s"
    have "imem_ok (rebuild_imem_cache x)" for x by (rule rebuild_ok)
    then show ?thesis unfolding reset_fields rsp_reset_def Let_def
      by (subst imem_ok_cong [where r' = "rebuild_imem_cache _"]) simp_all
  qed
  ultimately show ?thesis by (simp add: machine_ok_def reset_fields code_coherent_def)
qed

text \<open>C8: Power-on establishes every invariant of the development: whatever state the machine was in, after
  a reset with a ROM that loads, the schedule is empty and well formed, the audio FIFO and the video
  timing are consistent, the soft TLB, the decode cache and the table of decoded RSP instructions agree
  with what they stand for, and stores are watched for code.\<close>

theorem power_on_ok:
  assumes "mem_ok s"
  shows "holds_ok machine_ok (reset_all rom_file sram_file s)"
proof -
  have "mem_ok (memory_reset (sched_init s))" using assms by (simp add: mem_ok_def memory_reset_def sched_init_def)
  note l = mem_ok_load_rom [OF this, of rom_file sram_file] load_rom_sched [of "memory_reset (sched_init s)" rom_file sram_file]
  have "sched (memory_reset (sched_init s)) = sched (sched_init s)" by (simp add: memory_reset_def)
  then show ?thesis using l reset_devices_ok by (auto simp: reset_all_devices holds_ok_iff bindR_eq_Inr)
qed

section \<open>A frame returns\<close>

definition advances :: "int \<Rightarrow> 'a dpc_state_scheme \<Rightarrow> 'a dpc_state_scheme \<Rightarrow> bool" where
  "advances k s t \<longleftrightarrow> sched_good t \<and> int (unat (now s)) \<le> int (unat (now t)) \<and>
     int (unat (now t)) \<le> int (unat (now s)) + k"

lemma advances_trans: "advances k s t \<Longrightarrow> advances l t u \<Longrightarrow> advances (k + l) s u"
  by (auto simp: advances_def)

lemma advances_mono: "advances k s t \<Longrightarrow> k \<le> l \<Longrightarrow> advances l s t"
  by (auto simp: advances_def)

lemma returns_after:
  "advances k s t \<Longrightarrow> returns (advances l t) m \<Longrightarrow> returns (advances (k + l) s) m"
  by (erule returns_mono) (rule advances_trans)

lemma vi_match_good: "sched_good s \<Longrightarrow> advances 0 s (vi_match s)"
proof -
  assume g: "sched_good s"
  have "clocked s (vi_match s)" by (rule clocked_same) (simp_all add: vi_match_def raise_intr_def)
  then show ?thesis using g by (simp add: clocked_def advances_def)
qed

lemma current_good: "sched_good s \<Longrightarrow> advances 0 s (set_reg_current v s)"
proof -
  assume g: "sched_good s"
  have "clocked s (set_reg_current v s)"
    by (rule clocked_regs) (simp_all add: set_reg_current_def vi_timing_ok_def)
  then show ?thesis using g by (simp add: clocked_def advances_def)
qed

lemma slices_return:
  assumes "sched_good s" and "1 \<le> c" and "int (unat (now s)) + c + 2 ^ 21 \<le> clock_end"
  shows "returns (advances (c + 2 ^ 21) s) (cpu_slices hn c s)"
proof -
  have m: "max 1 c = c" using assms(2) by simp
  have r: "returns (\<lambda>(n, t). c \<le> n \<and> n \<le> c + 2 ^ 21 \<and> sched_good t \<and> int (unat (now t)) = int (unat (now s)) + n) (run hn c s)"
    using run_slice [of s c hn] assms m by simp
  have "cpu_slices hn c s = bindO (run hn c s) (\<lambda>(n, t). cpu_slices hn (c - (if n < 1 then 1 else n)) t)"
    using assms(2) by (simp add: cpu_slices.simps [of hn c s] Let_def)
  also have "returns (advances (c + 2 ^ 21) s) \<dots>"
  proof (rule returns_bindO [OF r])
    fix x :: "int \<times> 'a dpc_state_scheme"
    assume x: "case x of (n, t) \<Rightarrow> c \<le> n \<and> n \<le> c + 2 ^ 21 \<and> sched_good t \<and> int (unat (now t)) = int (unat (now s)) + n"
    obtain n t where e: "x = (n, t)" by (cases x)
    have n: "c \<le> n" "n \<le> c + 2 ^ 21" "sched_good t" "int (unat (now t)) = int (unat (now s)) + n" using x e by simp_all
    then have "cpu_slices hn (c - (if n < 1 then 1 else n)) t = Some (ok t)"
      using assms(2) by (simp add: cpu_slices.simps [of hn _ t])
    moreover have "advances (c + 2 ^ 21) s t" unfolding advances_def using n assms(2) by linarith
    ultimately show "returns (advances (c + 2 ^ 21) s) (case x of (n, t) \<Rightarrow> cpu_slices hn (c - (if n < 1 then 1 else n)) t)"
      by (simp add: e)
  qed
  finally show ?thesis .
qed

lemma line_cycles:
  assumes "vi_timing_ok v"
  shows "1 \<le> cycles_per_half_line v" and "cycles_per_half_line v \<le> 1562500"
proof -
  have n: "1 \<le> num_half_lines v" "1 \<le> cycles_per_half_line v"
    "num_half_lines v * cycles_per_half_line v \<le> 1562500"
    using assms by (simp_all add: vi_timing_ok_def CPU_CYCLES_PER_FRAME_NTSC_def)
  then have "1 * cycles_per_half_line v \<le> num_half_lines v * cycles_per_half_line v" by (intro mult_right_mono) simp_all
  then show "1 \<le> cycles_per_half_line v" "cycles_per_half_line v \<le> 1562500" using n by linarith+
qed

lemma half_line_returns:
  assumes "sched_good s" and "int (unat (now s)) + 2 ^ 22 \<le> clock_end"
  shows "returns (advances (2 ^ 22) s) (half_line hn line field s)"
proof -
  let ?t = "vi_match (set_reg_current (word_of_int (line * 2 + field)) s)"
  let ?c = "cycles_per_half_line (vi ?t)"
  have a: "advances 0 s ?t"
    using advances_trans [OF current_good [OF assms(1)] vi_match_good] current_good [OF assms(1)]
    by (simp add: advances_def)
  then have t: "sched_good ?t" "int (unat (now ?t)) = int (unat (now s))" by (simp_all add: advances_def)
  then have v: "vi_timing_ok (vi ?t)" by (simp add: sched_good_def)
  note c = line_cycles [OF v]
  have "returns (advances (?c + 2 ^ 21) ?t) (cpu_slices hn ?c ?t)"
    by (rule slices_return [OF t(1) c(1)]) (use t(2) c(2) assms(2) in simp)
  then have "returns (advances (0 + (?c + 2 ^ 21)) s) (cpu_slices hn ?c ?t)" by (rule returns_after [OF a])
  then have "returns (advances (2 ^ 22) s) (cpu_slices hn ?c ?t)"
    by (rule returns_mono) (rule advances_mono, assumption, use c(2) in simp)
  then show ?thesis by (simp add: half_line_def Let_def)
qed

lemma half_lines_return:
  assumes "sched_good s" and "0 \<le> line" and "line \<le> 511"
    and "int (unat (now s)) + (511 - line) * 2 ^ 22 \<le> clock_end"
  shows "returns (advances ((511 - line) * 2 ^ 22) s) (half_lines hn line field s)"
  using assms
proof (induction "nat (511 - line)" arbitrary: line s rule: less_induct)
  case less
  show ?case
  proof (cases "line < num_half_lines (vi s)")
    case False
    then have "half_lines hn line field s = Some (ok s)" by (simp add: half_lines.simps [of hn line])
    then show ?thesis using less.prems by (simp add: advances_def)
  next
    case True
    moreover have "num_half_lines (vi s) \<le> 511" using less.prems(1) by (simp add: sched_good_def vi_timing_ok_def)
    ultimately have l: "line < 511" by simp
    have h: "returns (advances (2 ^ 22) s) (half_line hn line field s)"
      by (rule half_line_returns [OF less.prems(1)]) (use l less.prems(4) in simp)
    have "half_lines hn line field s = bindO (half_line hn line field s) (half_lines hn (line + 1) field)"
      using True by (simp add: half_lines.simps [of hn line])
    also have "returns (advances ((511 - line) * 2 ^ 22) s) \<dots>"
    proof (rule returns_bindO [OF h])
      fix t assume t: "advances (2 ^ 22) s t"
      have e: "2 ^ 22 + (511 - (line + 1)) * 2 ^ 22 = (511 - line) * (2 ^ 22 :: int)" by (simp add: algebra_simps)
      have "int (unat (now t)) \<le> int (unat (now s)) + 2 ^ 22" "sched_good t" using t unfolding advances_def by blast+
      then have "returns (advances ((511 - (line + 1)) * 2 ^ 22) t) (half_lines hn (line + 1) field t)"
        by (intro less.hyps) (use l less.prems(2,4) e in linarith)+
      from returns_after [OF t this] show "returns (advances ((511 - line) * 2 ^ 22) s) (half_lines hn (line + 1) field t)"
        unfolding e .
    qed
    finally show ?thesis .
  qed
qed

lemma field_returns:
  assumes "sched_good s" and "int (unat (now s)) + 2 ^ 31 \<le> clock_end"
  shows "returns (advances (2 ^ 31) s) (run_field hn field s)"
proof -
  have "returns (advances ((511 - 0) * 2 ^ 22) s) (half_lines hn 0 field s)"
    by (rule half_lines_return) (use assms in simp_all)
  then have "returns (advances (2 ^ 31) s) (half_lines hn 0 field s)"
    by (rule returns_mono) (erule advances_mono, simp)
  then show ?thesis unfolding run_field_def
    by (rule returns_bindO) (use vi_match_good advances_trans in \<open>fastforce simp: advances_def\<close>)
qed

lemma fields_return:
  assumes "sched_good s" and "0 \<le> field" and "field \<le> 2" and "int (unat (now s)) + (2 - field) * 2 ^ 31 \<le> clock_end"
  shows "returns (advances ((2 - field) * 2 ^ 31) s) (run_fields hn field s)"
  using assms
proof (induction "nat (2 - field)" arbitrary: field s rule: less_induct)
  case less
  show ?case
  proof (cases "field < get_num_fields s")
    case False
    then have "run_fields hn field s = Some (ok s)" by (simp add: run_fields.simps [of hn field])
    then show ?thesis using less.prems by (simp add: advances_def)
  next
    case True
    then have l: "field < 2" by (simp add: get_num_fields_def split: if_splits)
    have f: "returns (advances (2 ^ 31) s) (run_field hn field s)"
      by (rule field_returns [OF less.prems(1)]) (use l less.prems(4) in simp)
    have "run_fields hn field s = bindO (run_field hn field s) (run_fields hn (field + 1))"
      using True by (simp add: run_fields.simps [of hn field])
    also have "returns (advances ((2 - field) * 2 ^ 31) s) \<dots>"
    proof (rule returns_bindO [OF f])
      fix t assume t: "advances (2 ^ 31) s t"
      have e: "2 ^ 31 + (2 - (field + 1)) * 2 ^ 31 = (2 - field) * (2 ^ 31 :: int)" by (simp add: algebra_simps)
      have "int (unat (now t)) \<le> int (unat (now s)) + 2 ^ 31" "sched_good t" using t unfolding advances_def by blast+
      then have "returns (advances ((2 - (field + 1)) * 2 ^ 31) t) (run_fields hn (field + 1) t)"
        by (intro less.hyps) (use l less.prems(2,4) e in linarith)+
      from returns_after [OF t this] show "returns (advances ((2 - field) * 2 ^ 31) s) (run_fields hn (field + 1) t)"
        unfolding e .
    qed
    finally show ?thesis .
  qed
qed

text \<open>C6: A frame returns: however the program reprograms the video timing, the interlace mode or the
  devices while it runs, one call of the frame loop ends (unless the emulator is stopped), within 2^32
  cycles of emulated time, with a well-formed schedule; the clock never runs backwards.\<close>

theorem frame_returns:
  assumes "sched_good s" and "int (unat (now s)) + 2 ^ 32 \<le> 0x0000FFFFFFFFFFFF"
  shows "returns (\<lambda>t. sched_good t \<and> now s \<le> now t \<and> int (unat (now t)) \<le> int (unat (now s)) + 2 ^ 32) (system_step hn s)"
proof -
  have "returns (advances ((2 - 0) * 2 ^ 31) s) (run_fields hn 0 s)"
    by (rule fields_return) (use assms in simp_all)
  then show ?thesis unfolding system_step_def
    by (rule returns_mono) (auto simp: advances_def word_le_def)
qed

end
