(* ===== verification/Boot_Spec.thy ===== *)
theory Boot_Spec
  imports Boot Bus_Spec
begin

text \<open>
  The boot code always succeeds on a cartridge with a known security chip, and it leaves the machine at
  the entry of the cartridge's own loader.
\<close>

section \<open>Stores of the boot code\<close>

definition boot_ready :: "'a dpc_state_scheme \<Rightarrow> bool" where
  "boot_ready s \<longleftrightarrow> mem_ok s \<and> bytes_len (pif_ram (si s)) = 64 \<and>
     bytes_len (sp_dmem (rsp s)) = 0x1000 \<and> bytes_len (sp_imem (rsp s)) = 0x1000"

text \<open>What a store of the boot code keeps.\<close>

definition boot_step :: "'a dpc_state_scheme \<Rightarrow> 'a dpc_state_scheme \<Rightarrow> bool" where
  "boot_step s t \<longleftrightarrow> (boot_ready s \<longrightarrow> boot_ready t) \<and> rom (mem t) = rom (mem s) \<and> cpu t = cpu s \<and>
     c0_status (cop0 t) = c0_status (cop0 s)"

lemma boot_frames [simp]:
  "si (on_rdram_write p n s) = si s" "rsp (on_rdram_write p n s) = rsp s" "cpu (on_rdram_write p n s) = cpu s"
  "cop0 (on_rdram_write p n s) = cop0 s" "si (maybe_invalidate_code p n s) = si s"
  "rsp (maybe_invalidate_code p n s) = rsp s" "cpu (maybe_invalidate_code p n s) = cpu s"
  "cop0 (maybe_invalidate_code p n s) = cop0 s" "mem (maybe_invalidate_code p n s) = mem s"
  for s :: "'a dpc_state_scheme"
  by (simp_all add: on_rdram_write_def check_framebuffers_def maybe_mark_vi_fb_dirty_def map_rdp_def Let_def
      maybe_invalidate_code_def map_dcache_def split: code_hook.split)

lemma boot_ram:
  assumes "boot_ready s" and "p \<le> PHYS_RDRAM_MEM_END" and "naturally_aligned 4 p"
  shows "\<exists>t. write_paddr32 p v s = Inr t \<and> boot_step s t"
proof -
  have "mem_ok s" using assms(1) by (simp add: boot_ready_def)
  then obtain m where
    m: "bytes_len m = 0x800000" "write_paddr32 p v s =
      Inr (maybe_invalidate_code p 4 ((on_rdram_write p 4 s)\<lparr>mem := (mem s)\<lparr>rdram := m\<rparr>\<rparr>))"
    unfolding write_paddr32_def by (rule access32.bus_store [OF _ assms(2,3)]) blast
  define u where "u = (on_rdram_write p 4 s)\<lparr>mem := (mem s)\<lparr>rdram := m\<rparr>\<rparr>"
  have "mem u = (mem s)\<lparr>rdram := m\<rparr>" "si u = si s" "rsp u = rsp s" "cpu u = cpu s" "cop0 u = cop0 s"
    unfolding u_def by simp_all
  then have "boot_step s (maybe_invalidate_code p 4 u)"
    using m(1) by (simp add: boot_step_def boot_ready_def mem_ok_def)
  then show ?thesis using m(2) unfolding u_def by blast
qed

lemma boot_pif:
  assumes "boot_ready s"
  shows "\<exists>t. write_paddr32 (PHYS_PIF_RAM_BASE + 0x24) v s = Inr t \<and> boot_step s t"
proof -
  define b where "b = be32_put 0x24 v (pif_ram (si s))"
  let ?t = "map_si (\<lambda>_. (si s)\<lparr>pif_ram := b\<rparr>) s"
  have "write_to_byte_array32_be 0x24 v (pif_ram (si s)) = Inr b"
    using assms by (simp add: write_to_byte_array32_be_def boot_ready_def b_def)
  then have "write_paddr32 (PHYS_PIF_RAM_BASE + 0x24) v s = Inr ?t"
    by (simp add: write_paddr32_def write_paddr_def phys_map_def phys_fill_def write_device32_def in_pif_ram_def)
  moreover have "bytes_len b = bytes_len (pif_ram (si s))" by (simp add: b_def be32_put_def)
  then have "boot_step s ?t" by (simp add: boot_step_def boot_ready_def mem_ok_def) (simp add: map_si_def)
  ultimately show ?thesis by blast
qed

lemma note_imem_sizes [simp]:
  "bytes_len (sp_dmem (note_imem_written a n r)) = bytes_len (sp_dmem r)"
  "bytes_len (sp_imem (note_imem_written a n r)) = bytes_len (sp_imem r)"
proof -
  have "sp_dmem (refresh_words k a r) = sp_dmem r \<and> sp_imem (refresh_words k a r) = sp_imem r" for k a r
    by (induction k arbitrary: a r) (simp_all add: refresh_imem_word_def Let_def)
  then show "bytes_len (sp_dmem (note_imem_written a n r)) = bytes_len (sp_dmem r)"
    "bytes_len (sp_imem (note_imem_written a n r)) = bytes_len (sp_imem r)" by (simp_all add: note_imem_written_def)
qed

lemma boot_imem_store:
  assumes "boot_ready s" and "(a, w) \<in> set (boot_imem c)"
  shows "\<exists>t. write_paddr32 (PHYS_SPIMEM_BASE + a) w s = Inr t \<and> boot_step s t"
proof -
  have len: "bytes_len (sp_imem (rsp s)) = 0x1000" using assms(1) by (simp add: boot_ready_def)
  have "a \<in> {0, 4, 8, 0xC, 0x10, 0x14, 0x18, 0x1C}" using assms(2) by (auto simp: boot_imem_def split: if_splits)
  then have "(\<not> PHYS_SPIMEM_BASE + a \<le> PHYS_RDRAM_MEM_END) \<and> drop_bit 16 (PHYS_SPIMEM_BASE + a) = 0x400 \<and>
      \<not> in_dmem (PHYS_SPIMEM_BASE + a) \<and> in_imem (PHYS_SPIMEM_BASE + a) \<and>
      (PHYS_SPIMEM_BASE + a - PHYS_SPIMEM_BASE) AND 0xFFF = a \<and> a AND NOT 3 = a \<and> unat a + 4 \<le> 0x1000"
    unfolding in_dmem_def in_imem_def by (elim insertE emptyE) simp_all
  moreover have "phys_map 0x400 = SpMem" by (simp add: phys_map_def phys_fill_def)
  ultimately have a: "\<not> PHYS_SPIMEM_BASE + a \<le> PHYS_RDRAM_MEM_END" "phys_map (drop_bit 16 (PHYS_SPIMEM_BASE + a)) = SpMem"
    "\<not> in_dmem (PHYS_SPIMEM_BASE + a)" "in_imem (PHYS_SPIMEM_BASE + a)" "(PHYS_SPIMEM_BASE + a - PHYS_SPIMEM_BASE) AND 0xFFF = a"
    "a AND NOT 3 = a" "unat a + 4 \<le> 0x1000" by metis+
  obtain b where b: "write_to_byte_array32 a w (sp_imem (rsp s)) = Inr b" "bytes_len b = 0x1000"
    using a(7) len by (auto simp: write_to_byte_array32_def le32_put_def)
  let ?t = "map_rsp (\<lambda>r. note_imem_written (a AND NOT (4 - 1)) 4 (r\<lparr>sp_imem := b\<rparr>)) s"
  have "write_paddr32 (PHYS_SPIMEM_BASE + a) w s = Inr ?t"
    unfolding write_paddr32_def write_paddr_def Let_def using a(1) by (simp only: a b if_True if_False simp_thms bindR_Inr)
  moreover have "boot_step s ?t" using b(2) len by (simp add: boot_step_def boot_ready_def mem_ok_def) (simp add: map_rsp_def)
  ultimately show ?thesis by blast
qed

lemma boot_step_refl [simp]: "boot_step s s"
  by (simp add: boot_step_def)

lemma boot_step_trans: "boot_step s t \<Longrightarrow> boot_step t u \<Longrightarrow> boot_step s u"
  by (simp add: boot_step_def)

lemma boot_words:
  assumes "boot_ready s" and "set ws \<subseteq> set (boot_imem c)"
  shows "\<exists>t. write_words (map (\<lambda>(a, w). (PHYS_SPIMEM_BASE + a, w)) ws) s = Inr t \<and> boot_step s t"
  using assms
proof (induction ws arbitrary: s)
  case (Cons x ws)
  obtain a w where x: "x = (a, w)" by (cases x)
  then have "(a, w) \<in> set (boot_imem c)" using Cons.prems(2) by simp
  from boot_imem_store [OF Cons.prems(1) this] obtain t where
    t: "write_paddr32 (PHYS_SPIMEM_BASE + a) w s = Inr t" "boot_step s t" by blast
  then have "boot_ready t" using Cons.prems(1) by (simp add: boot_step_def)
  then obtain u where "write_words (map (\<lambda>(a, w). (PHYS_SPIMEM_BASE + a, w)) ws) t = Inr u" "boot_step t u"
    using Cons.IH [of t] Cons.prems(2) by auto
  then show ?case using t boot_step_trans by (auto simp: x)
qed simp

section \<open>The copy to DMEM\<close>

lemma boot_copy:
  assumes "boot_ready s"
  shows "\<exists>m. copy_boot_code s = Inr (map_rsp (\<lambda>r. r\<lparr>sp_dmem := m\<rparr>) s) \<and>
    (\<forall>i < 0x1000. bytes_at m i = n64_byte (rom_data (rom (mem s))) (word_of_nat i))"
proof -
  let ?rom = "rom_data (rom (mem s))"
  let ?f = "\<lambda>i m. bindR (read_from_byte_array8 ?rom (word_of_nat i)) (\<lambda>b. put_plain (word_of_nat i) b m)"
  let ?I = "\<lambda>i (m :: bytes). bytes_len m = 0x1000 \<and> (\<forall>j < i. bytes_at m j = n64_byte ?rom (word_of_nat j))"
  have "\<exists>m. for_loop 0x1000 ?f (sp_dmem (rsp s)) = Inr m \<and> ?I 0x1000 m"
  proof (rule for_loop_invariant [where I = ?I])
    show "?I 0 (sp_dmem (rsp s))" using assms by (simp add: boot_ready_def)
  next
    fix i m assume i: "i < 0x1000" and I: "?I i m"
    have w: "unat (word_of_nat i :: u32) = i" using i by (simp add: unat_of_nat take_bit_nat_eq_self)
    have "in_range ?rom (word_of_nat i)"
      using assms i w by (simp add: in_range_def word_sized_def boot_ready_def mem_ok_def ROM_SIZE_def)
    then have "?f i m = Inr (bytes_set i (n64_byte ?rom (word_of_nat i)) m)"
      using I i w by (simp add: put_plain_def)
    moreover have "?I (Suc i) (bytes_set i (n64_byte ?rom (word_of_nat i)) m)"
      using I by (auto simp: bytes_set_def less_Suc_eq)
    ultimately show "\<exists>m'. ?f i m = Inr m' \<and> ?I (Suc i) m'" by blast
  qed
  then show ?thesis by (auto simp: copy_boot_code_def)
qed

section \<open>The registers\<close>

lemma cpu_gprs [simp]:
  "mem (write_gprs vs s) = mem s" "si (write_gprs vs s) = si s" "rsp (write_gprs vs s) = rsp s"
  for s :: "'a dpc_state_scheme"
proof -
  have "mem (write_gprs vs s) = mem s \<and> si (write_gprs vs s) = si s \<and> rsp (write_gprs vs s) = rsp s"
    by (induction vs arbitrary: s) (auto simp: write_gprs_def gpr_write_def map_cpu_def)
  then show "mem (write_gprs vs s) = mem s" "si (write_gprs vs s) = si s" "rsp (write_gprs vs s) = rsp s" by simp_all
qed

lemma boot_stack:
  "c \<noteq> CIC_UNKNOWN \<Longrightarrow> gpr_read 29 (write_gprs (boot_gprs c) s) = 0xFFFFFFFFA4001FF0"
  "c \<noteq> CIC_UNKNOWN \<Longrightarrow> gpr_read 11 (write_gprs (boot_gprs c) s) = 0xFFFFFFFFA4000040"
  by (cases c; simp add: write_gprs_def gprs_6101_def gprs_7102_def gprs_6102_7101_def gprs_6103_7103_def
      gprs_6105_7105_def gprs_6106_7106_def)+

lemma ready_regs [simp]:
  "boot_ready (write_gprs vs s) = boot_ready s" "boot_ready (map_cpu f s) = boot_ready s"
  "boot_ready (map_cop0 g s) = boot_ready s"
  by (simp_all add: boot_ready_def mem_ok_def map_cop0_def map_cpu_def)

lemma boot_mi: "write_paddr32 0x04300004 v s = Inr s"
  by (simp add: write_paddr32_def write_paddr_def phys_map_def phys_fill_def write_device32_def mi_write_paddr32_def)

text \<open>The state the loader of the cartridge starts in; \<open>s\<close> holds the cartridge.\<close>

definition booted :: "'a dpc_state_scheme \<Rightarrow> 'a dpc_state_scheme \<Rightarrow> bool" where
  "booted s t \<longleftrightarrow> pc (cpu t) = 0xA4000040 \<and> next_pc (cpu t) = 0xA4000044 \<and> c0_status (cop0 t) = 0x34000000 \<and>
     gpr_read 29 t = 0xFFFFFFFFA4001FF0 \<and> gpr_read 11 t = 0xFFFFFFFFA4000040 \<and>
     gpr_read 22 t = ucast (drop_bit 8 (get_cic_seed (rom (mem s))) AND 0xFF) \<and>
     (\<forall>i < 0x1000. bytes_at (sp_dmem (rsp t)) i = n64_byte (rom_data (rom (mem s))) (word_of_nat i))"

lemma gpr_frames [simp]:
  "gpr_read r (set_lo_hi x y s) = gpr_read r s" "gpr_read r (set_pc64 p s) = gpr_read r s"
  "gpr_read r (boot_cop0 s) = gpr_read r s" "gpr_read r (map_rsp f t) = gpr_read r t"
  for t :: "'a dpc_state_scheme"
  by (simp_all add: gpr_read_def set_lo_hi_def set_pc64_def boot_cop0_def map_cop0_def map_rsp_def)

lemma boot_finish:
  assumes "boot_ready s" and "rom (mem s) = rom (mem s0)"
    and "gpr_read 29 s = 0xFFFFFFFFA4001FF0" and "gpr_read 11 s = 0xFFFFFFFFA4000040"
    and "v = ucast (drop_bit 8 (get_cic_seed (rom (mem s0))) AND 0xFF)"
  shows "\<exists>t. copy_boot_code (boot_cop0 (set_pc64 0xA4000040 (gpr_write 22 v s))) = Inr t \<and> booted s0 t"
proof -
  let ?s = "boot_cop0 (set_pc64 0xA4000040 (gpr_write 22 v s))"
  have "boot_ready ?s" using assms(1) by (simp add: boot_cop0_def set_pc64_def gpr_write_def)
  from boot_copy [OF this] obtain m where
    m: "copy_boot_code ?s = Inr (map_rsp (\<lambda>r. r\<lparr>sp_dmem := m\<rparr>) ?s)"
    "\<forall>i < 0x1000. bytes_at m i = n64_byte (rom_data (rom (mem ?s))) (word_of_nat i)" by blast
  have "mem ?s = mem s" by (simp add: boot_cop0_def set_pc64_def gpr_write_def map_cop0_def)
  moreover have "pc (cpu ?s) = 0xA4000040" "next_pc (cpu ?s) = 0xA4000044" "c0_status (cop0 ?s) = 0x34000000"
    by (simp_all add: boot_cop0_def map_cop0_def)
  moreover have "cpu (map_rsp f ?s) = cpu ?s" "cop0 (map_rsp f ?s) = cop0 ?s" for f by (simp_all add: map_rsp_def)
  ultimately show ?thesis using m assms(2-5) by (simp add: booted_def)
qed

lemma rom_hle_boots:
  assumes "boot_ready s" and "rom_cic (rom (mem s)) \<noteq> CIC_UNKNOWN" and "rom (mem s) = rom (mem s0)"
  shows "\<exists>t. rom_hle s = Inr t \<and> booted s0 t"
proof -
  let ?c = "rom_cic (rom (mem s))"
  obtain s1 where s1: "write_paddr32 (PHYS_PIF_RAM_BASE + 0x24) (get_cic_seed (rom (mem s))) s = Inr s1" "boot_step s s1"
    using boot_pif [OF assms(1)] by blast
  let ?s3 = "set_lo_hi (fst (boot_lo_hi ?c)) (snd (boot_lo_hi ?c)) (write_gprs (boot_gprs ?c) s1)"
  have s3: "boot_ready ?s3" "mem ?s3 = mem s1" "gpr_read 29 ?s3 = 0xFFFFFFFFA4001FF0" "gpr_read 11 ?s3 = 0xFFFFFFFFA4000040"
    using s1(2) assms(1) boot_stack [OF assms(2)] by (simp_all add: boot_step_def set_lo_hi_def) (simp_all add: gpr_read_def)
  obtain s4 where s4: "write_words (map (\<lambda>(a, w). (PHYS_SPIMEM_BASE + a, w)) (boot_imem ?c)) ?s3 = Inr s4" "boot_step ?s3 s4"
    using boot_words [OF s3(1) subset_refl] by blast
  let ?v = "ucast (drop_bit 8 (get_cic_seed (rom (mem s))) AND 0xFF) :: u64"
  have "\<exists>t. copy_boot_code (boot_cop0 (set_pc64 0xA4000040 (gpr_write 22 ?v s4))) = Inr t \<and> booted s0 t"
    by (rule boot_finish) (use s3 s4(2) s1(2) assms(3) in \<open>simp_all add: boot_step_def gpr_read_def\<close>)
  moreover have "rom (mem s1) = rom (mem s)" using s1(2) by (simp add: boot_step_def)
  then have "rom_hle s = copy_boot_code (boot_cop0 (set_pc64 0xA4000040 (gpr_write 22 ?v s4)))"
    using s1(1) s4(1) assms(2) by (simp add: rom_hle_def Let_def boot_mi)
  ultimately show ?thesis by simp
qed

text \<open>C16: The boot code never fails on a cartridge with a known security chip: it leaves the program
  counter at the loader in DMEM, the stack pointer and the address register the loader expects, the
  byte of the chip's seed in register 22, and the first 4 KiB of the image in DMEM in the order of the
  console, whatever the order of the host.\<close>

theorem boot_entry:
  assumes "boot_ready s" and "rom_cic (rom (mem s)) \<noteq> CIC_UNKNOWN"
  shows "\<exists>t. execute_rom_hle s = Inr t \<and> booted s t"
proof -
  have ram: "\<exists>t. bindR (write_paddr32 a RDRAM_SIZE s) rom_hle = Inr t \<and> booted s t"
    if "a \<in> {0x318, 0x3F0}" for a
  proof -
    have "a \<le> PHYS_RDRAM_MEM_END" "naturally_aligned 4 a" using that by (auto simp: naturally_aligned_def)
    then obtain u where u: "write_paddr32 a RDRAM_SIZE s = Inr u" "boot_step s u"
      using boot_ram [OF assms(1), of a RDRAM_SIZE] by blast
    then show ?thesis using rom_hle_boots [of u s] assms by (simp add: boot_step_def)
  qed
  show ?thesis
    using ram [of "0x318"] ram [of "0x3F0"] rom_hle_boots [OF assms refl] assms(2)
    by (cases "rom_cic (rom (mem s))") (simp_all add: execute_rom_hle_def)
qed

end
