(* ===== verification/Host_Float_Spec.thy ===== *)
theory Host_Float_Spec
  imports Host_Float
begin

text \<open>
  Rounding is exact on the values a format has, so a value that is widened and narrowed again is unchanged.
\<close>

section \<open>Round trips\<close>

lemma bit_length_Suc: "0 < n \<Longrightarrow> bit_length n = Suc (bit_length (n div 2))"
  by (subst bit_length.simps) simp

lemma bit_length_0 [simp]: "bit_length 0 = 0"
  by (subst bit_length.simps) simp

lemma bit_length_bounds: "0 < n \<Longrightarrow> 2 ^ (bit_length n - 1) \<le> n \<and> n < 2 ^ bit_length n"
proof (induction n rule: bit_length.induct)
  case (1 n)
  show ?case
  proof (cases "n div 2 = 0")
    case True
    then have "n = 1" using 1(2) by linarith
    then show ?thesis using bit_length_Suc [of n] by simp
  next
    case False
    then have "2 ^ (bit_length (n div 2) - 1) \<le> n div 2" "n div 2 < 2 ^ bit_length (n div 2)"
      using 1 by simp_all
    moreover have "bit_length (n div 2) \<noteq> 0" using bit_length_Suc [of "n div 2"] False by simp
    then have "(2 :: nat) ^ bit_length (n div 2) = 2 * 2 ^ (bit_length (n div 2) - 1)"
      by (cases "bit_length (n div 2)") simp_all
    moreover have "2 * c \<le> n \<and> n < 2 * (2 * c)" if "c \<le> n div 2" "n div 2 < 2 * c" for c using that by linarith
    ultimately show ?thesis using bit_length_Suc [OF 1(2)] by simp
  qed
qed

lemma bit_length_unique: "2 ^ k \<le> n \<Longrightarrow> n < 2 ^ Suc k \<Longrightarrow> bit_length n = Suc k"
proof -
  assume a: "2 ^ k \<le> n" "n < 2 ^ Suc k"
  then have n: "0 < n" by (meson less_le_trans zero_less_numeral zero_less_power)
  note b = bit_length_bounds [OF n]
  have "2 ^ (bit_length n - 1) < (2 :: nat) ^ Suc k" using a b by linarith
  moreover have "(2 :: nat) ^ k < 2 ^ bit_length n" using a b by linarith
  ultimately have "bit_length n - 1 < Suc k" "k < bit_length n" by (simp_all only: power_strict_increasing_iff one_less_numeral_iff semiring_norm)
  then show ?thesis by linarith
qed

lemma bit_length_shift: "0 < n \<Longrightarrow> bit_length (n * 2 ^ k) = bit_length n + k"
proof (induction k)
  case (Suc k)
  have "bit_length (n * 2 ^ Suc k) = Suc (bit_length (n * 2 ^ Suc k div 2))" by (rule bit_length_Suc) (use Suc.prems in simp)
  then show ?case using Suc by simp
qed simp

lemma bit_length_le: "n < 2 ^ k \<Longrightarrow> bit_length n \<le> k"
proof (cases "n = 0")
  case False
  assume "n < 2 ^ k"
  then have "2 ^ (bit_length n - 1) < (2 :: nat) ^ k" using bit_length_bounds [of n] False by linarith
  then show ?thesis by simp
qed simp

text \<open>The fields of a packed pattern.\<close>

lemma decode_fields:
  assumes "e < 2 ^ exp_bits F" and "f < 2 ^ frac_bits F"
  shows "float_decode F (sign_bits F s + (e * 2 ^ frac_bits F + f)) =
    (if e = exp_max F then (if f = 0 then Infinite s else Nan)
     else if e = 0 then Finite s f (exp_least F) else Finite s (2 ^ frac_bits F + f) (exp_least F + int e - 1))"
proof -
  let ?p = "2 ^ frac_bits F :: nat" let ?e = "2 ^ exp_bits F :: nat"
  let ?n = "sign_bits F s + (e * ?p + f)"
  have n: "?n = ((if s then 1 else 0) * ?e + e) * ?p + f"
    by (simp add: sign_bits_def power_add algebra_simps)
  have d: "?n div ?p = (if s then 1 else 0) * ?e + e" "?n mod ?p = f"
    unfolding n using assms(2) by simp_all
  have g: "?n div ?p mod ?e = e" "?n div ?p div ?e = (if s then 1 else 0)"
    unfolding d using assms(1) by simp_all
  have s: "odd (?n div 2 ^ (frac_bits F + exp_bits F)) = s"
    by (simp only: power_add div_mult2_eq g) simp
  show ?thesis by (simp only: float_decode_def Let_def s g(1) d(2))
qed

text \<open>A rounded result: \<open>x\<close> is the exponent field less one.\<close>

lemma decode_packed:
  assumes "m < 2 * 2 ^ frac_bits F" and "x + 1 < exp_max F" and "2 ^ frac_bits F \<le> m \<or> x = 0"
  shows "float_decode F (sign_bits F s + (x * 2 ^ frac_bits F + m)) = Finite s m (exp_least F + int x)"
proof (cases "2 ^ frac_bits F \<le> m")
  case True
  define f where "f = m - 2 ^ frac_bits F"
  have f: "f < 2 ^ frac_bits F" "m = 2 ^ frac_bits F + f" using True assms(1) by (simp_all add: f_def)
  have "x + 1 < 2 ^ exp_bits F" using assms(2) by (simp add: exp_max_def)
  from decode_fields [OF this f(1), of s] show ?thesis using assms(2) by (simp add: f(2) algebra_simps)
next
  case False
  then have "x = 0" "m < 2 ^ frac_bits F" using assms(3) by simp_all
  then show ?thesis using decode_fields [of 0 F m s] assms(2) by simp
qed

lemma packed_small: "x + 1 < exp_max F \<Longrightarrow> m < 2 * 2 ^ frac_bits F \<Longrightarrow> x * 2 ^ frac_bits F + m < infinite_bits F"
proof -
  assume a: "x + 1 < exp_max F" "m < 2 * 2 ^ frac_bits F"
  then have "(x + 2) * 2 ^ frac_bits F \<le> exp_max F * 2 ^ frac_bits F" by (intro mult_right_mono) simp_all
  then show ?thesis using a(2) by (simp add: infinite_bits_def algebra_simps)
qed

text \<open>A value that fits is not changed by rounding.\<close>

lemma round_exact:
  assumes "0 < n" and "l = last_place F n e" and "l \<le> e" and "nat (l - exp_least F) + 1 < exp_max F"
  shows "round_float F s n e = sign_bits F s + (nat (l - exp_least F) * 2 ^ frac_bits F + n * 2 ^ nat (e - l))"
    and "float_decode F (round_float F s n e) = Finite s (n * 2 ^ nat (e - l)) l"
proof -
  let ?m = "n * 2 ^ nat (e - l)"
  have l: "exp_least F \<le> l" "e + int (bit_length n) - int (frac_bits F) - 1 \<le> l"
    "l = exp_least F \<or> l = e + int (bit_length n) - int (frac_bits F) - 1"
    using assms(2) by (auto simp: last_place_def)
  have bl: "bit_length ?m = bit_length n + nat (e - l)" by (rule bit_length_shift [OF assms(1)])
  have "bit_length ?m \<le> frac_bits F + 1" using bl l(2) assms(3) by linarith
  then have "(2 :: nat) ^ bit_length ?m \<le> 2 ^ (frac_bits F + 1)" by (rule power_increasing) simp
  then have m: "?m < 2 * 2 ^ frac_bits F" using bit_length_bounds [of ?m] assms(1) by simp
  have h: "2 ^ frac_bits F \<le> ?m \<or> nat (l - exp_least F) = 0"
  proof (cases "l = exp_least F")
    case False
    then have "bit_length ?m - 1 = frac_bits F" using bl l(3) assms(3) by linarith
    then show ?thesis using bit_length_bounds [of ?m] assms(1) by simp
  qed simp
  show r: "round_float F s n e = sign_bits F s + (nat (l - exp_least F) * 2 ^ frac_bits F + ?m)"
    using assms(1,3) packed_small [OF assms(4) m] unfolding round_float_def Let_def assms(2) [symmetric] by simp
  show "float_decode F (round_float F s n e) = Finite s ?m l"
    unfolding r decode_packed [OF m assms(4) h] using l(1) by simp
qed

text \<open>Rounding depends on the value only.\<close>

lemma round_even_exact: "round_even (x * 2 ^ j) j = x"
  by (simp add: round_even_def)

lemma round_even_scaled: "round_even (n * 2 ^ k) (k + j) = round_even n j"
proof -
  have p: "(2 :: nat) ^ (k + j) = 2 ^ j * 2 ^ k" by (simp add: power_add)
  have q: "n * 2 ^ k div 2 ^ (k + j) = n div 2 ^ j" unfolding p by (rule div_mult_mult2) simp
  have r: "n * 2 ^ k mod 2 ^ (k + j) = n mod 2 ^ j * 2 ^ k" unfolding p by (rule mod_mult_mult2)
  have c: "2 ^ j * 2 ^ k < 2 * (n mod 2 ^ j * 2 ^ k) \<longleftrightarrow> 2 ^ j < 2 * (n mod 2 ^ j)"
    "2 * (n mod 2 ^ j * 2 ^ k) = 2 ^ j * 2 ^ k \<longleftrightarrow> 2 * (n mod 2 ^ j) = 2 ^ j"
    by (simp_all only: mult.assoc [symmetric] mult_less_cancel2 mult_cancel2) simp_all
  show ?thesis unfolding round_even_def Let_def q r unfolding p c ..
qed

lemma round_scaled:
  assumes "0 < n"
  shows "round_float F s (n * 2 ^ k) (e - int k) = round_float F s n e"
proof -
  define l where "l = last_place F n e"
  have lp: "last_place F (n * 2 ^ k) (e - int k) = l"
    by (simp add: l_def last_place_def bit_length_shift [OF assms])
  have "(if l \<le> e - int k then n * 2 ^ k * 2 ^ nat (e - int k - l) else round_even (n * 2 ^ k) (nat (l - (e - int k)))) =
      (if l \<le> e then n * 2 ^ nat (e - l) else round_even n (nat (l - e)))"
  proof -
    consider "l \<le> e - int k" | "e - int k < l" "l \<le> e" | "e < l" by linarith
    then show ?thesis
    proof cases
      case 1
      have "nat (e - l) = k + nat (e - int k - l)" using 1 by simp
      then show ?thesis using 1 by (simp add: power_add)
    next
      case 2
      have "k = nat (e - l) + nat (l - (e - int k))" using 2 by simp
      then have "n * 2 ^ k = n * 2 ^ nat (e - l) * 2 ^ nat (l - (e - int k))" by (metis mult.assoc power_add)
      then have "round_even (n * 2 ^ k) (nat (l - (e - int k))) = n * 2 ^ nat (e - l)"
        by (simp only: round_even_exact)
      then show ?thesis using 2 by simp
    next
      case 3
      then have "nat (l - (e - int k)) = k + nat (l - e)" by simp
      then show ?thesis using 3 by (simp add: round_even_scaled)
    qed
  qed
  then show ?thesis using assms by (simp add: round_float_def Let_def lp l_def [symmetric])
qed

lemma round_less: "round_float F s n e < 2 * 2 ^ (frac_bits F + exp_bits F)"
proof -
  have "(0 :: nat) < 2 ^ frac_bits F" "(0 :: nat) < 2 ^ exp_bits F" by simp_all
  then have "infinite_bits F < 2 ^ (frac_bits F + exp_bits F)"
    by (simp add: infinite_bits_def exp_max_def power_add mult.commute)
  then have m: "min (infinite_bits F) k < 2 ^ (frac_bits F + exp_bits F)" for k by (simp add: min_def)
  have "sign_bits F s \<le> 2 ^ (frac_bits F + exp_bits F)" by (simp add: sign_bits_def)
  then have "sign_bits F s + min (infinite_bits F) k < 2 * 2 ^ (frac_bits F + exp_bits F)" for k
    using m [of k] by linarith
  moreover from this [of 0] have "sign_bits F s < 2 * 2 ^ (frac_bits F + exp_bits F)" by simp
  ultimately show ?thesis unfolding round_float_def Let_def by (simp split: if_split)
qed

text \<open>The parts of a bit pattern.\<close>

lemma float_parts:
  assumes "x < 2 * 2 ^ (frac_bits F + exp_bits F)"
  obtains s e f where "x = sign_bits F s + (e * 2 ^ frac_bits F + f)" "e < 2 ^ exp_bits F" "f < 2 ^ frac_bits F"
    "float_decode F x = (if e = exp_max F then (if f = 0 then Infinite s else Nan)
      else if e = 0 then Finite s f (exp_least F) else Finite s (2 ^ frac_bits F + f) (exp_least F + int e - 1))"
proof -
  let ?p = "2 ^ frac_bits F :: nat" let ?e = "2 ^ exp_bits F :: nat"
  define t where "t = x div 2 ^ (frac_bits F + exp_bits F)"
  have "x div ?p div ?e = t" by (simp add: t_def power_add div_mult2_eq)
  moreover have "t < 2" using assms unfolding t_def by (simp add: less_mult_imp_div_less)
  then have "(if odd t then 1 else 0) = t" by (cases t) auto
  moreover have "x = (x div ?p div ?e * ?e + x div ?p mod ?e) * ?p + x mod ?p" by (simp only: div_mult_mod_eq)
  ultimately have "x = ((if odd t then 1 else 0) * ?e + x div ?p mod ?e) * ?p + x mod ?p" by simp
  then have "x = sign_bits F (odd t) + (x div ?p mod ?e * ?p + x mod ?p)"
    by (simp add: sign_bits_def power_add algebra_simps split: if_splits)
  then show ?thesis
    by (rule that [of "odd t" "x div ?p mod ?e" "x mod ?p"]) (simp_all add: float_decode_def Let_def t_def)
qed

lemma round_decode:
  assumes "x < 2 * 2 ^ (frac_bits F + exp_bits F)" and "2 < exp_max F" and "float_decode F x = Finite s n e"
  shows "round_float F s n e = x" and "n < 2 * 2 ^ frac_bits F"
    and "exp_least F \<le> e" and "e + 1 < exp_least F + int (exp_max F)"
proof -
  obtain s' g f where p: "x = sign_bits F s' + (g * 2 ^ frac_bits F + f)" "g < 2 ^ exp_bits F" "f < 2 ^ frac_bits F"
    and d: "float_decode F x = (if g = exp_max F then (if f = 0 then Infinite s' else Nan)
      else if g = 0 then Finite s' f (exp_least F) else Finite s' (2 ^ frac_bits F + f) (exp_least F + int g - 1))"
    by (rule float_parts [OF assms(1)]) blast
  have g: "g < exp_max F" using d assms(3) p(2) by (auto simp: exp_max_def split: if_splits)
  have s: "s' = s" using d assms(3) by (auto split: if_splits)
  have c: "(g = 0 \<and> n = f \<and> e = exp_least F) \<or> (g \<noteq> 0 \<and> n = 2 ^ frac_bits F + f \<and> e = exp_least F + int g - 1)"
    using d assms(3) g by (auto split: if_splits)
  show "n < 2 * 2 ^ frac_bits F" "exp_least F \<le> e" "e + 1 < exp_least F + int (exp_max F)"
    using c p(3) g assms(2) by auto
  show "round_float F s n e = x"
  proof (cases "n = 0")
    case True
    then show ?thesis using c p(1) s by (simp add: round_float_def)
  next
    case False
    have "last_place F n e = e \<and> nat (e - exp_least F) = g - 1"
    proof (cases "g = 0")
      case True
      then have "bit_length n \<le> frac_bits F" using c p(3) by (intro bit_length_le) simp
      then show ?thesis using c True by (simp add: last_place_def)
    next
      case False
      then have "bit_length n = Suc (frac_bits F)" using c p(3) by (intro bit_length_unique) simp_all
      then show ?thesis using c False by (simp add: last_place_def)
    qed
    then have "round_float F s n e = sign_bits F s + ((g - 1) * 2 ^ frac_bits F + n)"
      using round_exact(1) [of n e F e s] False g assms(2) by simp
    moreover have "(g - 1) * 2 ^ frac_bits F + n = g * 2 ^ frac_bits F + f" using c by (cases g) auto
    ultimately show ?thesis using p(1) s by simp
  qed
qed

lemma decode_infinite:
  "float_decode F (sign_bits F s + infinite_bits F) = Infinite s"
  "x < 2 * 2 ^ (frac_bits F + exp_bits F) \<Longrightarrow> float_decode F x = Infinite s \<Longrightarrow> x = sign_bits F s + infinite_bits F"
proof -
  show "float_decode F (sign_bits F s + infinite_bits F) = Infinite s"
    using decode_fields [of "exp_max F" F 0 s] by (simp add: infinite_bits_def exp_max_def)
  show "x = sign_bits F s + infinite_bits F"
    if "x < 2 * 2 ^ (frac_bits F + exp_bits F)" "float_decode F x = Infinite s"
    by (rule float_parts [OF that(1)]) (use that(2) in \<open>auto simp: infinite_bits_def split: if_splits\<close>)
qed

section \<open>Widening is exact\<close>

lemma formats [simp]:
  "frac_bits binary32 = 23" "exp_bits binary32 = 8" "frac_bits binary64 = 52" "exp_bits binary64 = 11"
  "exp_max binary32 = 255" "exp_max binary64 = 2047" "exp_least binary32 = - 149" "exp_least binary64 = - 1074"
  by (simp_all add: binary32_def binary64_def exp_max_def exp_least_def)

lemma widen_exact:
  assumes "x < 2 ^ 32" and "float_decode binary32 x \<noteq> Nan"
  shows "float_convert binary32 nan' (float_decode binary64 (float_convert binary64 nan (float_decode binary32 x))) = x"
proof -
  have x: "x < 2 * 2 ^ (frac_bits binary32 + exp_bits binary32)" using assms(1) by simp
  show ?thesis
  proof (cases "float_decode binary32 x")
    case Nan
    then show ?thesis using assms(2) by simp
  next
    case (Infinite s)
    then show ?thesis using decode_infinite(1) [of binary64 s] decode_infinite(2) [OF x Infinite] by simp
  next
    case (Finite s n e)
    note r = round_decode [OF x _ Finite]
    have b: "n < 2 ^ 24" "- 149 \<le> e" "e \<le> 104" "round_float binary32 s n e = x" using r by simp_all
    show ?thesis
    proof (cases "n = 0")
      case True
      have "float_decode binary64 (sign_bits binary64 s) = Finite s 0 (- 1074)"
        using decode_packed [of 0 binary64 0 s] by simp
      then show ?thesis using b(4) Finite True by (simp add: round_float_def)
    next
      case False
      define l where "l = last_place binary64 n e"
      have "bit_length n \<le> 24" by (rule bit_length_le [OF b(1)])
      moreover have "0 < bit_length n" using bit_length_Suc [of n] False by simp
      ultimately have l: "l \<le> e" "- 1074 \<le> l" "l \<le> 75" using b(2,3) by (auto simp: l_def last_place_def)
      have "float_decode binary64 (round_float binary64 s n e) = Finite s (n * 2 ^ nat (e - l)) l"
        by (rule round_exact(2) [OF _ l_def l(1)]) (use False l in simp_all)
      moreover have "round_float binary32 s (n * 2 ^ nat (e - l)) l = round_float binary32 s n e"
        using round_scaled [of n binary32 s "nat (e - l)" e] False l(1) by simp
      ultimately show ?thesis using b(4) Finite by simp
    qed
  qed
qed

end
