(* ===== verification/Interp_Spec.thy ===== *)
theory Interp_Spec
  imports Interp_Clock
begin

text \<open>
  What the interpreter fetches: the decode cache is invisible, since a fetch from RDRAM returns the word
  that is there now, with the handler it decodes to.
\<close>

section \<open>The cache is transparent\<close>

definition fetched_word :: "u32 \<Rightarrow> 'a dpc_state_scheme \<Rightarrow> u32 \<Rightarrow> ((u32 \<times> handler) \<times> 'a dpc_state_scheme) res \<Rightarrow> bool" where
  "fetched_word p s w r \<longleftrightarrow> read_from_byte_array32 (rdram (mem s)) p = Inr w \<and>
     (case r of
        Inl e \<Rightarrow> decode w = Inl e
      | Inr ((w', h), s') \<Rightarrow> w' = w \<and> decode w = Inr h \<and> rdram (mem s') = rdram (mem s) \<and>
          code_coherent s' \<and> cache_ok (dcache s') \<and> cached (dcache s') p = Some (w, h))"

lemma framebuffer_dcache [simp]: "dcache (check_framebuffers a n s) = dcache s"
  by (simp add: check_framebuffers_def map_rdp_def Let_def)

lemma same_word:
  assumes "aligned4 a" and "aligned4 p"
  shows "page_of a = page_of p \<and> word_of a = word_of p \<longleftrightarrow> a = p"
proof -
  have w: "unat (word_of x) = unat x mod 4096 div 4" for x
    using unat_and_mask [of x 12] by (simp add: word_of_def unsigned_drop_bit_eq drop_bit_eq_div mask_eq_exp_minus_1 unat_div)
  have split: "n = n div 4096 * 4096 + n mod 4096 div 4 * 4" if "n mod 4 = 0" for n :: nat
  proof -
    have "n mod 4096 mod 4 = 0" using that by (simp add: mod_mod_cancel)
    then have "n mod 4096 div 4 * 4 = n mod 4096" using div_mult_mod_eq [of "n mod 4096" 4] by simp
    then show ?thesis by simp
  qed
  have "unat a = unat p" if "page_of a = page_of p" "word_of a = word_of p"
    using that split [of "unat a"] split [of "unat p"] assms w [of a] w [of p]
    by (simp add: page_of_iff aligned4_def)
  then show ?thesis unfolding word_unat_eq_iff [of a p] by (auto dest: word_unat_eq_iff [THEN iffD2])
qed

lemma fetch_hit:
  assumes "code_coherent s" and "cache_ok (dcache s)" and "aligned4 p" and "unat p < 0x800000"
    and "cached (dcache s) p = Some (w, h)"
  shows "fetched_word p s w (fetch_decoded p s)"
proof -
  obtain c where c: "try_hit p (dcache s) = (Some (w, h), c)" "cache_ok c" "\<And>a. cached c a = cached (dcache s) a"
    using try_hit_cached [OF assms(2), of p] assms(5) by (cases "try_hit p (dcache s)") simp_all
  have "read_from_byte_array32 (rdram (mem s)) p = Inr w \<and> decode w = Inr h"
    using assms(1,3-5) by (simp add: code_coherent_def)
  moreover have "code_coherent (map_dcache (\<lambda>_. c) s)"
    using assms(1) c(3) by (simp add: code_coherent_def map_dcache_def)
  ultimately show ?thesis
    using c assms(5) by (simp add: fetched_word_def fetch_decoded_def) (simp add: map_dcache_def)
qed

lemma fetch_miss:
  assumes "code_coherent s" and "cache_ok (dcache s)" and "aligned4 p" and "p \<le> PHYS_RDRAM_MEM_END"
    and "cached (dcache s) p = None" and "read_from_byte_array32 (rdram (mem s)) p = Inr w"
  shows "fetched_word p s w (fetch_decoded p s)"
proof -
  obtain c where c: "try_hit p (dcache s) = (None, c)" "cache_ok c" "\<And>a. cached c a = cached (dcache s) a"
    using try_hit_cached [OF assms(2), of p] assms(5) by (cases "try_hit p (dcache s)") simp_all
  let ?t = "check_framebuffers p 4 (map_dcache (\<lambda>_. c) s)"
  have t: "mem ?t = mem s" "dcache ?t = c" by (simp_all add: map_dcache_def)
  then have r: "read_paddr32 p (map_dcache (\<lambda>_. c) s) = Inr (w, ?t)"
    using assms(4,6) by (simp add: read_paddr32_def read_paddr_def map_dcache_def)
  show ?thesis
  proof (cases "decode w")
    case (Inl e)
    then show ?thesis using assms(6) c(1) r by (simp add: fetched_word_def fetch_decoded_def)
  next
    case (Inr h)
    let ?u = "map_dcache (dc_fill p w h) ?t"
    have u: "mem ?u = mem s" "dcache ?u = dc_fill p w h c" using t by (simp_all add: map_dcache_def)
    have "code_coherent ?u"
      unfolding code_coherent_def u cached_fill
    proof (intro allI impI)
      fix a w' h' assume a: "aligned4 a" "unat a < 0x800000"
        and e: "(if page_of a = page_of p \<and> word_of a = word_of p then Some (w, h) else cached c a) = Some (w', h')"
      show "read_from_byte_array32 (rdram (mem s)) a = Inr w' \<and> decode w' = Inr h'"
      proof (cases "page_of a = page_of p \<and> word_of a = word_of p")
        case True
        then have "a = p" using a(1) assms(3) by (simp add: same_word)
        then show ?thesis using e True assms(6) Inr by simp
      next
        case False
        then have "cached (dcache s) a = Some (w', h')" using e c(3) by (simp only: if_False simp_thms)
        then show ?thesis using assms(1) a unfolding code_coherent_def by blast
      qed
    qed
    moreover have "fetch_decoded p s = Inr ((w, h), ?u)" using c(1) r Inr by (simp add: fetch_decoded_def)
    ultimately show ?thesis using assms(6) Inr u by (simp add: fetched_word_def cache_ok_fill cached_fill)
  qed
qed

text \<open>C4: A fetch through the decode cache is a fetch from memory: whether the word is cached or not,
  the interpreter executes the word that RDRAM holds at the program counter, with the handler it
  decodes to (or stops if it decodes to none), and the cache stays coherent.\<close>

theorem fetch_current:
  assumes "mem_ok s" and "code_coherent s" and "cache_ok (dcache s)" and "aligned4 p" and "p \<le> PHYS_RDRAM_MEM_END"
  shows "\<exists>w. fetched_word p s w (fetch_decoded p s)"
proof -
  have p: "unat p < 0x800000" using assms(5) by (simp add: word_le_nat_alt)
  have "in_range (rdram (mem s)) p" using assms(1) p by (simp add: mem_ok_def in_range_def word_sized_def)
  then obtain w where "read_from_byte_array32 (rdram (mem s)) p = Inr w"
    using read32_n64_bytes [OF assms(4)] by blast
  then show ?thesis
    using fetch_miss [OF assms(2-5)] fetch_hit [OF assms(2-4) p] by (cases "cached (dcache s) p") auto
qed

end
