(* ===== verification/System_Witnesses.thy ===== *)
theory System_Witnesses
  imports Machine_Witnesses System_Spec Boot_Spec Fpu_Spec Interp_Spec
begin

text \<open>
  The instances of the properties of the interpreter, of the frame loop, of the boot code and of the
  floating-point conversions at a machine that has just been set up.
\<close>

definition some_nans :: host_nans where
  "some_nans = \<lparr>nan_s = (\<lambda>_ _. 0x7FC00000), nan_d = (\<lambda>_ _. 0x7FF8000000000000),
     nan_widened = (\<lambda>_. 0x7FF8000000000000), nan_narrowed = (\<lambda>_. 0x7FC00000)\<rparr>"

theorem run_returns_witness:
  "returns (\<lambda>(n, t). 2000 \<le> n \<and> n \<le> 2000 + 2 ^ 21 \<and> sched_good t \<and> int (unat (now t)) = 5 + n)
    (run some_nans 2000 rsp_machine)"
  using run_returns [of rsp_machine 2000 some_nans] by simp

theorem frame_returns_witness:
  "returns (\<lambda>t. sched_good t \<and> now rsp_machine \<le> now t \<and> int (unat (now t)) \<le> int (unat (now rsp_machine)) + 2 ^ 32)
    (system_step some_nans rsp_machine)"
  by (rule frame_returns) simp_all

lemma rsp_machine_cache: "cache_ok (dcache rsp_machine)"
  by (simp add: cache_ok_def rsp_machine_def machine_def)

theorem fetch_current_witness: "\<exists>w. fetched_word 0x1000 rsp_machine w (fetch_decoded 0x1000 rsp_machine)"
  using fetch_current [of rsp_machine "0x1000"] rsp_machine_cache by (simp add: aligned4_def)

text \<open>An image of 64 bytes with the mark of the console's byte order.\<close>

definition small_rom :: "u8 list" where
  "small_rom = [0x80, 0x37, 0x12, 0x40] @ replicate 60 0"

theorem power_on_ok_witness: "\<exists>t. reset_all (Some small_rom) None rsp_machine = Inr t \<and> machine_ok t"
proof -
  have m: "mem_ok rsp_machine" by simp
  then have "bytes_len (rom_data (rom (mem (memory_reset (sched_init rsp_machine))))) = ROM_SIZE"
    by (simp add: mem_ok_def memory_reset_def sched_init_def)
  moreover have "be_word 0x80 0x37 0x12 (0x40 :: u8) = 0x80371240" by (simp add: be_word_def le32_def)
  ultimately have "\<exists>r. rom_load_file (Some small_rom) (rom (mem (memory_reset (sched_init rsp_machine)))) = Inr r"
    by (simp add: rom_load_file_def Let_def small_rom_def ROM_SIZE_def rom_type_of_def bytes_slice_def bytes_load_def)
  then have "\<exists>t. reset_all (Some small_rom) None rsp_machine = Inr t"
    by (auto simp: reset_all_devices load_rom_def Let_def)
  then show ?thesis using power_on_ok [OF m, of "Some small_rom" None] by (auto simp: holds_ok_iff)
qed

definition with_cartridge :: dpc_state where
  "with_cartridge = rsp_machine\<lparr>mem := (mem rsp_machine)\<lparr>rom := (rom (mem rsp_machine))\<lparr>rom_cic := CIC_NUS_6105_7105\<rparr>\<rparr>\<rparr>"

theorem boot_entry_witness: "\<exists>t. execute_rom_hle with_cartridge = Inr t \<and> booted with_cartridge t"
proof (rule boot_entry)
  have "mem_ok with_cartridge" using rsp_machine_ok(1) by (simp add: with_cartridge_def mem_ok_def)
  then show "boot_ready with_cartridge"
    by (simp add: boot_ready_def with_cartridge_def zero_rsp_def bytes_fill_def) (simp add: rsp_machine_def zero_si_def bytes_fill_def)
  show "rom_cic (rom (mem with_cartridge)) \<noteq> CIC_UNKNOWN" by (simp add: with_cartridge_def)
qed

text \<open>Coprocessor 1 usable, the single 1.5 in register 2: CVT.D.S F4, F2 and CVT.S.D F6, F4.\<close>

definition fpu_machine :: dpc_state where
  "fpu_machine = map_cop1 (put_fgr 2 0x3FC00000) (map_cop0 (\<lambda>c. c\<lparr>c0_status := 0x24000000\<rparr>) rsp_machine)"

theorem cvt_roundtrip_witness:
  "\<exists>s'. bindR (op_cop1_arith some_nans 0x46001121 fpu_machine) (op_cop1_arith some_nans 0x462021A0) = Inr s' \<and>
    get_float_s 6 s' = 0x3FC00000"
proof -
  have s: "c0_status (cop0 fpu_machine) = 0x24000000" by (simp add: fpu_machine_def map_cop1_def)
  have "get_float_s 2 fpu_machine = 0x3FC00000"
    by (simp add: get_float_s_def status_fr_def s get_fgr_word_arith_def) (simp add: fpu_machine_def map_cop1_def put_fgr_def fr_low_def)
  moreover have "val_s 0x3FC00000 \<noteq> Nan" by (simp add: val_s_def float_decode_def)
  moreover have "fr_fs 0x46001121 = 2" "fr_fd 0x46001121 = 4" "fr_fmt 0x46001121 = 0b10000" "fr_funct 0x46001121 = 0b100001"
    "fr_fs 0x462021A0 = 4" "fr_fd 0x462021A0 = 6" "fr_fmt 0x462021A0 = 0b10001" "fr_funct 0x462021A0 = 0b100000"
    by (simp_all add: fr_fs_def fr_fd_def fr_fmt_def fr_funct_def bf_get_def)
  ultimately show ?thesis
    using cvt_roundtrip [of fpu_machine "0x46001121" "0x462021A0" some_nans] s by simp
qed

end
