(* ===== verification/Spec2Isabelle.thy ===== *)
theory Spec2Isabelle
  imports System_Witnesses
begin

text \<open>
  A model of the core of a Nintendo 64 emulator (\<open>src/src\<close>, \<open>src/include\<close>): the processor with its
  integer, memory, system and floating-point instructions, the MMU and the decode cache, the interpreter
  and the frame loop that drives it, the bus with every device behind it, the event scheduler, the
  signal processor with its vector unit, and the parser of display lists.

  \<^bold>\<open>How the program is put together.\<close> The emulated machine is a set of global objects (\<open>g_cpu()\<close>,
  \<open>g_mi()\<close>, \<open>g_scheduler()\<close>, ...). The frame loop (\<open>N64System::step\<close>) walks the half-lines of the video
  interface and gives the interpreter (\<open>CachedInterp::run\<close>) the cycles of each. The interpreter fetches a
  word through the decode cache, runs its handler and hands the cycles to the scheduler in batches; a
  branch to itself is warped over. Loads and stores go through the soft TLB and the MMU to the bus, and
  from there to RDRAM, the memories of the signal processor, the cartridge or a device register.
  A device register write may start a DMA, which copies memory at once and schedules an event; the
  scheduler performs the event when emulated time reaches it, and the event raises an interrupt at the
  MIPS interface, which drives one line of the CPU's Cause register. Starting the signal processor runs
  its task to the next point of synchronisation; the task may write the registers of the DPC, which
  parses the display list for the RDP. Code that writes RDRAM tells the decode cache (and, for accesses
  that a pending RDP command may overlap, waits for the RDP).

  \<^bold>\<open>State.\<close> The global objects become one record that grows along the import chain: \<open>irq_state\<close>
  (COP0 registers and MI, theory \<open>Interrupts\<close>), \<open>sched_state\<close> (\<open>Scheduler\<close>), \<open>code_state\<close>
  (\<open>Decode_Cache\<close>), \<open>mem_state\<close> (\<open>Memory\<close>), \<open>vi_state\<close>, \<open>rdp_state\<close>, \<open>ai_state\<close>, \<open>pi_state\<close>,
  \<open>si_state\<close>, \<open>tlb_state\<close>, \<open>cpu_state\<close>, \<open>rsp_state\<close>, \<open>dpc_state\<close>. An operation is polymorphic in the
  fields added after it, so a device's operation applies to every later state. Machine integers are words
  of their width; the cycle counts of a slice and the counters of the frame loop, which stay far below
  \<open>2 ^ 31\<close>, are integers. Code that may end the process (\<open>Utils::abort\<close>, \<open>Utils::unimplemented\<close>, an
  invalid encoding, an access out of bounds, an undefined shift, division, conversion or signed overflow) returns the sum
  type \<open>res\<close> of \<open>Prelude\<close>; code that might also not return, an option of it, with \<open>None\<close> for a loop that
  does not end.

  \<^bold>\<open>Theories.\<close>
  \<^item> \<open>Prelude\<close>: words, results, loops, bit fields of packed unions, sign extension.
  \<^item> \<open>Byte_Array\<close> (\<open>utils/byte_array.cpp\<close>): host-order and console-order accesses, the byte swap.
  \<^item> \<open>Interrupts\<close> (\<open>mmio/mi.cpp\<close>, \<open>n64_system/interrupt.cpp\<close>): MI registers and the interrupt line.
  \<^item> \<open>Scheduler\<close> (\<open>n64_system/scheduler.cpp\<close>): the event queue; a callback is a value of a datatype
    and performing it an argument.
  \<^item> \<open>Decode\<close>, \<open>Decode_Cache\<close> (\<open>cpu/instruction.h\<close>, \<open>cpu/cached_interp.cpp\<close>): the decode switch and the cache
    of decoded words.
  \<^item> \<open>Rom\<close>, \<open>Memory\<close> (\<open>memory/rom.cpp\<close>, \<open>memory/memory.cpp\<close>, \<open>memory/ri.cpp\<close>): cartridge image, RDRAM, save files, RI.
  \<^item> \<open>VI\<close>, \<open>AI\<close>, \<open>PI\<close>, \<open>SI\<close> (\<open>mmio/*.cpp\<close>): the interfaces with their DMA engines and events.
  \<^item> \<open>Rdp_Core\<close> (\<open>rdp/rdp_core.cpp\<close>): dirty-granule tracking; the RDP device itself is external.
  \<^item> \<open>Tlb\<close> (\<open>mmu/*.cpp\<close>): entries, translation, the soft TLB.
  \<^item> \<open>Cop0\<close>, \<open>Cpu\<close>, \<open>Alu\<close>, \<open>Alu_Spec\<close> (\<open>cpu/cop0.cpp\<close>, \<open>cpu/cpu.cpp\<close>, \<open>cpu/cop1.cpp\<close>,
    \<open>cpu/cpu_instruction_impl.cpp\<close>): system control, exceptions, register instructions and their integer
    reference.
  \<^item> \<open>Rsp_Regs\<close>, \<open>Rsp_Rom\<close>, \<open>Rsp_Vector\<close>, \<open>Rsp_Vector_Mem\<close>, \<open>Rsp_Scalar\<close>, \<open>Rsp\<close> (\<open>rcp/rsp.cpp\<close>,
    \<open>rcp/rsp_vector.cpp\<close>, \<open>rcp/rsp_rom.h\<close>): the signal processor: registers and decode tables, reciprocal
    tables, vector computations, vector loads and stores, scalar instructions, DMA, tasks. Their properties
    are in \<open>Rsp_Vector_Spec\<close>, \<open>Rsp_Dma\<close> and \<open>Rsp_Imem\<close>.
  \<^item> \<open>Dpc\<close> (\<open>rcp/dpc.cpp\<close>): registers and the parser of display lists.
  \<^item> \<open>Bus\<close>, \<open>Bus_Spec\<close> (\<open>memory/bus.cpp\<close>): the map of physical pages and the accesses of each width; the
    contract of the accessors of a width and what a store does.
  \<^item> \<open>Machine\<close> (\<open>n64_system/scheduler.h\<close>): the handler of each scheduled callback, and that the handlers meet the
    contract of the scheduler. \<open>Machine_Clock\<close>: no access on the bus moves the clock.
  \<^item> \<open>Idle_Skip\<close> (\<open>cpu/idle_skip.cpp\<close>): marking idle loops and warping over them.
  \<^item> \<open>Cpu_Branch\<close>, \<open>Cpu_Mem\<close>, \<open>Cpu_Mem_Spec\<close> (\<open>cpu/cpu_instruction_impl.cpp\<close>): branches, traps, coprocessor
    moves, loads and stores, and what the unaligned ones move.
  \<^item> \<open>Host_Float\<close>, \<open>Host_Float_Spec\<close>: the floating-point arithmetic of the host language, IEEE 754 with rounding
    to nearest, executable on bit patterns. \<open>Cpu_Fpu\<close>, \<open>Fpu_Spec\<close> (\<open>cpu/fpu_instruction_impl.cpp\<close>): the instructions
    of coprocessor 1 and their properties.
  \<^item> \<open>Interp\<close>, \<open>Interp_Clock\<close>, \<open>Interp_Spec\<close> (\<open>cpu/cached_interp.cpp\<close>): a step and a slice of the interpreter, its
    clock and its fetch.
  \<^item> \<open>Boot\<close>, \<open>Boot_Spec\<close> (\<open>mmio/pif.cpp\<close>): the emulated boot code.
  \<^item> \<open>System\<close>, \<open>System_Spec\<close> (\<open>n64_system/n64_system.cpp\<close>): power-on and the frame loop.
  \<^item> \<open>Witnesses\<close>, \<open>Rsp_Witnesses\<close>, \<open>Machine_Witnesses\<close>, \<open>System_Witnesses\<close>: concrete machines at which the
    hypotheses of the properties hold.

  \<^bold>\<open>What the lemmas show.\<close> The invariants of the components are \<open>sched_ok\<close> (the queue is sorted and the clock
  below its end), \<open>ai_ok\<close> (the audio FIFO and its event), \<open>vi_timing_ok\<close>, \<open>soft_ok\<close> (the soft TLB agrees with
  the TLB), \<open>code_coherent\<close> and \<open>cache_ok\<close> (the decode cache agrees with RDRAM), \<open>imem_ok\<close> (the decoded words of
  IMEM), \<open>mem_ok\<close> (the sizes of the arrays); \<open>power_on_ok\<close> establishes them all. The interfaces are locales:
  \<open>timer_queue\<close> and \<open>event_handlers\<close> between the scheduler and its clients, \<open>cell_store\<close> and \<open>word_store\<close> for the byte
  arrays, \<open>rdram_access\<close> for the bus, \<open>page_translation\<close> between the MMU and the soft TLB, \<open>irq_controller\<close> for the interrupt line,
  \<open>lane_loop\<close> for the vector instructions, \<open>dpc_observer\<close> for what a display list cannot change; each is
  interpreted on the definitions of the code. Time is followed through the whole machine: a handler does not move the
  clock (\<open>handled\<close>), an instruction does not (\<open>clocked\<close>), the scheduler's loop ends (\<open>tick_returns\<close>), a slice of the
  interpreter accounts for every cycle (\<open>run_returns\<close>) and a frame ends (\<open>frame_returns\<close>).

  \<^bold>\<open>Bounds.\<close> A task of the signal processor runs at most \<open>10 ^ 7\<close> instructions, the cap of the source. A warp
  is at most \<open>2 ^ 20\<close> cycles, the source's constant; a slice may exceed its budget by two of them. A half-line
  has at most 1562500 cycles, a field at most 511 half-lines. The clock ends at \<open>2 ^ 48 - 1\<close>, which the model
  of the scheduler states as an assumption: 34 days of emulated time. There is no fuel: every loop is
  structural, has a measure, or is a partial function proved to return.

  \<^bold>\<open>Not modelled.\<close> The recompiler (\<open>cpu/jit\<close>) emits x86-64 code through an external assembler and would need a
  model of the host processor; the SIMD back ends of the vector unit use host intrinsics (the scalar back end
  is modelled). The RDP is an external device; its calls are logged. The debugger, logging and profiling
  observe the machine. Presentation, frame interpolation, audio output, input and the user interface are
  host code; the state of the controllers and the contents of files are arguments. The frame loop is the
  one of a normal run, without pacing, the debugger and the test mode's callback. The bits of a NaN result
  are the host's choice and an argument (\<open>host_nans\<close>).
\<close>

end
